(* ===== verification/Prelude.thy ===== *)
theory Prelude imports Main "HOL-Library.Word" "HOL-Library.Multiset" begin

text \<open>
  What every other theory shares: the machine integers and byte strings of the Go code,
  the parts of Go's standard library the source calls (conversions between \<open>string\<close> and
  \<open>[]byte\<close>, \<open>strings.Join\<close>, \<open>binary.BigEndian\<close>, \<open>strconv.FormatUint\<close>, \<open>sort.SliceStable\<close>),
  the three ways a Go statement can end (it completes, it blocks, it panics), and the
  collections of facts the component proofs pass to the simplifier.
\<close>

named_theorems byte_simps "conversions between strings and bytes"
named_theorems outcome_simps "sequencing of outcomes"

type_synonym byte = "8 word"
type_synonym bytes = "byte list"
type_synonym u32 = "32 word"
type_synonym u64 = "64 word"

subsection \<open>Strings and byte slices\<close>

text \<open>A Go string is a sequence of bytes, and so is an Isabelle string: \<open>[]byte(s)\<close> and
  \<open>string(b)\<close> are the two directions of one bijection.\<close>

definition byte_of_char :: "char \<Rightarrow> byte" where
  "byte_of_char c = word_of_nat (of_char c)"

definition char_of_byte :: "byte \<Rightarrow> char" where
  "char_of_byte b = char_of (unat b)"

definition to_bytes :: "string \<Rightarrow> bytes" where
  "to_bytes s = map byte_of_char s"

definition to_str :: "bytes \<Rightarrow> string" where
  "to_str b = map char_of_byte b"

lemma char_of_byte_of_char [byte_simps, simp]: "char_of_byte (byte_of_char c) = c"
proof -
  have "unat (word_of_nat (of_char c) :: byte) = of_char c"
    by (simp add: unsigned_of_nat take_bit_nat_eq_self)
  then show ?thesis by (simp add: char_of_byte_def byte_of_char_def)
qed

lemma byte_of_char_of_byte [byte_simps, simp]: "byte_of_char (char_of_byte b) = b"
proof -
  have "unat b < 256" using unsigned_less [of b] by simp
  then show ?thesis by (simp add: char_of_byte_def byte_of_char_def)
qed

lemma to_str_to_bytes [byte_simps, simp]: "to_str (to_bytes s) = s"
  by (simp add: to_str_def to_bytes_def comp_def)

lemma to_bytes_to_str [byte_simps, simp]: "to_bytes (to_str b) = b"
  by (simp add: to_str_def to_bytes_def comp_def)

lemma to_bytes_inject [byte_simps, simp]: "to_bytes s = to_bytes t \<longleftrightarrow> s = t"
  by (metis to_str_to_bytes)

lemma to_bytes_append [byte_simps, simp]: "to_bytes (s @ t) = to_bytes s @ to_bytes t"
  by (simp add: to_bytes_def)

lemma to_bytes_simps [byte_simps, simp]:
  "to_bytes [] = []" "to_bytes (c # s) = byte_of_char c # to_bytes s"
  "length (to_bytes s) = length s" "to_bytes s = [] \<longleftrightarrow> s = []"
  by (simp_all add: to_bytes_def)

lemma to_str_simps [byte_simps, simp]:
  "to_str [] = []" "to_str (b # bs) = char_of_byte b # to_str bs"
  "length (to_str bs) = length bs" "to_str bs = [] \<longleftrightarrow> bs = []"
  by (simp_all add: to_str_def)

lemma set_to_bytes: "byte_of_char c \<in> set (to_bytes s) \<longleftrightarrow> c \<in> set s"
  by (auto simp: to_bytes_def) (metis char_of_byte_of_char)

subsection \<open>The standard library the source calls\<close>

text \<open>A slice that may be nil: \<open>None\<close> is nil, whose length is 0.\<close>

type_synonym 'a slice = "'a list option"

definition elems :: "'a slice \<Rightarrow> 'a list" where
  "elems s = (case s of None \<Rightarrow> [] | Some xs \<Rightarrow> xs)"

lemma elems_simps [simp]: "elems None = []" "elems (Some xs) = xs"
  by (simp_all add: elems_def)

text \<open>\<open>strings.Join\<close>.\<close>

fun join :: "string \<Rightarrow> string list \<Rightarrow> string" where
  "join sep [] = []"
| "join sep [x] = x"
| "join sep (x # y # ys) = x @ sep @ join sep (y # ys)"

lemma join_Cons: "xs \<noteq> [] \<Longrightarrow> join sep (x # xs) = x @ sep @ join sep xs"
  by (cases xs) simp_all

lemma join_snoc: "xs \<noteq> [] \<Longrightarrow> join sep (xs @ [x]) = join sep xs @ sep @ x"
  by (induction sep xs rule: join.induct) (simp_all add: join_Cons)

text \<open>\<open>binary.BigEndian.PutUint32\<close>, \<open>Uint32\<close> and \<open>PutUint64\<close>.\<close>

definition put_u32 :: "u32 \<Rightarrow> bytes" where
  "put_u32 v = [ucast (drop_bit 24 v), ucast (drop_bit 16 v), ucast (drop_bit 8 v), ucast v]"

definition put_u64 :: "u64 \<Rightarrow> bytes" where
  "put_u64 v = [ucast (drop_bit 56 v), ucast (drop_bit 48 v), ucast (drop_bit 40 v),
     ucast (drop_bit 32 v), ucast (drop_bit 24 v), ucast (drop_bit 16 v),
     ucast (drop_bit 8 v), ucast v]"

fun get_u32 :: "bytes \<Rightarrow> u32" where
  "get_u32 (a # b # c # d # _) =
     push_bit 24 (ucast a) + push_bit 16 (ucast b) + push_bit 8 (ucast c) + ucast d"
| "get_u32 _ = 0"

lemma length_put_u32 [simp]: "length (put_u32 v) = 4"
  by (simp add: put_u32_def)

lemma length_put_u64 [simp]: "length (put_u64 v) = 8"
  by (simp add: put_u64_def)

lemma unat_shift: "unat (drop_bit k (v :: 'a::len word)) = unat v div 2 ^ k"
  by (metis unat_drop_bit_eq drop_bit_eq_div)

lemma unat_low_byte: "unat (ucast v :: byte) = unat (v :: u32) mod 256"
  by (simp add: unsigned_ucast_eq take_bit_eq_mod)

lemma push_byte: "push_bit k (ucast (b :: byte) :: u32) = word_of_nat (2 ^ k * unat b)"
  by (simp add: push_bit_eq_mult mult.commute)

lemma four_bytes:
  fixes n :: nat
  assumes "n < 4294967296"
  shows "16777216 * (n div 16777216 mod 256) + (65536 * (n div 65536 mod 256)
     + (256 * (n div 256 mod 256) + n mod 256)) = n"
proof -
  have q2: "n div 65536 = n div 256 div 256" and q3: "n div 16777216 = n div 256 div 256 div 256"
    by (simp_all add: div_mult2_eq [symmetric])
  have "n div 256 div 256 div 256 < 256"
    using assms by (simp add: div_mult2_eq [symmetric] div_less_iff_less_mult)
  then have q3_mod: "n div 256 div 256 div 256 mod 256 = n div 256 div 256 div 256"
    by (rule mod_less)
  have "n = 256 * (n div 256) + n mod 256"
    and "n div 256 = 256 * (n div 256 div 256) + n div 256 mod 256"
    and "n div 256 div 256 = 256 * (n div 256 div 256 div 256) + n div 256 div 256 mod 256"
    by (rule mult_div_mod_eq [symmetric])+
  then show ?thesis
    unfolding q2 q3 q3_mod by linarith
qed

lemma get_put_u32 [simp]: "get_u32 (put_u32 v @ rest) = v"
proof -
  have "unat v < 4294967296" using unsigned_less [of v] by simp
  note eq = four_bytes [OF this, THEN arg_cong, of "word_of_nat :: nat \<Rightarrow> u32"]
  have "get_u32 (put_u32 v @ rest) = word_of_nat
    (2 ^ 24 * (unat v div 2 ^ 24 mod 256)) + word_of_nat (2 ^ 16 * (unat v div 2 ^ 16 mod 256))
    + word_of_nat (2 ^ 8 * (unat v div 2 ^ 8 mod 256)) + word_of_nat (unat v mod 256)"
    using push_byte [of 0 "ucast v"]
    by (simp only: put_u32_def append_Cons append_Nil get_u32.simps push_byte
          unat_shift unat_low_byte push_bit_0_id power_0 mult_1 id_apply)
  also have "\<dots> = v"
    using eq by (simp add: add.assoc)
  finally show ?thesis .
qed

lemmas get_put_u32_nil [simp] = get_put_u32 [where rest = "[]", simplified]

text \<open>\<open>strconv.FormatUint(n, 10)\<close> and \<open>strconv.FormatInt(n, 10)\<close>.\<close>

definition digit :: "nat \<Rightarrow> char" where
  "digit d = char_of (48 + d)"

fun decimal :: "nat \<Rightarrow> string" where
  "decimal n = (if n < 10 then [digit n] else decimal (n div 10) @ [digit (n mod 10)])"

declare decimal.simps [simp del]

definition format_uint :: "u64 \<Rightarrow> string" where
  "format_uint n = decimal (unat n)"

definition format_int :: "64 word \<Rightarrow> string" where
  "format_int n = (if sint n < 0 then CHR ''-'' # decimal (nat (- sint n)) else decimal (nat (sint n)))"

definition undecimal :: "string \<Rightarrow> nat" where
  "undecimal s = foldl (\<lambda>a c. 10 * a + (of_char c - 48)) 0 s"

lemma undecimal_snoc: "undecimal (s @ [c]) = 10 * undecimal s + (of_char c - 48)"
  by (simp add: undecimal_def)

lemma of_char_digit: "d < 10 \<Longrightarrow> of_char (digit d) = 48 + d"
  by (simp add: digit_def)

lemma undecimal_decimal [simp]: "undecimal (decimal n) = n"
proof (induction n rule: decimal.induct)
  case (1 n)
  show ?case
  proof (cases "n < 10")
    case True
    then show ?thesis by (subst decimal.simps) (simp add: undecimal_def of_char_digit)
  next
    case False
    with 1 have "undecimal (decimal (n div 10)) = n div 10" by simp
    with False show ?thesis
      by (subst decimal.simps) (simp add: undecimal_snoc of_char_digit)
  qed
qed

lemma decimal_inject [simp]: "decimal m = decimal n \<longleftrightarrow> m = n"
  by (metis undecimal_decimal)

lemma format_uint_inject [simp]: "format_uint m = format_uint n \<longleftrightarrow> m = n"
  by (simp add: format_uint_def word_eq_iff_unsigned [where 'a = nat])

lemma decimal_not_Nil [simp]: "decimal n \<noteq> []"
  by (subst decimal.simps) simp

lemma format_uint_not_Nil [simp]: "format_uint n \<noteq> []"
  by (simp add: format_uint_def)

lemma format_int_eq_uint:
  assumes "0 \<le> sint n"
  shows "format_int n = format_uint n"
proof -
  have "sint n < 2 ^ 64"
    using sint_less [of n] by simp
  with assms have "uint n = sint n"
    by (simp add: uint_sint take_bit_int_eq_self)
  with assms show ?thesis
    by (simp add: format_int_def format_uint_def flip: unat_eq_nat_uint) (simp add: unat_eq_nat_uint)
qed

subsection \<open>How a statement ends\<close>

text \<open>
  A Go statement completes with a value, blocks its goroutine (a locked mutex, a full or an
  empty channel) or panics. The panics written out are the ones the source can reach: an index
  out of range, a send on or a close of a closed channel, an assignment to an entry of a nil
  map, a failed type assertion and an explicit \<open>log.Panicln\<close>.
\<close>

datatype panic = IndexOutOfRange | SendOnClosed | CloseOfClosed | NilMapWrite | BadAssertion
  | NilDereference | ExplicitPanic

datatype 'a outcome = Done 'a | Blocked | Panicked panic

fun and_then :: "'a outcome \<Rightarrow> ('a \<Rightarrow> 'b outcome) \<Rightarrow> 'b outcome" where
  "and_then (Done x) f = f x"
| "and_then Blocked f = Blocked"
| "and_then (Panicked p) f = Panicked p"

lemma and_then_Done [outcome_simps]:
  "and_then r f = Done y \<longleftrightarrow> (\<exists>x. r = Done x \<and> f x = Done y)"
  by (cases r) simp_all

lemma and_then_assoc: "and_then (and_then r f) g = and_then r (\<lambda>x. and_then (f x) g)"
  by (cases r) simp_all

lemma and_then_Panicked [outcome_simps]:
  "and_then r f = Panicked p \<longleftrightarrow> r = Panicked p \<or> (\<exists>x. r = Done x \<and> f x = Panicked p)"
  by (cases r) auto

end
