(* ===== verification/Wire.thy ===== *)
theory Wire imports Prelude begin

text \<open>
  The wire format both router connections speak (\<open>socket/conn_helpers.go\<close> and its copy
  \<open>messages/conn_helpers.go\<close>): an operation is one op byte, a big-endian 32-bit size and a
  body, the body being string parameters joined by a colon and an optional payload.
  \<open>package_op\<close> writes an operation, \<open>byte_to_params_and_payload\<close> takes a body apart.
  The lemmas compare its scanning loop with a structural splitter and give the round trips.
\<close>

definition DEFAULT_SPLIT_CHAR :: string where
  "DEFAULT_SPLIT_CHAR = '':''"

definition DEFAULT_DELIM :: byte where
  "DEFAULT_DELIM = byte_of_char (hd DEFAULT_SPLIT_CHAR)"

datatype parse_error = UnexpectedPayload | ExpectedLess | ExpectedMore

type_synonym parsed = "string list \<times> bytes \<times> parse_error option"

subsection \<open>Taking a body apart\<close>

text \<open>The loop over \<open>i\<close> with the byte counter \<open>n\<close> and the start of the current parameter,
  \<open>last_delim_i\<close>.\<close>

function parse_loop ::
  "bytes \<Rightarrow> byte \<Rightarrow> bool \<Rightarrow> nat \<Rightarrow> byte \<Rightarrow> nat \<Rightarrow> string list \<Rightarrow> parsed" where
  "parse_loop b n_param payload_exists i n last_delim_i param =
     (if i < length b then
        if n = n_param - 1 \<and> \<not> payload_exists
        then (param[unat n := to_str (drop last_delim_i b)], [], None)
        else if b ! i = DEFAULT_DELIM then
          let param' = param[unat n := to_str (drop last_delim_i (take i b))];
              last' = i + 1;
              n' = n + 1
          in if n' = n_param then
               if payload_exists then (param', drop last' b, None)
               else if i = length b - 1 then (param', [], None)
               else (param', [], Some ExpectedLess)
             else parse_loop b n_param payload_exists (i + 1) n' last' param'
        else parse_loop b n_param payload_exists (i + 1) n last_delim_i param
      else (param, [], Some ExpectedMore))"
  by pat_completeness auto
termination
  by (relation "measure (\<lambda>(b, _, _, i, _). length b - i)") auto

declare parse_loop.simps [simp del]

definition byte_to_params_and_payload :: "bytes \<Rightarrow> byte \<Rightarrow> bool \<Rightarrow> parsed" where
  "byte_to_params_and_payload b n_param payload_exists =
     (let param = replicate (unat n_param) [] in
      if n_param = 0 then
        if payload_exists then (param, b, None)
        else if length b > 1 \<or> (length b = 1 \<and> b ! 0 \<noteq> DEFAULT_DELIM)
        then (param, [], Some UnexpectedPayload)
        else (param, [], None)
      else parse_loop b n_param payload_exists 0 0 0 param)"

subsection \<open>Packaging an operation\<close>

text \<open>The parameters and the payload are slices that may be nil; the delimiter between
  them is written when neither is nil.\<close>

definition op_body :: "string slice \<Rightarrow> byte slice \<Rightarrow> bytes" where
  "op_body params payload =
     to_bytes (join DEFAULT_SPLIT_CHAR (elems params))
     @ (if params \<noteq> None \<and> payload \<noteq> None then [DEFAULT_DELIM] else [])
     @ elems payload"

definition package_op :: "byte \<Rightarrow> string slice \<Rightarrow> byte slice \<Rightarrow> bytes" where
  "package_op op params payload =
     (let b_param = to_bytes (join DEFAULT_SPLIT_CHAR (elems params));
          b_param' = (if params \<noteq> None \<and> payload \<noteq> None then b_param @ [DEFAULT_DELIM] else b_param);
          size = length b_param' + length (elems payload)
      in [op] @ put_u32 (word_of_nat size) @ b_param' @ elems payload)"

lemma package_op_eq:
  "package_op op params payload
     = op # put_u32 (word_of_nat (length (op_body params payload))) @ op_body params payload"
  by (simp add: package_op_def op_body_def Let_def add.assoc add.commute add.left_commute)

lemma length_package_op:
  "length (package_op op params payload) = 5 + length (op_body params payload)"
  by (simp add: package_op_eq)

subsection \<open>The structural splitter\<close>

text \<open>\<open>split_fields k b\<close> reads \<open>k\<close> delimited fields and returns them with what follows.\<close>

fun split_field :: "bytes \<Rightarrow> (bytes \<times> bytes) option" where
  "split_field [] = None"
| "split_field (x # xs) =
     (if x = DEFAULT_DELIM then Some ([], xs)
      else map_option (\<lambda>(f, r). (x # f, r)) (split_field xs))"

fun split_fields :: "nat \<Rightarrow> bytes \<Rightarrow> (string list \<times> bytes) option" where
  "split_fields 0 b = Some ([], b)"
| "split_fields (Suc k) b =
     (case split_field b of None \<Rightarrow> None
      | Some (f, r) \<Rightarrow> map_option (\<lambda>(fs, r'). (to_str f # fs, r')) (split_fields k r))"

lemma split_field_Some:
  "split_field b = Some (f, r) \<longleftrightarrow> b = f @ DEFAULT_DELIM # r \<and> DEFAULT_DELIM \<notin> set f"
  by (induction b arbitrary: f r) (auto simp: Cons_eq_append_conv)

lemma split_field_None: "split_field b = None \<longleftrightarrow> DEFAULT_DELIM \<notin> set b"
  by (induction b) auto

lemma length_split_fields: "split_fields k b = Some (fs, r) \<Longrightarrow> length fs = k"
  by (induction k b arbitrary: fs r rule: split_fields.induct) (auto split: option.splits)

subsection \<open>The loop agrees with the splitter\<close>

text \<open>Bytes that are no delimiter are skipped, up to the next delimiter or the end.\<close>

lemma parse_loop_skip:
  assumes "DEFAULT_DELIM \<notin> set f" and "b = pre @ f @ rest" and "n \<noteq> n_param - 1 \<or> payload_exists"
  shows "parse_loop b n_param payload_exists (length pre) n l param
       = parse_loop b n_param payload_exists (length pre + length f) n l param"
  using assms
proof (induction f arbitrary: pre)
  case Nil
  then show ?case by simp
next
  case (Cons x f)
  have "parse_loop b n_param payload_exists (length pre) n l param
      = parse_loop b n_param payload_exists (length (pre @ [x])) n l param"
    using Cons.prems by (subst parse_loop.simps) (auto simp: nth_append)
  also have "\<dots> = parse_loop b n_param payload_exists (length (pre @ [x]) + length f) n l param"
    using Cons.prems by (intro Cons.IH) auto
  finally show ?case by simp
qed

lemma parse_loop_end: "parse_loop b n_param pe (length b) n l param = (param, [], Some ExpectedMore)"
  by (subst parse_loop.simps) simp

text \<open>Without a payload the last parameter is the whole rest, once a byte of it is there.\<close>

lemma parse_loop_last:
  assumes "b = pre @ s" and "s \<noteq> []" and "n = n_param - 1"
  shows "parse_loop b n_param False (length pre) n (length pre) param
    = (param[unat n := to_str s], [], None)"
  using assms by (subst parse_loop.simps) simp

text \<open>One field: the loop, started at the beginning of a field, either runs off the end or
  stores the field and goes on behind its delimiter.\<close>

lemma parse_loop_field:
  assumes b: "b = pre @ s" and n: "n \<noteq> n_param - 1 \<or> payload_exists"
  shows "parse_loop b n_param payload_exists (length pre) n (length pre) param =
    (case split_field s of
       None \<Rightarrow> (param, [], Some ExpectedMore)
     | Some (f, r) \<Rightarrow>
         let param' = param[unat n := to_str f] in
         if n + 1 = n_param then (param', r, None)
         else parse_loop b n_param payload_exists (length pre + length f + 1) (n + 1)
                (length pre + length f + 1) param')"
proof (cases "split_field s")
  case None
  then have "DEFAULT_DELIM \<notin> set s" by (simp add: split_field_None)
  from parse_loop_skip [OF this _ n, where rest = "[]"] b None show ?thesis
    using parse_loop_end by simp (metis length_append)
next
  case (Some fr)
  obtain f r where fr: "fr = (f, r)" by (cases fr)
  with Some have s: "s = f @ DEFAULT_DELIM # r" and f: "DEFAULT_DELIM \<notin> set f"
    by (simp_all add: split_field_Some)
  have n': "n + 1 = n_param \<Longrightarrow> payload_exists" using n by auto
  have "parse_loop b n_param payload_exists (length pre) n (length pre) param
      = parse_loop b n_param payload_exists (length pre + length f) n (length pre) param"
    using parse_loop_skip [OF f _ n] b s by blast
  then show ?thesis
    using b s n n' Some fr by (subst (asm) (2) parse_loop.simps) (auto simp: nth_append Let_def)
qed

text \<open>What a body parses to, stated on the splitter: with a payload, \<open>k\<close> delimited fields
  and the rest; without one, \<open>k - 1\<close> delimited fields and a last parameter that is the whole
  rest and must not be empty.\<close>

definition parse_spec :: "bytes \<Rightarrow> nat \<Rightarrow> bool \<Rightarrow> (string list \<times> bytes) option" where
  "parse_spec b k payload_exists =
     (if payload_exists then split_fields k b
      else case k of
        0 \<Rightarrow> if b = [] \<or> b = [DEFAULT_DELIM] then Some ([], []) else None
      | Suc j \<Rightarrow> (case split_fields j b of
           None \<Rightarrow> None
         | Some (fs, r) \<Rightarrow> if r = [] then None else Some (fs @ [to_str r], [])))"

lemma parse_spec_Suc:
  "0 < k \<Longrightarrow> parse_spec s (Suc k) pe =
     (case split_field s of None \<Rightarrow> None
      | Some (f, r) \<Rightarrow> map_option (\<lambda>(ps, pl). (to_str f # ps, pl)) (parse_spec r k pe))"
  by (cases k) (auto simp: parse_spec_def split: option.splits)

lemma parse_spec_one:
  "parse_spec s (Suc 0) True = (case split_field s of None \<Rightarrow> None | Some (f, r) \<Rightarrow> Some ([to_str f], r))"
  "parse_spec s (Suc 0) False = (if s = [] then None else Some ([to_str s], []))"
  by (auto simp: parse_spec_def split: option.splits)

lemma counter_step:
  fixes n :: byte
  assumes "unat n + Suc k = unat m"
  shows "unat (n + 1) = unat n + 1" and "n = m - 1 \<longleftrightarrow> k = 0" and "n + 1 = m \<longleftrightarrow> k = 0"
proof -
  have "unat m < 256" using unsigned_less [of m] by simp
  with assms show a: "unat (n + 1) = unat n + 1"
    by (simp add: unat_word_ariths)
  show b: "n + 1 = m \<longleftrightarrow> k = 0"
    using a assms by (auto simp: word_eq_iff_unsigned [where 'a = nat])
  show "n = m - 1 \<longleftrightarrow> k = 0"
    using b by (auto simp: eq_diff_eq)
qed

lemma take_list_update_snoc: "i < length xs \<Longrightarrow> take (Suc i) (xs[i := x]) = take i xs @ [x]"
  by (simp add: take_Suc_conv_app_nth)

lemma parse_loop_spec:
  assumes "b = pre @ s" and "unat n + Suc k = unat n_param" and "length param = unat n_param"
  shows "case parse_spec s (Suc k) pe of
      Some (ps, pl) \<Rightarrow>
        parse_loop b n_param pe (length pre) n (length pre) param = (take (unat n) param @ ps, pl, None)
    | None \<Rightarrow> \<exists>ps. parse_loop b n_param pe (length pre) n (length pre) param
               = (ps, [], Some ExpectedMore) \<and> length ps = unat n_param"
  using assms
proof (induction k arbitrary: pre s n param)
  case 0
  note step = counter_step [OF "0.prems"(2)]
  have upd: "param[unat n := x] = take (unat n) param @ [x]" for x
    using "0.prems"(2,3) take_list_update_snoc [of "unat n" param x] by simp
  show ?case
  proof (cases pe)
    case True
    then show ?thesis
      using parse_loop_field [OF "0.prems"(1), of n n_param pe param] step "0.prems"(3) upd
      by (auto simp: parse_spec_one Let_def split: option.splits)
  next
    case False
    then show ?thesis
      using "0.prems" step upd parse_loop_end [of b n_param pe n "length pre" param]
        parse_loop_last [OF "0.prems"(1), of n n_param param]
      by (cases "s = []") (simp_all add: parse_spec_one)
  qed
next
  case (Suc k)
  note step = counter_step [OF Suc.prems(2)]
  have field: "parse_loop b n_param pe (length pre) n (length pre) param =
    (case split_field s of
       None \<Rightarrow> (param, [], Some ExpectedMore)
     | Some (f, r) \<Rightarrow> parse_loop b n_param pe (length pre + length f + 1) (n + 1)
                (length pre + length f + 1) (param[unat n := to_str f]))"
    using parse_loop_field [OF Suc.prems(1), of n n_param pe param] step
    by (simp add: Let_def split: option.splits)
  show ?case
  proof (cases "split_field s")
    case None
    then show ?thesis using field Suc.prems(3) by (simp add: parse_spec_Suc)
  next
    case (Some fr)
    obtain f r where fr: "fr = (f, r)" by (cases fr)
    with Some have s: "s = f @ DEFAULT_DELIM # r" by (simp add: split_field_Some)
    have upd: "take (unat (n + 1)) (param[unat n := to_str f]) = take (unat n) param @ [to_str f]"
      using Suc.prems(2,3) step(1) by (simp add: take_list_update_snoc)
    show ?thesis
      using Suc.IH [of "pre @ f @ [DEFAULT_DELIM]" r "n + 1" "param[unat n := to_str f]"]
        Suc.prems step(1) field Some fr s upd
      by (auto simp: parse_spec_Suc add.assoc split: option.splits)
  qed
qed

lemma parse_body:
  "case parse_spec b (unat n_param) pe of
     Some (ps, pl) \<Rightarrow> byte_to_params_and_payload b n_param pe = (ps, pl, None)
   | None \<Rightarrow> \<exists>ps. byte_to_params_and_payload b n_param pe
            = (ps, [], Some (if n_param = 0 then UnexpectedPayload else ExpectedMore))
        \<and> length ps = unat n_param"
proof (cases "n_param = 0")
  case True
  then show ?thesis
    by (cases b) (auto simp: byte_to_params_and_payload_def parse_spec_def)
next
  case False
  then obtain k where k: "unat n_param = Suc k"
    using not0_implies_Suc by (metis unat_eq_0)
  have eq: "byte_to_params_and_payload b n_param pe
      = parse_loop b n_param pe (length ([] :: bytes)) 0 (length ([] :: bytes)) (replicate (unat n_param) [])"
    using False by (simp add: byte_to_params_and_payload_def)
  show ?thesis
    using parse_loop_spec [of b "[]" b 0 k n_param "replicate (unat n_param) []" pe] k False
    unfolding eq by (simp del: replicate_Suc split: option.splits prod.splits)
qed

text \<open>C6: parsing a body is total and exact. For every body, every expected number of parameters
  and both payload modes, \<open>byte_to_params_and_payload\<close> succeeds exactly when the body splits into
  the delimited fields it must have, returns those fields and the rest, and otherwise reports
  "unexpected payload" (no parameter expected) or "expected more parameters" with a parameter slice
  of the requested length; the "expected less parameters" branch of the source is never reached.\<close>

theorem byte_to_params_and_payload_exact:
  "case parse_spec b (unat n_param) pe of
     Some (ps, pl) \<Rightarrow> byte_to_params_and_payload b n_param pe = (ps, pl, None)
   | None \<Rightarrow>
       snd (byte_to_params_and_payload b n_param pe)
         = ([], Some (if n_param = 0 then UnexpectedPayload else ExpectedMore))
       \<and> length (fst (byte_to_params_and_payload b n_param pe)) = unat n_param"
  using parse_body [of b n_param pe] by (auto split: option.splits)

subsection \<open>Round trips\<close>

definition delim_free :: "string \<Rightarrow> bool" where
  "delim_free s = (CHR '':'' \<notin> set s)"

lemma delim_free_bytes: "delim_free s \<longleftrightarrow> DEFAULT_DELIM \<notin> set (to_bytes s)"
  by (simp add: delim_free_def DEFAULT_DELIM_def DEFAULT_SPLIT_CHAR_def set_to_bytes)

lemma to_bytes_sep: "to_bytes DEFAULT_SPLIT_CHAR = [DEFAULT_DELIM]"
  by (simp add: DEFAULT_DELIM_def DEFAULT_SPLIT_CHAR_def)

lemma split_field_append:
  "delim_free p \<Longrightarrow> split_field (to_bytes p @ DEFAULT_DELIM # r) = Some (to_bytes p, r)"
  by (simp add: split_field_Some delim_free_bytes)

lemma split_fields_join:
  assumes "ps \<noteq> []" and "list_all delim_free ps"
  shows "split_fields (length ps) (to_bytes (join DEFAULT_SPLIT_CHAR ps) @ DEFAULT_DELIM # r) = Some (ps, r)"
  using assms
proof (induction ps)
  case (Cons p ps)
  then show ?case
    by (cases "ps = []") (simp_all add: join_Cons to_bytes_sep split_field_append)
qed simp

lemma parse_op_body_payload:
  assumes "ps \<noteq> []" and "list_all delim_free ps"
  shows "parse_spec (op_body (Some ps) (Some pl)) (length ps) True = Some (ps, pl)"
  using split_fields_join [OF assms] by (simp add: parse_spec_def op_body_def)

lemma parse_op_body_no_payload:
  assumes "list_all delim_free ps" and "q \<noteq> []"
  shows "parse_spec (op_body (Some (ps @ [q])) None) (Suc (length ps)) False = Some (ps @ [q], [])"
proof (cases "ps = []")
  case True
  then show ?thesis using assms(2) by (simp add: parse_spec_def op_body_def)
next
  case False
  then show ?thesis
    using split_fields_join [OF False assms(1), of "to_bytes q"] assms(2)
    by (simp add: parse_spec_def op_body_def join_snoc to_bytes_sep)
qed

lemma parse_two:
  assumes "delim_free p" and "q \<noteq> []"
  shows "byte_to_params_and_payload (op_body (Some [p, q]) None) 2 False = ([p, q], [], None)"
proof -
  have two: "unat (2 :: byte) = Suc (Suc 0)" by simp
  show ?thesis
    using parse_body [of "op_body (Some [p, q]) None" 2 False] parse_op_body_no_payload [of "[p]" q] assms
    by (simp only: two) simp
qed

lemma unat_length_byte: "length xs \<le> 255 \<Longrightarrow> unat (word_of_nat (length xs) :: byte) = length xs"
  by (simp add: unsigned_of_nat take_bit_nat_eq_self)

text \<open>What \<open>package_op\<close> writes with parameters and a payload is read back unchanged by
  \<open>byte_to_params_and_payload\<close>, whatever bytes the payload holds, provided there is at least one
  parameter, at most 255, and none contains the delimiter.\<close>

theorem package_parse_payload:
  assumes "ps \<noteq> []" and "length ps \<le> 255" and "list_all delim_free ps"
  shows "byte_to_params_and_payload (drop 5 (package_op op (Some ps) (Some pl)))
           (word_of_nat (length ps)) True = (ps, pl, None)"
  using parse_body [of "op_body (Some ps) (Some pl)" "word_of_nat (length ps)" True]
    parse_op_body_payload [OF assms(1,3)] assms(2)
  by (simp add: package_op_eq unat_length_byte put_u32_def)

theorem package_parse_payload_witness:
  "byte_to_params_and_payload (drop 5 (package_op 30 (Some [''SOCK_a'', ''WS1'', ''1'']) (Some [58, 58, 0])))
     3 True = ([''SOCK_a'', ''WS1'', ''1''], [58, 58, 0], None)"
  using package_parse_payload [of "[''SOCK_a'', ''WS1'', ''1'']" 30 "[58, 58, 0]"]
  by (simp add: delim_free_def)

text \<open>What \<open>package_op\<close> writes with parameters and a nil payload is read back unchanged when
  only the last parameter may contain the delimiter and the last parameter is not empty. When it is
  empty, the reader refuses the operation the writer produced.\<close>

theorem package_parse_no_payload:
  assumes "length ps < 255" and "list_all delim_free ps"
  shows "byte_to_params_and_payload (drop 5 (package_op op (Some (ps @ [q])) None))
           (word_of_nat (Suc (length ps))) False =
         (if q = [] then (fst (byte_to_params_and_payload (drop 5 (package_op op (Some (ps @ [q])) None))
             (word_of_nat (Suc (length ps))) False), [], Some ExpectedMore)
          else (ps @ [q], [], None))"
proof -
  let ?b = "op_body (Some (ps @ [q])) None"
  have n: "unat (word_of_nat (Suc (length ps)) :: byte) = Suc (length ps)"
    using unat_length_byte [of "ps @ [q]"] assms(1) by simp
  then have n0: "(word_of_nat (Suc (length ps)) :: byte) \<noteq> 0"
    by (metis nat.distinct(1) unat_0)
  have "q = [] \<Longrightarrow> parse_spec ?b (Suc (length ps)) False = None"
    using split_fields_join [OF _ assms(2), of "[]"]
    by (cases "ps = []") (simp_all add: parse_spec_def op_body_def join_snoc to_bytes_sep)
  then show ?thesis
    using parse_body [of ?b "word_of_nat (Suc (length ps))" False] n n0
      parse_op_body_no_payload [OF assms(2), of q]
    by (cases "q = []") (auto simp: package_op_eq put_u32_def)
qed

theorem package_parse_no_payload_witness:
  "byte_to_params_and_payload (drop 5 (package_op 2 (Some [''SOCK_main'', ''a:b'']) None)) 2 False
     = ([''SOCK_main'', ''a:b''], [], None)"
  using package_parse_no_payload [of "[''SOCK_main'']" 2 "''a:b''"]
  by (simp add: delim_free_def)

end
