(* ===== verification/Stream.thy ===== *)
theory Stream imports Wire begin

text \<open>
  The byte stream of a router connection: \<open>read_tcp\<close> (\<open>socket/socket_client.go\<close>) cuts it into
  operations with \<open>io.ReadFull\<close> on a 5-byte header and on a body of the announced size. The
  interface \<open>framing\<close> states what a reader needs of any such format; \<open>package_op\<close> and
  \<open>read_frame\<close> provide it.
\<close>

subsection \<open>Cutting a stream into messages\<close>

text \<open>Reading until the stream has no complete message left; the fuel bounds the number of
  messages, and the length of the stream is always enough.\<close>

fun drain :: "nat \<Rightarrow> (bytes \<Rightarrow> ('m \<times> bytes) option) \<Rightarrow> bytes \<Rightarrow> 'm list \<times> bytes" where
  "drain 0 unpack bs = ([], bs)"
| "drain (Suc fuel) unpack bs =
     (case unpack bs of
        None \<Rightarrow> ([], bs)
      | Some (m, rest) \<Rightarrow> (case drain fuel unpack rest of (ms, r) \<Rightarrow> (m # ms, r)))"

locale framing =
  fixes pack :: "'m \<Rightarrow> bytes"
    and unpack :: "bytes \<Rightarrow> ('m \<times> bytes) option"
    and wf :: "'m \<Rightarrow> bool"
  assumes unpack_pack: "wf m \<Longrightarrow> unpack (pack m @ rest) = Some (m, rest)"
    and unpack_cut: "wf m \<Longrightarrow> k < length (pack m) \<Longrightarrow> unpack (take k (pack m)) = None"
    and unpack_consumes: "unpack bs = Some (m, rest) \<Longrightarrow> length rest < length bs"
begin

lemma unpack_Nil: "wf m \<Longrightarrow> pack m \<noteq> []"
  using unpack_pack [of m "[]"] unpack_consumes [of "pack m"] by fastforce

lemma drain_enough:
  "length bs \<le> f \<Longrightarrow> length bs \<le> g \<Longrightarrow> drain f unpack bs = drain g unpack bs"
proof (induction f arbitrary: bs g)
  case 0
  then have "unpack bs = None" using unpack_consumes by (cases "unpack bs") fastforce+
  with 0 show ?case by (cases g) simp_all
next
  case (Suc f)
  show ?case
  proof (cases "unpack bs")
    case None
    then show ?thesis by (cases g) simp_all
  next
    case (Some mr)
    obtain m r where mr: "mr = (m, r)" by (cases mr)
    with Some have less: "length r < length bs" using unpack_consumes by simp
    then obtain g' where "g = Suc g'" using Suc.prems by (cases g) auto
    with Suc.IH [of r g'] Suc.prems less Some mr show ?thesis by simp
  qed
qed

lemma drain_pack:
  assumes "wf m" and "length (pack m @ rest) \<le> fuel"
  shows "drain fuel unpack (pack m @ rest)
    = (case drain fuel unpack rest of (ms, r) \<Rightarrow> (m # ms, r))"
proof -
  obtain f where f: "fuel = Suc f"
    using assms unpack_Nil by (cases fuel) auto
  have "length rest < length (pack m @ rest)"
    using unpack_consumes unpack_pack [OF assms(1)] by blast
  moreover have "pack m \<noteq> []" using assms(1) by (rule unpack_Nil)
  then have "0 < length (pack m)" by simp
  ultimately have "drain f unpack rest = drain fuel unpack rest"
    using assms(2) f by (intro drain_enough; simp; linarith)
  then show ?thesis using unpack_pack [OF assms(1)] by (simp add: f)
qed

text \<open>A stream of whole messages is cut into exactly these messages.\<close>

lemma drain_concat:
  "list_all wf ms \<Longrightarrow> length (concat (map pack ms)) \<le> fuel
     \<Longrightarrow> drain fuel unpack (concat (map pack ms)) = (ms, [])"
proof (induction ms)
  case Nil
  have "unpack [] = None" using unpack_consumes [of "[]"] by (cases "unpack []") auto
  then show ?case by (cases fuel) simp_all
next
  case (Cons m ms)
  then show ?case using drain_pack [of m "concat (map pack ms)" fuel] by simp
qed

lemma drain_concat_cut:
  "list_all wf ms \<Longrightarrow> wf m \<Longrightarrow> k < length (pack m)
     \<Longrightarrow> length (concat (map pack ms) @ take k (pack m)) \<le> fuel
     \<Longrightarrow> drain fuel unpack (concat (map pack ms) @ take k (pack m)) = (ms, take k (pack m))"
proof (induction ms)
  case Nil
  then show ?case using unpack_cut by (cases fuel) simp_all
next
  case (Cons m' ms)
  then show ?case using drain_pack [of m' "concat (map pack ms) @ take k (pack m)" fuel] by simp
qed

text \<open>A stream that breaks anywhere yields a prefix of the messages: never a wrong one.\<close>

lemma drain_prefix:
  "list_all wf ms \<Longrightarrow> length (concat (map pack ms)) \<le> fuel
     \<Longrightarrow> \<exists>n\<le>length ms. fst (drain fuel unpack (take k (concat (map pack ms)))) = take n ms"
proof (induction ms arbitrary: k)
  case Nil
  then show ?case using drain_concat [of "[]" fuel] by simp
next
  case (Cons m ms)
  show ?case
  proof (cases "k < length (pack m)")
    case True
    then have "unpack (take k (concat (map pack (m # ms)))) = None"
      using unpack_cut [of m k] Cons.prems by simp
    then have "fst (drain fuel unpack (take k (concat (map pack (m # ms))))) = take 0 (m # ms)"
      by (cases fuel) simp_all
    then show ?thesis by blast
  next
    case False
    let ?rest = "take (k - length (pack m)) (concat (map pack ms))"
    from Cons obtain n where "n \<le> length ms" "fst (drain fuel unpack ?rest) = take n ms"
      by fastforce
    moreover have "drain fuel unpack (pack m @ ?rest)
        = (case drain fuel unpack ?rest of (ms, r) \<Rightarrow> (m # ms, r))"
      using Cons.prems by (intro drain_pack) auto
    ultimately have "Suc n \<le> length (m # ms)"
      and "fst (drain fuel unpack (take k (concat (map pack (m # ms))))) = take (Suc n) (m # ms)"
      using False by (simp_all split: prod.splits)
    then show ?thesis by blast
  qed
qed

end

subsection \<open>The reader of the router connection\<close>

text \<open>\<open>read_tcp\<close>'s two calls of \<open>io.ReadFull\<close>: \<open>None\<close> is their error, met when the stream ends
  inside the header or inside the body.\<close>

definition read_frame :: "bytes \<Rightarrow> ((byte \<times> bytes) \<times> bytes) option" where
  "read_frame bs =
     (if length bs < 5 then None
      else let op = hd bs;
               size = unat (get_u32 (take 4 (drop 1 bs)));
               rest = drop 5 bs
           in if size > 0
              then (if length rest < size then None
                    else Some ((op, take size rest), drop size rest))
              else Some ((op, []), rest))"

definition frame :: "byte \<times> bytes \<Rightarrow> bytes" where
  "frame m = fst m # put_u32 (word_of_nat (length (snd m))) @ snd m"

definition fits_u32 :: "byte \<times> bytes \<Rightarrow> bool" where
  "fits_u32 m = (length (snd m) < 2 ^ 32)"

lemma package_op_frame: "package_op op params payload = frame (op, op_body params payload)"
  by (simp add: package_op_eq frame_def)

lemma length_frame: "length (frame m) = 5 + length (snd m)"
  by (simp add: frame_def)

lemma frame_size:
  assumes "fits_u32 m" and "5 \<le> k"
  shows "unat (get_u32 (take 4 (drop 1 (take k (frame m @ rest))))) = length (snd m)"
proof -
  have "take 4 (drop 1 (take k (frame m @ rest))) = put_u32 (word_of_nat (length (snd m)))"
    using assms(2) by (simp add: frame_def put_u32_def take_Cons' numeral_eq_Suc)
  with assms(1) show ?thesis
    by (simp add: fits_u32_def unsigned_of_nat take_bit_nat_eq_self)
qed

lemma read_frame_frame:
  assumes "fits_u32 m"
  shows "read_frame (frame m @ rest) = Some (m, rest)"
  using frame_size [OF assms, of "length (frame m @ rest)" rest]
  by (cases m) (auto simp: read_frame_def length_frame Let_def, simp_all add: frame_def)

lemma read_frame_cut:
  assumes "fits_u32 m" and "k < length (frame m)"
  shows "read_frame (take k (frame m)) = None"
  using frame_size [OF assms(1), of k "[]"] assms(2)
  by (auto simp: read_frame_def length_frame Let_def)

lemma read_frame_consumes: "read_frame bs = Some (m, rest) \<Longrightarrow> length rest < length bs"
  by (auto simp: read_frame_def Let_def split: if_splits)

interpretation router_frames: framing frame read_frame fits_u32
  by unfold_locales (fact read_frame_frame read_frame_cut read_frame_consumes)+

text \<open>All the operations \<open>read_tcp\<close> takes from a stream before \<open>io.ReadFull\<close> fails, and the
  bytes that are left then.\<close>

definition read_ops :: "bytes \<Rightarrow> (byte \<times> bytes) list \<times> bytes" where
  "read_ops bs = drain (length bs) read_frame bs"

definition write_ops :: "(byte \<times> string slice \<times> byte slice) list \<Rightarrow> bytes" where
  "write_ops ops = concat (map (\<lambda>(op, params, payload). package_op op params payload) ops)"

definition op_bodies :: "(byte \<times> string slice \<times> byte slice) list \<Rightarrow> (byte \<times> bytes) list" where
  "op_bodies ops = map (\<lambda>(op, params, payload). (op, op_body params payload)) ops"

lemma write_ops_frames: "write_ops ops = concat (map frame (op_bodies ops))"
  by (induction ops) (auto simp: write_ops_def op_bodies_def package_op_frame)

text \<open>C26: the stream reader recovers what was written. Whatever operations \<open>package_op\<close> writes one
  after the other (each below 4 GiB), \<open>read_tcp\<close> reads exactly the op bytes and the bodies of these
  operations, in order, and the incomplete operation that may follow them stays in the stream.\<close>

theorem read_ops_write_ops:
  assumes "list_all fits_u32 (op_bodies ops)" and "fits_u32 m" and "k < length (frame m)"
  shows "read_ops (write_ops ops @ take k (frame m)) = (op_bodies ops, take k (frame m))"
  using router_frames.drain_concat_cut [OF assms le_refl]
  by (simp_all add: read_ops_def write_ops_frames)

theorem read_ops_write_ops_witness:
  "read_ops (write_ops [(22, Some [''u'', ''s''], None), (100, None, Some [7])] @ take 6 (frame (1, [5, 6])))
   = ([(22, to_bytes ''u:s''), (100, [7])], take 6 (frame (1, [5, 6])))"
  using read_ops_write_ops [of "[(22, Some [''u'', ''s''], None), (100, None, Some [7])]" "(1, [5, 6])" 6]
  by (simp add: op_body_def op_bodies_def fits_u32_def length_frame DEFAULT_SPLIT_CHAR_def)

text \<open>A stream that breaks at any byte yields a prefix of the operations written: a partial
  header or body is never taken for an operation.\<close>

theorem read_ops_broken_stream:
  assumes "list_all fits_u32 ops"
  shows "\<exists>n\<le>length ops. fst (read_ops (take k (concat (map frame ops)))) = take n ops"
proof -
  let ?s = "concat (map frame ops)"
  have "drain (length (take k ?s)) read_frame (take k ?s) = drain (length ?s) read_frame (take k ?s)"
    by (rule router_frames.drain_enough) simp_all
  then show ?thesis
    using router_frames.drain_prefix [OF assms le_refl, of k] by (simp add: read_ops_def)
qed

theorem read_ops_broken_stream_witness:
  "\<exists>n\<le>length [(1 :: byte, [5, 6 :: byte]), (50, [58, 1])].
     fst (read_ops (take 9 (concat (map frame [(1, [5, 6]), (50, [58, 1])])))) = take n [(1, [5, 6]), (50, [58, 1])]"
  by (rule read_ops_broken_stream) (simp add: fits_u32_def)

end
