(* ===== verification/Heartbeat.thy ===== *)
theory Heartbeat imports Stream begin

text \<open>
  The heartbeat of a router connection (\<open>heartbeat_worker\<close> and \<open>heartbeat_check\<close> of
  \<open>socket/socket_client.go\<close> and \<open>messages/api_client.go\<close>). The worker sends a version byte, the
  time the next beat is due and (socket server only) the number of messages received; the
  checker compares the versions that come back with its own and is woken by one timer per beat.
  Both version counters are bytes and wrap around.
\<close>

subsection \<open>The worker\<close>

definition HEARTBEAT_INTERVAL :: u64 where
  "HEARTBEAT_INTERVAL = 10 * 1000000000"

text \<open>One turn of the worker's loop: the bytes written for version \<open>ver\<close> at time \<open>now\<close>
  (nanoseconds), and the version of the next turn. The array is filled at the source's offsets.\<close>

definition heartbeat_write :: "byte \<Rightarrow> u64 \<Rightarrow> u32 \<Rightarrow> bytes" where
  "heartbeat_write heartbeat_ver now received =
     (let expected = now + HEARTBEAT_INTERVAL in
      [1, 0, 0, 0, 13] @ [heartbeat_ver] @ put_u64 expected @ put_u32 received)"

definition api_heartbeat_write :: "byte \<Rightarrow> u64 \<Rightarrow> bytes" where
  "api_heartbeat_write heartbeat_ver now =
     (let expected = now + HEARTBEAT_INTERVAL in
      [1, 0, 0, 0, 9] @ [heartbeat_ver] @ put_u64 expected)"

text \<open>The loop over its turns: the time, the count and whether the write succeeds. It returns the
  beats written, the versions a timer was started for, and whether it ended with a connection
  error (\<open>handle_conn_err\<close>).\<close>

fun worker_run :: "byte \<Rightarrow> (u64 \<times> u32 \<times> bool) list \<Rightarrow> bytes list \<times> byte list \<times> bool" where
  "worker_run heartbeat_ver [] = ([], [], False)"
| "worker_run heartbeat_ver ((now, received, ok) # turns) =
     (if \<not> ok then ([], [], True)
      else case worker_run (heartbeat_ver + 1) turns of
        (beats, timed, failed) \<Rightarrow>
          (heartbeat_write heartbeat_ver now received # beats, heartbeat_ver # timed, failed))"

fun api_worker_run :: "byte \<Rightarrow> (u64 \<times> bool) list \<Rightarrow> bytes list \<times> byte list \<times> bool" where
  "api_worker_run heartbeat_ver [] = ([], [], False)"
| "api_worker_run heartbeat_ver ((now, ok) # turns) =
     (if \<not> ok then ([], [], True)
      else case api_worker_run (heartbeat_ver + 1) turns of
        (beats, timed, failed) \<Rightarrow>
          (api_heartbeat_write heartbeat_ver now # beats, heartbeat_ver # timed, failed))"

subsection \<open>The checker\<close>

text \<open>What its \<open>select\<close> can receive: a beat's body, the closing of the beat channel, the timer of
  a version.\<close>

datatype hb_event = Beat bytes | BeatClosed | Timer byte

datatype hb_state = Checking byte | Quit | Mismatch | Timeout

fun heartbeat_check :: "byte \<Rightarrow> hb_event list \<Rightarrow> hb_state outcome" where
  "heartbeat_check heartbeat_ver [] = Done (Checking heartbeat_ver)"
| "heartbeat_check heartbeat_ver (BeatClosed # es) = Done Quit"
| "heartbeat_check heartbeat_ver (Beat b # es) =
     (case b of
        [] \<Rightarrow> Panicked IndexOutOfRange
      | v # _ \<Rightarrow> if v \<noteq> heartbeat_ver then Done Mismatch
                 else heartbeat_check (heartbeat_ver + 1) es)"
| "heartbeat_check heartbeat_ver (Timer ver # es) =
     (if ver = heartbeat_ver then Done Timeout else heartbeat_check heartbeat_ver es)"

text \<open>The API server's checker also reads the count of received messages from the beat.\<close>

fun api_heartbeat_check :: "byte \<Rightarrow> hb_event list \<Rightarrow> hb_state outcome" where
  "api_heartbeat_check heartbeat_ver [] = Done (Checking heartbeat_ver)"
| "api_heartbeat_check heartbeat_ver (BeatClosed # es) = Done Quit"
| "api_heartbeat_check heartbeat_ver (Beat b # es) =
     (case b of
        [] \<Rightarrow> Panicked IndexOutOfRange
      | v # _ \<Rightarrow> if v \<noteq> heartbeat_ver then Done Mismatch
                 else if length b < 5 then Panicked IndexOutOfRange
                 else api_heartbeat_check (heartbeat_ver + 1) es)"
| "api_heartbeat_check heartbeat_ver (Timer ver # es) =
     (if ver = heartbeat_ver then Done Timeout else api_heartbeat_check heartbeat_ver es)"

subsection \<open>The contract both checkers keep\<close>

text \<open>The version of the \<open>n\<close>-th beat, counted from 0.\<close>

definition version :: "nat \<Rightarrow> byte" where
  "version n = 1 + word_of_nat n"

lemma version_Suc: "version (Suc n) = version n + 1"
  by (simp add: version_def)

lemma version_eq_iff: "version m = version n \<longleftrightarrow> m mod 256 = n mod 256"
  by (simp add: version_def word_of_nat_eq_iff take_bit_eq_mod)

text \<open>Events on numbered beats: the answer to the next beat, with what follows its version, and
  the timer of beat \<open>k\<close>.\<close>

datatype beat_event = Answer bytes | TimerOf nat

fun hb_events :: "nat \<Rightarrow> beat_event list \<Rightarrow> hb_event list" where
  "hb_events n [] = []"
| "hb_events n (Answer rest # es) = Beat (version n # rest) # hb_events (Suc n) es"
| "hb_events n (TimerOf k # es) = Timer (version k) # hb_events n es"

text \<open>Every timer fires for a beat that was answered already, and not more than 255 beats ago.\<close>

fun on_time :: "(bytes \<Rightarrow> bool) \<Rightarrow> nat \<Rightarrow> beat_event list \<Rightarrow> bool" where
  "on_time good n [] = True"
| "on_time good n (Answer rest # es) = (good rest \<and> on_time good (Suc n) es)"
| "on_time good n (TimerOf k # es) = (k < n \<and> n - k < 256 \<and> on_time good n es)"

fun answers :: "beat_event list \<Rightarrow> nat" where
  "answers [] = 0"
| "answers (Answer _ # es) = Suc (answers es)"
| "answers (TimerOf _ # es) = answers es"

locale beat_checker =
  fixes check :: "byte \<Rightarrow> hb_event list \<Rightarrow> hb_state outcome"
    and good :: "bytes \<Rightarrow> bool"
  assumes waiting: "check v [] = Done (Checking v)"
    and answered: "good rest \<Longrightarrow> check v (Beat (v # rest) # es) = check (v + 1) es"
    and mismatch: "u \<noteq> v \<Longrightarrow> check v (Beat (u # rest) # es) = Done Mismatch"
    and late_timer: "u \<noteq> v \<Longrightarrow> check v (Timer u # es) = check v es"
    and due_timer: "check v (Timer v # es) = Done Timeout"
begin

lemma other_version: "k < n \<Longrightarrow> n - k < 256 \<Longrightarrow> version k \<noteq> version n"
proof -
  assume *: "k < n" "n - k < 256"
  have "n mod 256 = k mod 256 \<Longrightarrow> 256 dvd n - k" using *(1) by (simp add: mod_eq_dvd_iff_nat)
  then show ?thesis using * dvd_imp_le [of 256 "n - k"] by (fastforce simp: version_eq_iff)
qed

lemma on_time_run:
  "on_time good n es \<Longrightarrow> check (version n) (hb_events n es @ fs) = check (version (n + answers es)) (hb_events (n + answers es) [] @ fs)"
  by (induction n es rule: hb_events.induct)
    (auto simp: answered late_timer other_version simp flip: version_Suc)

lemma on_time_waits: "on_time good n es \<Longrightarrow> check (version n) (hb_events n es) = Done (Checking (version (n + answers es)))"
  using on_time_run [of n es "[]"] by (simp add: waiting)

lemma timer_after_on_time:
  assumes "on_time good n es" and "k \<le> n + answers es"
  shows "check (version n) (hb_events n es @ [Timer (version k)])
    = Done (if 256 dvd n + answers es - k then Timeout else Checking (version (n + answers es)))"
proof -
  let ?m = "n + answers es"
  have "version k = version ?m \<longleftrightarrow> 256 dvd ?m - k"
    using assms(2) by (auto simp: version_eq_iff mod_eq_dvd_iff_nat eq_commute [of "k mod 256"])
  then show ?thesis
    using on_time_run [OF assms(1), of "[Timer (version k)]"] due_timer [of "version ?m" "[]"]
      late_timer [of "version k" "version ?m" "[]"] waiting by (cases "256 dvd ?m - k") auto
qed

end

interpretation socket_checker: beat_checker heartbeat_check "\<lambda>_. True"
  by unfold_locales auto

interpretation api_checker: beat_checker api_heartbeat_check "\<lambda>rest. 4 \<le> length rest"
  by unfold_locales auto

subsection \<open>Properties\<close>

lemma heartbeat_write_frame:
  "heartbeat_write v now n = frame (1, v # put_u64 (now + HEARTBEAT_INTERVAL) @ put_u32 n)"
  "api_heartbeat_write v now = frame (1, v # put_u64 (now + HEARTBEAT_INTERVAL))"
  by (simp_all add: heartbeat_write_def api_heartbeat_write_def frame_def Let_def)
    (simp_all add: put_u32_def)

text \<open>The operations the peer should see: one per successful turn, with consecutive versions.\<close>

fun beat_ops :: "nat \<Rightarrow> (u64 \<times> u32 \<times> bool) list \<Rightarrow> (byte \<times> bytes) list" where
  "beat_ops n [] = []"
| "beat_ops n ((now, received, ok) # turns) =
     (if ok then (1, version n # put_u64 (now + HEARTBEAT_INTERVAL) @ put_u32 received) # beat_ops (Suc n) turns
      else [])"

fun api_beat_ops :: "nat \<Rightarrow> (u64 \<times> bool) list \<Rightarrow> (byte \<times> bytes) list" where
  "api_beat_ops n [] = []"
| "api_beat_ops n ((now, ok) # turns) =
     (if ok then (1, version n # put_u64 (now + HEARTBEAT_INTERVAL)) # api_beat_ops (Suc n) turns else [])"

lemma worker_run_ops:
  "fst (worker_run (version n) turns) = map frame (beat_ops n turns)"
  "fst (snd (worker_run (version n) turns)) = map (\<lambda>op. hd (snd op)) (beat_ops n turns)"
  "list_all fits_u32 (beat_ops n turns)"
  by (induction n turns rule: beat_ops.induct)
    (simp_all add: heartbeat_write_frame fits_u32_def case_prod_beta flip: version_Suc)

lemma api_worker_run_ops:
  "fst (api_worker_run (version n) turns) = map frame (api_beat_ops n turns)"
  "list_all fits_u32 (api_beat_ops n turns)"
  by (induction n turns rule: api_beat_ops.induct)
    (simp_all add: heartbeat_write_frame fits_u32_def case_prod_beta flip: version_Suc)

text \<open>The stream of heartbeats is well formed. However often the version byte wraps, the bytes
  either worker writes are read back as one operation 1 per successful turn, whose body is the version
  of the turn (starting at 1 and counting modulo 256), the due time and, for the socket server, the
  received count; and a timer is started for exactly the versions sent.\<close>

theorem heartbeats_read_back:
  "read_ops (concat (fst (worker_run 1 turns))) = (beat_ops 0 turns, [])
 \<and> fst (snd (worker_run 1 turns)) = map (\<lambda>op. hd (snd op)) (beat_ops 0 turns)
 \<and> read_ops (concat (fst (api_worker_run 1 api_turns))) = (api_beat_ops 0 api_turns, [])"
  using router_frames.drain_concat [OF worker_run_ops(3), of 0 turns] worker_run_ops(1,2) [of 0 turns]
    router_frames.drain_concat [OF api_worker_run_ops(2), of 0 api_turns] api_worker_run_ops(1) [of 0 api_turns]
  by (simp add: read_ops_def version_def)

text \<open>C27: no false alarm. Both checkers, started at version 1, go on waiting for the next version when
  every beat is answered in order and each timer fires after the answer to its beat and less than 256
  beats later, over runs of any length; the API server's checker needs answers that carry the 4-byte
  count.\<close>

theorem heartbeat_no_false_alarm:
  "(on_time (\<lambda>_. True) 0 es \<longrightarrow>
      heartbeat_check 1 (hb_events 0 es) = Done (Checking (version (answers es))))
 \<and> (on_time (\<lambda>rest. 4 \<le> length rest) 0 es \<longrightarrow>
      api_heartbeat_check 1 (hb_events 0 es) = Done (Checking (version (answers es))))"
  using socket_checker.on_time_waits [of 0 es] api_checker.on_time_waits [of 0 es]
  by (simp add: version_def)

theorem heartbeat_no_false_alarm_witness:
  "heartbeat_check 1 [Beat [1, 9], Timer 1, Beat [2, 9], Beat [3, 9], Timer 2] = Done (Checking 4)"
  using heartbeat_no_false_alarm [of "[Answer [9], TimerOf 0, Answer [9], Answer [9], TimerOf 1]"]
  by (simp add: version_def)

text \<open>C28: what a timer detects. After any run on time with \<open>m\<close> answered beats, the timer of beat \<open>k\<close>
  (\<open>k \<le> m\<close>) reports a timeout exactly when \<open>m - k\<close> is a multiple of 256: so a missing answer is always
  detected (\<open>k = m\<close>), an answered beat is not reported, except when its timer is delayed by 256 beats, for
  then the wrapped version looks current.\<close>

theorem heartbeat_timer_detects:
  assumes "on_time (\<lambda>_. True) 0 es" and "k \<le> answers es"
  shows "heartbeat_check 1 (hb_events 0 es @ [Timer (version k)])
    = Done (if 256 dvd answers es - k then Timeout else Checking (version (answers es)))"
  using socket_checker.timer_after_on_time [of 0 es k] assms by (simp add: version_def)

theorem heartbeat_timer_detects_witness:
  "heartbeat_check 1 [Beat [1], Timer 1, Beat [2], Timer 3] = Done Timeout"
  using heartbeat_timer_detects [of "[Answer [], TimerOf 0, Answer []]" 2] by (simp add: version_def)

end
