(* ===== verification/Registry.thy ===== *)
theory Registry imports Prelude begin

text \<open>
  The table of websocket connections (\<open>socket/socket.go\<close>): 32 shards, each a mutex and a map
  from websocket ids to the channel of the connection. The hash (\<open>fnv1a.HashString32\<close>) and the id
  generator (\<open>nanoid.GenerateString\<close>) are third-party code, hence arguments: the hash is a
  function \<open>h\<close>, the generator the list of what its successive calls return (\<open>None\<close> is its error).
  \<open>Registry_Steps\<close> interleaves the operations of concurrent goroutines, \<open>Switchboard\<close> relates
  their sequences to a table without shards.
\<close>

subsection \<open>State\<close>

type_synonym chan_id = nat

record channel =
  buf :: "bytes list"
  closed :: bool

record ws_shard =
  table :: "string \<rightharpoonup> chan_id"
  locked :: bool

record registry =
  shards :: "ws_shard list"
  channels :: "channel list"

definition CONCURRENCY :: nat where
  "CONCURRENCY = 32"

definition CHAN_SIZE :: nat where
  "CHAN_SIZE = 4"

definition get_shard :: "(string \<Rightarrow> u32) \<Rightarrow> string \<Rightarrow> nat" where
  "get_shard h WSID = unat (h WSID mod word_of_nat CONCURRENCY)"

definition ws_id_chan_table :: registry where
  "ws_id_chan_table =
     \<lparr>shards = replicate CONCURRENCY \<lparr>table = Map.empty, locked = False\<rparr>, channels = []\<rparr>"

lemma get_shard_less [simp]: "get_shard h WSID < CONCURRENCY"
  by (simp add: get_shard_def CONCURRENCY_def unat_mod_distrib)

subsection \<open>Channels\<close>

definition chan_send :: "chan_id \<Rightarrow> bytes \<Rightarrow> registry \<Rightarrow> registry outcome" where
  "chan_send c v r =
     (let ch = channels r ! c in
      if closed ch then Panicked SendOnClosed
      else if length (buf ch) < CHAN_SIZE
      then Done (r\<lparr>channels := (channels r)[c := ch\<lparr>buf := buf ch @ [v]\<rparr>]\<rparr>)
      else Blocked)"

text \<open>The two results of a receive: the value, or \<open>None\<close> when the channel is closed and drained.\<close>

definition chan_recv :: "chan_id \<Rightarrow> registry \<Rightarrow> (bytes option \<times> registry) outcome" where
  "chan_recv c r =
     (let ch = channels r ! c in
      case buf ch of
        v # vs \<Rightarrow> Done (Some v, r\<lparr>channels := (channels r)[c := ch\<lparr>buf := vs\<rparr>]\<rparr>)
      | [] \<Rightarrow> if closed ch then Done (None, r) else Blocked)"

definition chan_close :: "chan_id \<Rightarrow> registry \<Rightarrow> registry outcome" where
  "chan_close c r =
     (let ch = channels r ! c in
      if closed ch then Panicked CloseOfClosed
      else Done (r\<lparr>channels := (channels r)[c := ch\<lparr>closed := True\<rparr>]\<rparr>))"

subsection \<open>Creating, finding and deleting connections\<close>

definition set_shard :: "nat \<Rightarrow> ws_shard \<Rightarrow> registry \<Rightarrow> registry" where
  "set_shard i sh r = r\<lparr>shards := (shards r)[i := sh]\<rparr>"

text \<open>The assignment \<open>shard.table[w] = c\<close>, and with \<open>None\<close> the built-in \<open>delete(shard.table, w)\<close>.\<close>

definition put_entry :: "nat \<Rightarrow> string \<Rightarrow> chan_id option \<Rightarrow> registry \<Rightarrow> registry" where
  "put_entry i w v r = set_shard i ((shards r ! i)\<lparr>table := (table (shards r ! i))(w := v)\<rparr>) r"

definition table_lookup :: "(string \<Rightarrow> u32) \<Rightarrow> registry \<Rightarrow> string \<Rightarrow> chan_id option" where
  "table_lookup h r WSID = table (shards r ! get_shard h WSID) WSID"

text \<open>The loop that looks for a free id in the table of one shard: \<open>None\<close> when the calls of the
  generator given here are used up, \<open>Some None\<close> when one of them fails.\<close>

fun pick_id :: "(string \<rightharpoonup> chan_id) \<Rightarrow> string \<Rightarrow> string option list \<Rightarrow> string option option" where
  "pick_id t w gens =
     (case t w of
        None \<Rightarrow> Some (Some w)
      | Some _ \<Rightarrow> (case gens of
          [] \<Rightarrow> None
        | None # _ \<Rightarrow> Some None
        | Some w' # gens' \<Rightarrow> pick_id t w' gens'))"

declare pick_id.simps [simp del]

text \<open>The shard is chosen by the first id and kept while the loop draws others; the early return
  of the loop leaves the shard locked. \<open>None\<close> means that the loop has not ended yet.\<close>

definition create_connection ::
  "(string \<Rightarrow> u32) \<Rightarrow> string option list \<Rightarrow> registry
     \<Rightarrow> ((string \<times> chan_id option) \<times> registry) outcome option" where
  "create_connection h gens r =
     (let messageChannel = length (channels r);
          r1 = r\<lparr>channels := channels r @ [\<lparr>buf = [], closed = False\<rparr>]\<rparr>
      in case gens of
           [] \<Rightarrow> None
         | None # _ \<Rightarrow> Some (Done (('''', None), r1))
         | Some WSID # gens' \<Rightarrow>
             (let i = get_shard h WSID; shard = shards r ! i in
              if locked shard then Some Blocked
              else case pick_id (table shard) WSID gens' of
                None \<Rightarrow> None
              | Some None \<Rightarrow> Some (Done (('''', None), set_shard i (shard\<lparr>locked := True\<rparr>) r1))
              | Some (Some w) \<Rightarrow>
                  Some (Done ((w, Some messageChannel), put_entry i w (Some messageChannel) r1))))"

text \<open>\<open>delete_connection\<close> removes the entry under the lock and closes the channel after it.\<close>

definition unlink_connection ::
  "(string \<Rightarrow> u32) \<Rightarrow> string \<Rightarrow> registry \<Rightarrow> (chan_id option \<times> registry) outcome" where
  "unlink_connection h WSID r =
     (let i = get_shard h WSID; shard = shards r ! i in
      if locked shard then Blocked
      else Done (table shard WSID, put_entry i WSID None r))"

definition delete_connection :: "(string \<Rightarrow> u32) \<Rightarrow> string \<Rightarrow> registry \<Rightarrow> registry outcome" where
  "delete_connection h WSID r =
     and_then (unlink_connection h WSID r)
       (\<lambda>(msg_chan, r'). case msg_chan of None \<Rightarrow> Done r' | Some c \<Rightarrow> chan_close c r')"

text \<open>Handing a payload to the connection that owns an id, under the shard's read lock, as
  \<open>socket_op\<close> does; the flag says whether the id was found.\<close>

definition deliver ::
  "(string \<Rightarrow> u32) \<Rightarrow> string \<Rightarrow> bytes \<Rightarrow> registry \<Rightarrow> (bool \<times> registry) outcome" where
  "deliver h WSID payload r =
     (let shard = shards r ! get_shard h WSID in
      if locked shard then Blocked
      else case table shard WSID of
        None \<Rightarrow> Done (False, r)
      | Some c \<Rightarrow> and_then (chan_send c payload r) (\<lambda>r'. Done (True, r')))"

subsection \<open>The operations the router hears about\<close>

text \<open>A call of \<open>socket_write\<close>: op byte, payload, parameters.\<close>

type_synonym router_write = "byte \<times> byte slice \<times> string list"

definition add_user_session ::
  "(string \<Rightarrow> u32) \<Rightarrow> string option list \<Rightarrow> string \<Rightarrow> string \<Rightarrow> registry
     \<Rightarrow> ((string \<times> chan_id option) \<times> registry \<times> router_write list) outcome option" where
  "add_user_session h gens userID sessionID r =
     map_option (\<lambda>res. and_then res (\<lambda>((WSID, ch), r').
        Done ((WSID, ch), r', [(20, None, [userID, sessionID, WSID])])))
     (create_connection h gens r)"

definition recover_user_session ::
  "(string \<Rightarrow> u32) \<Rightarrow> string option list \<Rightarrow> string \<Rightarrow> string \<Rightarrow> string \<Rightarrow> registry
     \<Rightarrow> ((string \<times> chan_id option) \<times> registry \<times> router_write list) outcome option" where
  "recover_user_session h gens userID sessionID prevWSID r =
     map_option (\<lambda>res. and_then res (\<lambda>((WSID, ch), r').
        Done ((WSID, ch), r', [(21, None, [userID, sessionID, WSID, prevWSID])])))
     (create_connection h gens r)"

definition remove_user_session ::
  "(string \<Rightarrow> u32) \<Rightarrow> string \<Rightarrow> string \<Rightarrow> string \<Rightarrow> registry
     \<Rightarrow> (registry \<times> router_write list) outcome" where
  "remove_user_session h userID sessionID WSID r =
     and_then (delete_connection h WSID r)
       (\<lambda>r'. Done (r', [(22, None, [userID, sessionID, WSID])]))"

definition get_prev_state :: "string \<Rightarrow> string \<Rightarrow> bool \<Rightarrow> byte slice \<Rightarrow> router_write" where
  "get_prev_state new_sock_id new_ws_id success state =
     (let success_text = (if \<not> success then ''0'' else ''1'')
      in (30, state, [new_sock_id, new_ws_id, success_text]))"

subsection \<open>Lookups in the 32 tables\<close>

definition all_shards :: "registry \<Rightarrow> bool" where
  "all_shards r = (length (shards r) = CONCURRENCY)"

lemma set_shard_simps [simp]:
  "shards (set_shard i sh r) = (shards r)[i := sh]"
  "channels (set_shard i sh r) = channels r"
  by (simp_all add: set_shard_def)

lemma all_shards_less: "all_shards r \<Longrightarrow> get_shard h w < length (shards r)"
  by (simp add: all_shards_def)

lemma lookup_set_shard:
  "all_shards r \<Longrightarrow> table_lookup h (set_shard (get_shard h w) sh r) v
     = (if get_shard h v = get_shard h w then table sh v else table_lookup h r v)"
  by (simp add: table_lookup_def all_shards_less nth_list_update)

text \<open>An entry written into the shard its id's hash names is what a lookup finds, and no other lookup
  changes.\<close>

lemma lookup_put_entry:
  "all_shards r \<Longrightarrow> table_lookup h (put_entry (get_shard h w) w v r) = (table_lookup h r)(w := v)"
  by (auto simp: put_entry_def table_lookup_def fun_eq_iff nth_list_update all_shards_less)

lemma all_shards_put_entry [simp]: "all_shards (put_entry i w v r) = all_shards r"
  by (simp add: put_entry_def all_shards_def)

subsection \<open>What create and delete do to the table\<close>

lemma pick_id_free: "t w = None \<Longrightarrow> pick_id t w gens = Some (Some w)"
  by (subst pick_id.simps) simp

lemma pick_id_fresh: "pick_id t w gens = Some (Some w') \<Longrightarrow> t w' = None \<and> (w' = w \<or> Some w' \<in> set gens)"
  by (induction t w gens rule: pick_id.induct)
    (subst (asm) (2) pick_id.simps, auto split: option.splits list.splits)

text \<open>The loop ends once the generator fails or returns an id that is free in the shard.\<close>

lemma pick_id_ends:
  assumes "g \<in> set gens" and "\<And>w. g = Some w \<Longrightarrow> t w = None"
  shows "pick_id t w gens \<noteq> None"
  using assms
  by (induction t w gens rule: pick_id.induct)
    (subst pick_id.simps, auto simp: pick_id_free split: option.splits list.splits)

lemma create_first_try:
  assumes "\<not> locked (shards r ! get_shard h w)" and "table_lookup h r w = None"
  shows "create_connection h (Some w # gens) r = Some (Done ((w, Some (length (channels r))),
    put_entry (get_shard h w) w (Some (length (channels r)))
      (r\<lparr>channels := channels r @ [\<lparr>buf = [], closed = False\<rparr>]\<rparr>)))"
  using assms
  by (simp add: create_connection_def Let_def pick_id_free table_lookup_def put_entry_def)

lemma delete_unlocked:
  "\<not> locked (shards r ! get_shard h w) \<Longrightarrow> delete_connection h w r =
     (case table_lookup h r w of None \<Rightarrow> Done (put_entry (get_shard h w) w None r)
      | Some c \<Rightarrow> chan_close c (put_entry (get_shard h w) w None r))"
  by (simp add: delete_connection_def unlink_connection_def Let_def table_lookup_def put_entry_def
      split: option.splits)

subsection \<open>The registry between operations\<close>

text \<open>All shards are there and free, every registered channel is allocated and open, and no
  channel serves two ids.\<close>

definition reg_ok :: "(string \<Rightarrow> u32) \<Rightarrow> registry \<Rightarrow> bool" where
  "reg_ok h r \<longleftrightarrow> all_shards r
     \<and> (\<forall>i<CONCURRENCY. \<not> locked (shards r ! i))
     \<and> (\<forall>w c. table_lookup h r w = Some c \<longrightarrow> c < length (channels r) \<and> \<not> closed (channels r ! c))
     \<and> (\<forall>w v c. table_lookup h r w = Some c \<longrightarrow> table_lookup h r v = Some c \<longrightarrow> w = v)"

lemma reg_ok_unlocked: "reg_ok h r \<Longrightarrow> \<not> locked (shards r ! get_shard h w)"
  by (simp add: reg_ok_def)

lemma reg_ok_all_shards: "reg_ok h r \<Longrightarrow> all_shards r"
  by (simp add: reg_ok_def)

lemma reg_ok_open:
  "reg_ok h r \<Longrightarrow> table_lookup h r w = Some c \<Longrightarrow> c < length (channels r) \<and> \<not> closed (channels r ! c)"
  by (simp add: reg_ok_def)

lemma reg_ok_fresh: "reg_ok h r \<Longrightarrow> table_lookup h r w \<noteq> Some (length (channels r))"
  using reg_ok_open by blast

lemma reg_ok_inj:
  "reg_ok h r \<Longrightarrow> table_lookup h r w = Some c \<Longrightarrow> table_lookup h r v = Some c \<Longrightarrow> w = v"
  unfolding reg_ok_def by blast

lemma reg_ok_init: "reg_ok h ws_id_chan_table"
  by (simp add: reg_ok_def all_shards_def ws_id_chan_table_def table_lookup_def)

lemma table_lookup_channels [simp]: "table_lookup h (r\<lparr>channels := cs\<rparr>) = table_lookup h r"
  by (simp add: table_lookup_def fun_eq_iff)

lemma all_shards_channels [simp]: "all_shards (r\<lparr>channels := cs\<rparr>) = all_shards r"
  by (simp add: all_shards_def)

lemma channels_put_entry [simp]: "channels (put_entry i w v r) = channels r"
  by (simp add: put_entry_def)

lemma locked_put_entry [simp]: "locked (shards (put_entry i w v r) ! j) = locked (shards r ! j)"
  by (cases "i < length (shards r)") (simp_all add: put_entry_def nth_list_update list_update_beyond)

lemma reg_okI:
  assumes "all_shards r"
    and "\<And>i. i < CONCURRENCY \<Longrightarrow> \<not> locked (shards r ! i)"
    and "\<And>w c. table_lookup h r w = Some c \<Longrightarrow> c < length (channels r) \<and> \<not> closed (channels r ! c)"
    and "\<And>w v c. table_lookup h r w = Some c \<Longrightarrow> table_lookup h r v = Some c \<Longrightarrow> w = v"
  shows "reg_ok h r"
  unfolding reg_ok_def using assms by blast

lemma reg_ok_insert:
  assumes ok: "reg_ok h r" and new: "channels r' = channels r @ [\<lparr>buf = [], closed = False\<rparr>]"
    and same: "shards r' = shards r"
  shows "reg_ok h (put_entry (get_shard h w) w (Some (length (channels r))) r')" (is "reg_ok h ?r")
proof -
  have sh: "all_shards r'" and unlocked: "i < CONCURRENCY \<Longrightarrow> \<not> locked (shards r' ! i)" for i
    using ok same by (simp_all add: all_shards_def reg_ok_def)
  have "table_lookup h r' = table_lookup h r"
    using same by (simp add: table_lookup_def fun_eq_iff)
  then have look: "table_lookup h ?r = (table_lookup h r)(w \<mapsto> length (channels r))"
    by (simp add: lookup_put_entry sh)
  show ?thesis
  proof (rule reg_okI)
    show "all_shards ?r" using sh by simp
    show "\<not> locked (shards ?r ! i)" if "i < CONCURRENCY" for i
      using that unlocked by simp
    show "c < length (channels ?r) \<and> \<not> closed (channels ?r ! c)" if "table_lookup h ?r v = Some c" for v c
      using that look new reg_ok_open [OF ok, of v c] by (auto simp: nth_append split: if_splits)
    show "v = u" if "table_lookup h ?r v = Some c" "table_lookup h ?r u = Some c" for v u c
      using that look reg_ok_open [OF ok, of u c] reg_ok_open [OF ok, of v c] reg_ok_inj [OF ok, of v c u]
      by (auto split: if_splits)
  qed
qed

lemma reg_ok_remove:
  assumes ok: "reg_ok h r"
    and same: "\<And>c. c < length (channels r) \<Longrightarrow> table_lookup h r w \<noteq> Some c
                       \<Longrightarrow> closed (cs ! c) = closed (channels r ! c)"
    and len: "length cs = length (channels r)"
  shows "reg_ok h ((put_entry (get_shard h w) w None r)\<lparr>channels := cs\<rparr>)" (is "reg_ok h ?r")
proof -
  have sh: "all_shards r" by (rule reg_ok_all_shards [OF ok])
  then have look: "table_lookup h ?r = (table_lookup h r)(w := None)"
    by (simp add: lookup_put_entry)
  show ?thesis
  proof (rule reg_okI)
    show "all_shards ?r" using sh by simp
    show "\<not> locked (shards ?r ! i)" if "i < CONCURRENCY" for i
      using that ok by (simp add: reg_ok_def)
    show "c < length (channels ?r) \<and> \<not> closed (channels ?r ! c)" if "table_lookup h ?r v = Some c" for v c
    proof -
      from that look have v: "table_lookup h r v = Some c" and "v \<noteq> w" by (auto split: if_splits)
      then have "table_lookup h r w \<noteq> Some c" using reg_ok_inj [OF ok, of v c w] by auto
      with reg_ok_open [OF ok v] show ?thesis using same [of c] len by simp
    qed
    show "v = u" if "table_lookup h ?r v = Some c" "table_lookup h ?r u = Some c" for v u c
      using that look reg_ok_inj [OF ok, of v c u] by (auto split: if_splits)
  qed
qed

lemma reg_ok_delete:
  assumes "reg_ok h r" and "table_lookup h r w = Some c"
  shows "delete_connection h w r
      = Done ((put_entry (get_shard h w) w None r)\<lparr>channels := (channels r)[c := (channels r ! c)\<lparr>closed := True\<rparr>]\<rparr>)"
  using reg_ok_open [OF assms] delete_unlocked [OF reg_ok_unlocked, OF assms(1), of w] assms(2)
  by (simp add: chan_close_def)

subsection \<open>Properties of the table\<close>

text \<open>A connection whose first id is free is registered. From a registry between operations,
  \<open>create_connection\<close> returns that id and a channel no other id has, the id is then found, every other
  id is found as before, the channel is open and empty, and the registry is again as it should be.\<close>

theorem create_connection_registers:
  assumes "reg_ok h r" and "table_lookup h r w = None"
  shows "\<exists>r'. create_connection h (Some w # gens) r = Some (Done ((w, Some (length (channels r))), r'))
     \<and> table_lookup h r' = (table_lookup h r)(w \<mapsto> length (channels r))
     \<and> (\<forall>v. table_lookup h r v \<noteq> Some (length (channels r)))
     \<and> channels r' = channels r @ [\<lparr>buf = [], closed = False\<rparr>]
     \<and> reg_ok h r'"
  using create_first_try [OF reg_ok_unlocked [OF assms(1)] assms(2)] reg_ok_insert [OF assms(1)]
    reg_ok_all_shards [OF assms(1)] reg_ok_fresh [OF assms(1)]
  by (auto simp: lookup_put_entry)

theorem create_connection_registers_witness:
  "\<exists>r'. create_connection (\<lambda>_. 3) [Some ''WS1'', None] ws_id_chan_table = Some (Done ((''WS1'', Some 0), r'))
     \<and> reg_ok (\<lambda>_. 3) r'"
  using create_connection_registers [OF reg_ok_init, of "\<lambda>_. 3" "''WS1''" "[None]"]
  by (auto simp: table_lookup_def ws_id_chan_table_def)

text \<open>Deleting a connection removes exactly its entry and closes exactly its channel, keeps the
  registry as it should be, and deleting it a second time changes nothing and does not close the
  channel again.\<close>

theorem delete_connection_closes_once:
  assumes "reg_ok h r" and "table_lookup h r w = Some c"
  shows "\<exists>r'. delete_connection h w r = Done r'
     \<and> table_lookup h r' = (table_lookup h r)(w := None)
     \<and> closed (channels r' ! c)
     \<and> (\<forall>d. d \<noteq> c \<longrightarrow> channels r' ! d = channels r ! d)
     \<and> reg_ok h r'
     \<and> delete_connection h w r' = Done (put_entry (get_shard h w) w None r')
     \<and> table_lookup h (put_entry (get_shard h w) w None r') = table_lookup h r'"
proof -
  let ?cs = "(channels r)[c := (channels r ! c)\<lparr>closed := True\<rparr>]"
  let ?r' = "(put_entry (get_shard h w) w None r)\<lparr>channels := ?cs\<rparr>"
  have c: "c < length (channels r)" using reg_ok_open [OF assms] by simp
  have ok: "reg_ok h ?r'"
    using assms(2) by (intro reg_ok_remove [OF assms(1)]) (auto simp: nth_list_update)
  have look: "table_lookup h ?r' = (table_lookup h r)(w := None)"
    by (simp add: lookup_put_entry reg_ok_all_shards [OF assms(1)])
  then have "delete_connection h w ?r' = Done (put_entry (get_shard h w) w None ?r')"
    using delete_unlocked [OF reg_ok_unlocked [OF ok], of w] by simp
  moreover have "table_lookup h (put_entry (get_shard h w) w None ?r') = table_lookup h ?r'"
    using look reg_ok_all_shards [OF ok] by (simp add: lookup_put_entry)
  ultimately show ?thesis
    using reg_ok_delete [OF assms] ok look c by (auto simp: nth_list_update)
qed

definition one_conn :: registry where
  "one_conn = put_entry (get_shard (\<lambda>_. 3) ''WS1'') ''WS1'' (Some 0)
     (ws_id_chan_table\<lparr>channels := [\<lparr>buf = [], closed = False\<rparr>]\<rparr>)"

lemma one_conn_ok: "reg_ok (\<lambda>_. 3) one_conn"
  using reg_ok_insert [OF reg_ok_init, of "ws_id_chan_table\<lparr>channels := [\<lparr>buf = [], closed = False\<rparr>]\<rparr>"
      "\<lambda>_. 3" "''WS1''"]
  by (simp add: one_conn_def ws_id_chan_table_def)

lemma one_conn_lookup: "table_lookup (\<lambda>_. 3) one_conn = [''WS1'' \<mapsto> 0]"
proof -
  have "all_shards (ws_id_chan_table\<lparr>channels := [\<lparr>buf = [], closed = False\<rparr>]\<rparr>)"
    by (simp add: all_shards_def ws_id_chan_table_def)
  then show ?thesis
    by (simp add: one_conn_def lookup_put_entry) (simp add: table_lookup_def ws_id_chan_table_def fun_eq_iff)
qed

theorem delete_connection_closes_once_witness:
  "\<exists>r'. delete_connection (\<lambda>_. 3) ''WS1'' one_conn = Done r' \<and> closed (channels r' ! 0)
     \<and> table_lookup (\<lambda>_. 3) r' ''WS1'' = None"
  using delete_connection_closes_once [OF one_conn_ok, of "''WS1''" 0] by (auto simp: one_conn_lookup)

text \<open>C34: a retried id lands in the wrong shard. When the first id is taken and the loop settles on an
  id whose hash names another shard, the connection is stored in the shard of the first id:
  \<open>create_connection\<close> returns the id as if all were well, but looking the id up finds what it found
  before (never the new channel), so operations for this connection are not delivered to it and
  deleting it does not close its channel.\<close>

theorem create_connection_wrong_shard:
  assumes "reg_ok h r" and "table_lookup h r w = Some c"
    and "get_shard h v \<noteq> get_shard h w" and "table (shards r ! get_shard h w) v = None"
  shows "\<exists>r'. create_connection h [Some w, Some v] r = Some (Done ((v, Some (length (channels r))), r'))
     \<and> table_lookup h r' v = table_lookup h r v
     \<and> table_lookup h r' v \<noteq> Some (length (channels r))"
proof -
  have "pick_id (table (shards r ! get_shard h w)) w [Some v] = Some (Some v)"
    using assms(2,4) by (subst pick_id.simps) (simp add: table_lookup_def pick_id_free)
  then show ?thesis
    using assms(3) reg_ok_unlocked [OF assms(1), of w] reg_ok_all_shards [OF assms(1)]
      reg_ok_fresh [OF assms(1), of v]
    by (auto simp: create_connection_def put_entry_def Let_def table_lookup_def)
qed

definition split_hash :: "string \<Rightarrow> u32" where
  "split_hash w = (if w = ''WS1'' then 3 else 4)"

definition split_conn :: registry where
  "split_conn = put_entry (get_shard split_hash ''WS1'') ''WS1'' (Some 0)
     (ws_id_chan_table\<lparr>channels := [\<lparr>buf = [], closed = False\<rparr>]\<rparr>)"

lemma split_conn_ok: "reg_ok split_hash split_conn"
  using reg_ok_insert [OF reg_ok_init, where w = "''WS1''" and h = split_hash
      and r' = "ws_id_chan_table\<lparr>channels := [\<lparr>buf = [], closed = False\<rparr>]\<rparr>"]
  by (simp add: split_conn_def ws_id_chan_table_def)

theorem create_connection_wrong_shard_witness:
  "\<exists>r'. create_connection split_hash [Some ''WS1'', Some ''WS2''] split_conn
       = Some (Done ((''WS2'', Some 1), r'))
     \<and> table_lookup split_hash r' ''WS2'' \<noteq> Some 1"
proof -
  have "table_lookup split_hash split_conn ''WS1'' = Some 0"
    by (simp add: split_conn_def lookup_put_entry all_shards_def ws_id_chan_table_def)
  moreover have "get_shard split_hash ''WS2'' \<noteq> get_shard split_hash ''WS1''"
    by (simp add: get_shard_def CONCURRENCY_def split_hash_def)
  moreover have "table (shards split_conn ! get_shard split_hash ''WS1'') ''WS2'' = None"
    by (simp add: split_conn_def put_entry_def get_shard_def CONCURRENCY_def split_hash_def
        ws_id_chan_table_def)
  moreover have "length (channels split_conn) = 1"
    by (simp add: split_conn_def)
  ultimately show ?thesis
    using create_connection_wrong_shard [OF split_conn_ok, of "''WS1''" 0 "''WS2''"] by auto
qed

text \<open>A failing id generator leaves the shard locked for good. When the first id is taken and the
  generator then fails, \<open>create_connection\<close> returns without unlocking: every later creation with an id
  of that shard, every deletion and every delivery in that shard blocks, and nothing can unlock it.\<close>

theorem create_connection_leaks_lock:
  assumes "reg_ok h r" and "table_lookup h r w = Some c"
  shows "\<exists>r'. create_connection h [Some w, None] r = Some (Done (('''', None), r'))
     \<and> (\<forall>v gens payload. get_shard h v = get_shard h w \<longrightarrow>
            create_connection h (Some v # gens) r' = Some Blocked
          \<and> delete_connection h v r' = Blocked
          \<and> deliver h v payload r' = Blocked)"
proof -
  have "pick_id (table (shards r ! get_shard h w)) w [None] = Some None"
    using assms(2) by (subst pick_id.simps) (simp add: table_lookup_def)
  then show ?thesis
    using reg_ok_unlocked [OF assms(1), of w] all_shards_less [OF reg_ok_all_shards [OF assms(1)], of h w]
    by (auto simp: create_connection_def delete_connection_def unlink_connection_def deliver_def Let_def)
qed

theorem create_connection_leaks_lock_witness:
  "\<exists>r'. create_connection (\<lambda>_. 3) [Some ''WS1'', None] one_conn = Some (Done (('''', None), r'))
     \<and> deliver (\<lambda>_. 3) ''WS1'' [100] r' = Blocked"
  using create_connection_leaks_lock [OF one_conn_ok, of "''WS1''" 0] by (auto simp: one_conn_lookup)

end
