(* ===== verification/Dispatch.thy ===== *)
theory Dispatch imports Stream Registry begin

text \<open>
  What the socket server does with an operation from the router (\<open>socket/socket_op.go\<close>) and the
  loop of \<open>read_tcp\<close> that feeds it. Operations 50 and 51 carry a websocket id and a payload for
  that connection; a request for the previous state (31) of a connection that is gone is answered
  on its behalf.
\<close>

record dispatch =
  conns :: registry
  received :: u32
  router_out :: "router_write list"
  err_log :: "parse_error list"

definition socket_op :: "(string \<Rightarrow> u32) \<Rightarrow> byte \<Rightarrow> bytes \<Rightarrow> dispatch \<Rightarrow> dispatch outcome" where
  "socket_op h op b st =
     (if op = 50 \<or> op = 51 then
        let st1 = (if op = 51 then st\<lparr>received := received st + 1\<rparr> else st)
        in case byte_to_params_and_payload b 1 True of
             (param, payload, Some err) \<Rightarrow> Done (st1\<lparr>err_log := err_log st1 @ [err]\<rparr>)
           | (param, payload, None) \<Rightarrow>
               (case payload of
                  [] \<Rightarrow> Panicked IndexOutOfRange
                | code # body \<Rightarrow>
                    and_then (deliver h (param ! 0) payload (conns st1)) (\<lambda>(exists, r').
                      let st2 = st1\<lparr>conns := r'\<rparr> in
                      if exists then Done st2
                      else if code = 31 then
                        (case byte_to_params_and_payload body 2 False of
                           (param', _, Some err) \<Rightarrow> Done (st2\<lparr>err_log := err_log st2 @ [err]\<rparr>)
                         | (param', _, None) \<Rightarrow>
                             Done (st2\<lparr>router_out := router_out st2 @
                               [get_prev_state (param' ! 0) (param' ! 1) False (Some (to_bytes ''{}''))]\<rparr>))
                      else Done st2))
      else Done st)"

lemma parse_one:
  "byte_to_params_and_payload b 1 True =
     (case split_field b of
        None \<Rightarrow> (fst (byte_to_params_and_payload b 1 True), [], Some ExpectedMore)
      | Some (f, r) \<Rightarrow> ([to_str f], r, None))"
  using parse_body [of b 1 True] parse_spec_one(1) [of b]
  by (auto split: option.splits)

lemma split_field_op_body:
  "delim_free w \<Longrightarrow> split_field (op_body (Some [w]) (Some payload)) = Some (to_bytes w, payload)"
  by (simp add: op_body_def split_field_append)

lemma socket_op_registered:
  assumes "reg_ok h (conns st)" and "table_lookup h (conns st) w = Some c"
    and "delim_free w" and "payload \<noteq> []" and "op = 50 \<or> op = 51"
  shows "socket_op h op (op_body (Some [w]) (Some payload)) st =
    (if length (buf (channels (conns st) ! c)) < CHAN_SIZE
     then Done (st\<lparr>received := (if op = 51 then received st + 1 else received st),
       conns := (conns st)\<lparr>channels := (channels (conns st))
         [c := (channels (conns st) ! c)\<lparr>buf := buf (channels (conns st) ! c) @ [payload]\<rparr>]\<rparr>\<rparr>)
     else Blocked)"
proof -
  have parse: "byte_to_params_and_payload (op_body (Some [w]) (Some payload)) 1 True = ([w], payload, None)"
    by (subst parse_one) (simp add: split_field_op_body assms(3))
  obtain p ps where "payload = p # ps" using assms(4) by (cases payload) auto
  then show ?thesis
    using assms(2,5) parse reg_ok_unlocked [OF assms(1), of w] reg_ok_open [OF assms(1,2)]
    by (auto simp: socket_op_def deliver_def chan_send_def table_lookup_def Let_def)
qed

text \<open>A payload reaches the connection it is addressed to. An operation 50 or 51 whose parameter
  is a registered id and whose payload is not empty appends exactly that payload to the channel of that
  connection, changes no other channel and no table entry, and answers nothing to the router; operation
  51 is counted. A full channel makes the router's reader wait.\<close>

theorem socket_op_delivers:
  assumes "reg_ok h (conns st)" and "table_lookup h (conns st) w = Some c"
    and "delim_free w" and "payload \<noteq> []" and "op = 50 \<or> op = 51"
  shows "socket_op h op (op_body (Some [w]) (Some payload)) st =
    (if length (buf (channels (conns st) ! c)) < CHAN_SIZE
     then Done (st\<lparr>received := (if op = 51 then received st + 1 else received st),
       conns := (conns st)\<lparr>channels := (channels (conns st))
         [c := (channels (conns st) ! c)\<lparr>buf := buf (channels (conns st) ! c) @ [payload]\<rparr>]\<rparr>\<rparr>)
     else Blocked)"
  using assms by (rule socket_op_registered)

definition one_dispatch :: dispatch where
  "one_dispatch = \<lparr>conns = one_conn, received = 4294967295, router_out = [], err_log = []\<rparr>"

theorem socket_op_delivers_witness:
  "\<exists>st'. socket_op (\<lambda>_. 3) 51 (op_body (Some [''WS1'']) (Some [100, 123])) one_dispatch = Done st'
     \<and> buf (channels (conns st') ! 0) = [[100, 123]] \<and> received st' = 0"
  using socket_op_delivers [of "\<lambda>_. 3" one_dispatch "''WS1''" 0 "[100, 123]" 51]
  by (simp add: one_dispatch_def one_conn_ok one_conn_lookup delim_free_def CHAN_SIZE_def)
    (simp add: one_conn_def)

text \<open>A request for the previous state of a connection that is not there is answered. Operation
  50 or 51 with an unknown id and a payload of code 31 that names the requesting socket server and the
  new connection writes operation 30 to the router, with these two names, the failure mark and an empty
  JSON object, and changes nothing else; any other payload for an unknown id is dropped.\<close>

theorem socket_op_unknown_connection:
  assumes "reg_ok h (conns st)" and "table_lookup h (conns st) w = None"
    and "delim_free w" and "delim_free sock" and "new_ws \<noteq> []"
  shows "socket_op h 50 (op_body (Some [w]) (Some (31 # op_body (Some [sock, new_ws]) None))) st =
      Done (st\<lparr>router_out := router_out st @ [(30, Some (to_bytes ''{}''), [sock, new_ws, ''0''])]\<rparr>)
    \<and> (code \<noteq> 31 \<longrightarrow> socket_op h 50 (op_body (Some [w]) (Some (code # body))) st = Done st)"
proof -
  have parse: "byte_to_params_and_payload (op_body (Some [w]) (Some p)) 1 True = ([w], p, None)" for p
    by (subst parse_one) (simp add: split_field_op_body assms(3))
  show ?thesis
    using assms(2) reg_ok_unlocked [OF assms(1), of w]
    by (simp add: socket_op_def parse parse_two assms(4,5) deliver_def table_lookup_def get_prev_state_def)
qed

theorem socket_op_unknown_connection_witness:
  "socket_op (\<lambda>_. 3) 50 (op_body (Some [''WS9'']) (Some (31 # op_body (Some [''SOCK_b'', ''WS2'']) None))) one_dispatch
     = Done (one_dispatch\<lparr>router_out := [(30, Some (to_bytes ''{}''), [''SOCK_b'', ''WS2'', ''0''])]\<rparr>)"
  using socket_op_unknown_connection [of "\<lambda>_. 3" one_dispatch "''WS9''" "''SOCK_b''" "''WS2''"]
  by (simp add: one_dispatch_def one_conn_ok one_conn_lookup delim_free_def)

text \<open>\<open>socket_op\<close> panics on an operation whose payload is empty, and on nothing else. With the
  registry between operations, the only bodies that make it panic are a delimiter-free id followed by
  the delimiter and no further byte: the diagnostic print indexes the first payload byte unchecked.\<close>

theorem socket_op_panics_iff:
  assumes "reg_ok h (conns st)"
  shows "(\<exists>p. socket_op h op b st = Panicked p) \<longleftrightarrow>
         (op = 50 \<or> op = 51) \<and> (\<exists>w. b = w @ [DEFAULT_DELIM] \<and> DEFAULT_DELIM \<notin> set w)"
proof -
  have no: "deliver h w v (conns st) \<noteq> Panicked p" for w v p
    using reg_ok_open [OF assms, of w] by (auto simp: deliver_def chan_send_def Let_def table_lookup_def
        outcome_simps split: option.splits if_splits)
  have eq: "(\<exists>w. b = w @ [DEFAULT_DELIM] \<and> DEFAULT_DELIM \<notin> set w) \<longleftrightarrow> (\<exists>w. split_field b = Some (w, []))"
    by (simp add: split_field_Some)
  show ?thesis
    unfolding eq
    by (subst socket_op_def, subst parse_one)
      (auto simp: Let_def no outcome_simps split: option.splits list.splits prod.splits if_splits)
qed

theorem socket_op_panics_iff_witness:
  "\<exists>p. socket_op (\<lambda>_. 3) 50 (to_bytes ''WS1:'') one_dispatch = Panicked p"
proof -
  have "\<exists>w. to_bytes ''WS1:'' = w @ [DEFAULT_DELIM] \<and> DEFAULT_DELIM \<notin> set w"
    by (intro exI [of _ "to_bytes ''WS1''"])
      (simp add: DEFAULT_DELIM_def DEFAULT_SPLIT_CHAR_def byte_of_char_def)
  then show ?thesis
    using socket_op_panics_iff [of "\<lambda>_. 3" one_dispatch 50 "to_bytes ''WS1:''"]
    by (simp add: one_dispatch_def one_conn_ok)
qed

end
