(* ===== verification/Registry_Steps.thy ===== *)
theory Registry_Steps imports Registry begin

text \<open>
  The connection table under concurrent goroutines. A step is one critical section of one
  goroutine: a whole \<open>create_connection\<close>, the locked half of \<open>delete_connection\<close>, its \<open>close\<close>
  after the unlock (the channels waiting for it are \<open>pending\<close>), a delivery by the router's
  reader, a receive by a connection's goroutine. The invariant holds for any hash function and
  any ids, also for connections stored in a wrong shard.
\<close>

record reg_sys =
  reg :: registry
  pending :: "chan_id list"

inductive reg_step :: "(string \<Rightarrow> u32) \<Rightarrow> reg_sys \<Rightarrow> reg_sys \<Rightarrow> bool" for h where
  create: "create_connection h gens (reg s) = Some (Done (res, r')) \<Longrightarrow> reg_step h s (s\<lparr>reg := r'\<rparr>)"
| unlink: "unlink_connection h w (reg s) = Done (mc, r') \<Longrightarrow>
     reg_step h s (s\<lparr>reg := r', pending := (case mc of None \<Rightarrow> pending s | Some c \<Rightarrow> c # pending s)\<rparr>)"
| close: "c \<in> set (pending s) \<Longrightarrow> chan_close c (reg s) = Done r' \<Longrightarrow>
     reg_step h s (s\<lparr>reg := r', pending := remove1 c (pending s)\<rparr>)"
| deliver: "deliver h w payload (reg s) = Done (found, r') \<Longrightarrow> reg_step h s (s\<lparr>reg := r'\<rparr>)"
| receive: "chan_recv c (reg s) = Done (v, r') \<Longrightarrow> reg_step h s (s\<lparr>reg := r'\<rparr>)"

inductive reg_reachable :: "(string \<Rightarrow> u32) \<Rightarrow> reg_sys \<Rightarrow> bool" for h where
  start: "reg_reachable h \<lparr>reg = ws_id_chan_table, pending = []\<rparr>"
| step: "reg_reachable h s \<Longrightarrow> reg_step h s t \<Longrightarrow> reg_reachable h t"

text \<open>The invariant: registered channels are open, each is registered once, and the channels on
  their way to \<open>close\<close> are open, distinct and no longer registered.\<close>

definition entry :: "registry \<Rightarrow> nat \<Rightarrow> string \<Rightarrow> chan_id option" where
  "entry r i w = (if i < length (shards r) then table (shards r ! i) w else None)"

definition open_chan :: "registry \<Rightarrow> chan_id \<Rightarrow> bool" where
  "open_chan r c \<longleftrightarrow> c < length (channels r) \<and> \<not> closed (channels r ! c)"

definition sys_inv :: "reg_sys \<Rightarrow> bool" where
  "sys_inv s \<longleftrightarrow> all_shards (reg s)
     \<and> (\<forall>i w c. entry (reg s) i w = Some c \<longrightarrow> open_chan (reg s) c \<and> c \<notin> set (pending s))
     \<and> (\<forall>i j w v c. entry (reg s) i w = Some c \<longrightarrow> entry (reg s) j v = Some c \<longrightarrow> i = j \<and> w = v)
     \<and> (\<forall>c\<in>set (pending s). open_chan (reg s) c) \<and> distinct (pending s)"

lemma sys_invI:
  assumes "all_shards (reg s)"
    and "\<And>i w c. entry (reg s) i w = Some c \<Longrightarrow> open_chan (reg s) c \<and> c \<notin> set (pending s)"
    and "\<And>i j w v c. entry (reg s) i w = Some c \<Longrightarrow> entry (reg s) j v = Some c \<Longrightarrow> i = j \<and> w = v"
    and "\<And>c. c \<in> set (pending s) \<Longrightarrow> open_chan (reg s) c" and "distinct (pending s)"
  shows "sys_inv s"
  unfolding sys_inv_def using assms by blast

lemma sys_invD:
  assumes "sys_inv s"
  shows "all_shards (reg s)"
    and "entry (reg s) i w = Some c \<Longrightarrow> open_chan (reg s) c"
    and "entry (reg s) i w = Some c \<Longrightarrow> c \<notin> set (pending s)"
    and "entry (reg s) i w = Some c \<Longrightarrow> entry (reg s) j v = Some c \<Longrightarrow> i = j \<and> w = v"
    and "c \<in> set (pending s) \<Longrightarrow> open_chan (reg s) c"
    and "distinct (pending s)"
  using assms unfolding sys_inv_def by blast+

text \<open>Steps that touch neither the tables nor which channels are open keep the invariant.\<close>

lemma sys_inv_frame:
  assumes "sys_inv s" and "shards r' = shards (reg s)"
    and "\<And>c. open_chan r' c = open_chan (reg s) c"
  shows "sys_inv (s\<lparr>reg := r'\<rparr>)"
proof -
  have "entry r' = entry (reg s)" and "all_shards r' = all_shards (reg s)"
    using assms(2) by (simp_all add: entry_def all_shards_def fun_eq_iff)
  with assms(1,3) show ?thesis by (simp add: sys_inv_def)
qed

lemma open_chan_same_closed:
  "closed ch = closed (channels r ! c) \<Longrightarrow> open_chan (r\<lparr>channels := (channels r)[c := ch]\<rparr>) d = open_chan r d"
  by (cases "c = d") (auto simp: open_chan_def nth_list_update)

lemma deliver_inv:
  assumes "sys_inv s" and "deliver h w payload (reg s) = Done (found, r')"
  shows "sys_inv (s\<lparr>reg := r'\<rparr>)"
  using assms
  by (auto simp: deliver_def chan_send_def Let_def outcome_simps open_chan_same_closed
      intro!: sys_inv_frame split: if_splits option.splits)

lemma receive_inv:
  assumes "sys_inv s" and "chan_recv c (reg s) = Done (v, r')"
  shows "sys_inv (s\<lparr>reg := r'\<rparr>)"
  using assms
  by (auto simp: chan_recv_def Let_def open_chan_same_closed
      intro!: sys_inv_frame split: if_splits list.splits)

lemma close_inv:
  assumes inv: "sys_inv s" and c: "c \<in> set (pending s)" and cl: "chan_close c (reg s) = Done r'"
  shows "sys_inv (s\<lparr>reg := r', pending := remove1 c (pending s)\<rparr>)"
proof (rule sys_invI; simp)
  have sh: "shards r' = shards (reg s)" and op: "\<And>d. open_chan r' d = (open_chan (reg s) d \<and> d \<noteq> c)"
    using cl c sys_invD(5) [OF inv]
    by (auto simp: chan_close_def Let_def open_chan_def nth_list_update split: if_splits)
  then have en: "entry r' = entry (reg s)" by (simp add: entry_def fun_eq_iff)
  show "all_shards r'" using sys_invD(1) [OF inv] sh by (simp add: all_shards_def)
  show "open_chan r' d \<and> d \<notin> set (remove1 c (pending s))" if "entry r' i w = Some d" for i w d
    using that sys_invD(2,3) [OF inv] c by (auto simp: en op dest: set_remove1_subset [THEN subsetD])
  show "i = j \<and> w = v" if "entry r' i w = Some d" "entry r' j v = Some d" for i j w v d
    using that sys_invD(4) [OF inv] by (simp add: en)
  show "open_chan r' d" if "d \<in> set (remove1 c (pending s))" for d
    using that sys_invD(5,6) [OF inv] by (simp add: op)
  show "distinct (remove1 c (pending s))" using sys_invD(6) [OF inv] by simp
qed

lemma entry_put [simp]:
  assumes "i < length (shards r)"
  shows "entry (put_entry i w x r) j v = (if j = i \<and> v = w then x else entry r j v)"
  using assms by (cases "j = i") (auto simp: entry_def put_entry_def)

lemma entry_lock:
  assumes "i < length (shards r)"
  shows "entry (set_shard i ((shards r ! i)\<lparr>locked := b\<rparr>) r) = entry r"
proof (intro ext)
  show "entry (set_shard i ((shards r ! i)\<lparr>locked := b\<rparr>) r) j v = entry r j v" for j v
    using assms by (cases "j = i") (auto simp: entry_def)
qed

lemma entry_channels [simp]: "entry (r\<lparr>channels := cs\<rparr>) = entry r"
  by (simp add: entry_def fun_eq_iff)

lemma unlink_inv:
  assumes inv: "sys_inv s" and un: "unlink_connection h w (reg s) = Done (mc, r')"
  shows "sys_inv (s\<lparr>reg := r', pending := (case mc of None \<Rightarrow> pending s | Some c \<Rightarrow> c # pending s)\<rparr>)"
proof (rule sys_invI; simp)
  let ?i = "get_shard h w"
  have i: "?i < length (shards (reg s))" using sys_invD(1) [OF inv] by (rule all_shards_less)
  have mc: "mc = entry (reg s) ?i w" and sh: "all_shards r'"
    and en: "\<And>j v. entry r' j v = (if j = ?i \<and> v = w then None else entry (reg s) j v)"
    and op: "\<And>d. open_chan r' d = open_chan (reg s) d"
    using un i sys_invD(1) [OF inv]
    by (auto simp: unlink_connection_def Let_def open_chan_def entry_def [of "reg s" ?i] split: if_splits)
  show "all_shards r'" by (rule sh)
  show "open_chan r' d \<and> d \<notin> set (case mc of None \<Rightarrow> pending s | Some c \<Rightarrow> c # pending s)"
    if "entry r' j v = Some d" for j v d
    using that sys_invD(2-4) [OF inv] by (auto simp: en op mc split: if_splits option.splits)
  show "j = k \<and> v = u" if "entry r' j v = Some d" "entry r' k u = Some d" for j k v u d
    using that sys_invD(4) [OF inv] by (auto simp: en split: if_splits)
  show "open_chan r' d" if "d \<in> set (case mc of None \<Rightarrow> pending s | Some c \<Rightarrow> c # pending s)" for d
    using that sys_invD(2,5) [OF inv] by (auto simp: op mc split: option.splits)
  show "distinct (case mc of None \<Rightarrow> pending s | Some c \<Rightarrow> c # pending s)"
    using sys_invD(3,6) [OF inv] by (auto simp: mc split: option.splits)
qed

text \<open>A creation either adds one entry with a fresh channel or leaves the entries alone.\<close>

lemma create_cases:
  assumes "create_connection h gens r = Some (Done (res, r'))" and "all_shards r"
  obtains (unchanged) "entry r' = entry r" and "all_shards r'"
      and "channels r' = channels r @ [\<lparr>buf = [], closed = False\<rparr>]"
  | (added) i w where "entry r' = (entry r)(i := (entry r i)(w \<mapsto> length (channels r)))" and "all_shards r'"
      and "channels r' = channels r @ [\<lparr>buf = [], closed = False\<rparr>]"
proof -
  let ?r = "r\<lparr>channels := channels r @ [\<lparr>buf = [], closed = False\<rparr>]\<rparr>"
  from assms consider "r' = ?r"
    | v where "r' = set_shard (get_shard h v) ((shards r ! get_shard h v)\<lparr>locked := True\<rparr>) ?r"
    | v w where "r' = put_entry (get_shard h v) w (Some (length (channels r))) ?r"
    by (auto simp: create_connection_def Let_def split: list.splits option.splits if_splits)
  then show thesis
  proof cases
    case 1
    then show ?thesis using assms(2) unchanged by (simp add: all_shards_def)
  next
    case (2 v)
    have "entry r' = entry r"
      unfolding 2 using entry_lock [of "get_shard h v" ?r True] all_shards_less [OF assms(2)] by simp
    then show ?thesis using assms(2) unchanged 2 by (simp add: all_shards_def)
  next
    case (3 v w)
    have "entry r' = (entry r)(get_shard h v := (entry r (get_shard h v))(w \<mapsto> length (channels r)))"
      unfolding 3 using all_shards_less [OF assms(2)] by (auto simp: fun_eq_iff)
    then show ?thesis using assms(2) added 3 by simp
  qed
qed

lemma create_inv:
  assumes inv: "sys_inv s" and cr: "create_connection h gens (reg s) = Some (Done (res, r'))"
  shows "sys_inv (s\<lparr>reg := r'\<rparr>)"
proof -
  have op: "open_chan r' c \<longleftrightarrow> open_chan (reg s) c \<or> c = length (channels (reg s))"
    if "channels r' = channels (reg s) @ [\<lparr>buf = [], closed = False\<rparr>]" for c
    using that by (auto simp: open_chan_def nth_append)
  have old: "entry (reg s) j v \<noteq> Some (length (channels (reg s)))"
    and oldp: "length (channels (reg s)) \<notin> set (pending s)" for j v
    using sys_invD(2,5) [OF inv] by (auto simp: open_chan_def)
  show ?thesis
    using cr sys_invD(1) [OF inv]
  proof (cases rule: create_cases)
    case unchanged
    then show ?thesis using inv by (auto simp: sys_inv_def op)
  next
    case (added i w)
    show ?thesis
    proof (rule sys_invI; simp)
      show "open_chan r' c \<and> c \<notin> set (pending s)" if "entry r' j v = Some c" for j v c
        using that added(1) sys_invD(2,3) [OF inv] oldp by (auto simp: op [OF added(3)] split: if_splits)
      show "j = k \<and> v = u" if "entry r' j v = Some c" "entry r' k u = Some c" for j k v u c
        using that added(1) sys_invD(4) [OF inv, of j v c k u] old by (auto split: if_splits)
    qed (use added sys_invD(5,6) [OF inv] in \<open>auto simp: op [OF added(3)]\<close>)
  qed
qed

lemma reg_step_inv: "reg_step h s t \<Longrightarrow> sys_inv s \<Longrightarrow> sys_inv t"
  by (induction rule: reg_step.induct) (blast intro: create_inv unlink_inv close_inv deliver_inv receive_inv)+

lemma reg_reachable_inv: "reg_reachable h s \<Longrightarrow> sys_inv s"
proof (induction rule: reg_reachable.induct)
  case start
  show ?case by (simp add: sys_inv_def entry_def ws_id_chan_table_def all_shards_def)
next
  case (step s t)
  then show ?case by (blast intro: reg_step_inv)
qed

text \<open>C2: no interleaving of goroutines makes the connection table panic. In every reachable state,
  delivering any payload to any id does not send on a closed channel, and neither a running nor a new
  \<open>delete_connection\<close> closes a channel twice.\<close>

theorem registry_never_panics:
  assumes "reg_reachable h s"
  shows "deliver h w payload (reg s) \<noteq> Panicked p
     \<and> delete_connection h w (reg s) \<noteq> Panicked p
     \<and> list_all (\<lambda>c. \<exists>r'. chan_close c (reg s) = Done r') (pending s)"
proof -
  note inv = reg_reachable_inv [OF assms]
  have "entry (reg s) (get_shard h w) w = table (shards (reg s) ! get_shard h w) w"
    using all_shards_less [OF sys_invD(1) [OF inv]] by (simp add: entry_def)
  then have "table (shards (reg s) ! get_shard h w) w = Some c \<Longrightarrow> open_chan (reg s) c" for c
    using sys_invD(2) [OF inv] by metis
  then show ?thesis
    using sys_invD(5) [OF inv]
    by (auto simp: deliver_def delete_connection_def unlink_connection_def chan_send_def chan_close_def
        Let_def outcome_simps open_chan_def list_all_iff split: if_splits option.splits)
qed

lemma reachable_deleting: "reg_reachable (\<lambda>_. 3) \<lparr>reg = put_entry (get_shard (\<lambda>_. 3) ''WS1'') ''WS1'' None one_conn, pending = [0]\<rparr>"
proof -
  have "create_connection (\<lambda>_. 3) [Some ''WS1''] ws_id_chan_table = Some (Done ((''WS1'', Some 0), one_conn))"
    using create_first_try [of ws_id_chan_table "\<lambda>_. 3" "''WS1''" "[]"] reg_ok_unlocked [OF reg_ok_init]
    by (simp add: one_conn_def table_lookup_def ws_id_chan_table_def)
  then have one: "reg_reachable (\<lambda>_. 3) \<lparr>reg = one_conn, pending = []\<rparr>"
    using reg_reachable.step [OF reg_reachable.start reg_step.create] by fastforce
  have "unlink_connection (\<lambda>_. 3) ''WS1'' one_conn = Done (Some 0, put_entry (get_shard (\<lambda>_. 3) ''WS1'') ''WS1'' None one_conn)"
    using reg_ok_unlocked [OF one_conn_ok, of "''WS1''"] one_conn_lookup
    by (simp add: unlink_connection_def put_entry_def Let_def table_lookup_def fun_eq_iff)
  then show ?thesis
    using reg_reachable.step [OF one reg_step.unlink, of "''WS1''"] by simp
qed

theorem registry_never_panics_witness:
  "\<exists>r'. chan_close 0 (put_entry (get_shard (\<lambda>_. 3) ''WS1'') ''WS1'' None one_conn) = Done r'"
  using registry_never_panics [OF reachable_deleting] by simp

end
