(* ===== verification/Session.thy ===== *)
theory Session imports Registry Wire "HOL-Library.AList" begin

text \<open>
  The goroutine that serves one websocket connection, \<open>msg_chan_recv\<close> of \<open>socket/websocket.go\<close>,
  with the message types of \<open>socket/websocket_data_template.go\<close>. It receives commands of the
  reader goroutine (first byte 0) and operations of the router from the connection's channel,
  keeps the queue of messages and the last timestamp, and writes to the websocket.

  The JSON library, the websocket and the order in which \<open>sort.Slice\<close> over a map's values puts
  messages of equal timestamp are outside the source: they are the record \<open>ws_env\<close>.
\<close>

subsection \<open>Message types\<close>

text \<open>A Go map from strings: \<open>None\<close> is the nil map.\<close>

type_synonym mq = "(string \<times> bytes) list option"

record ws_state =
  LastTimestamp :: u64
  MQ :: mq

record auth_response_data =
  ar_WSID :: string
  ar_Refresh :: bool

record auth_token_data =
  at_Token :: string
  at_PrevWSID :: string

record ack_data =
  ack_Timestamp :: "64 word"
  ack_Signature :: string

record refresh_chain_data =
  rc_ChainID :: string

datatype ws_data = NoData | AuthResponse auth_response_data | RefreshChain refresh_chain_data

record ws_message =
  Op :: int
  Data :: ws_data

definition construct_ws_message :: "int \<Rightarrow> ws_data \<Rightarrow> ws_message" where
  "construct_ws_message op data = \<lparr>Op = op, Data = data\<rparr>"

subsection \<open>The environment\<close>

text \<open>What \<open>jsoniter\<close> reads at a path of a JSON text and writes for a value (\<open>None\<close> is an error of
  \<open>Marshal\<close>), whether the \<open>n\<close>-th \<open>WriteMessage\<close> of the connection succeeds, whether the websocket
  handle is live, and the order \<open>FLUSH\<close> ends up with.\<close>

record ws_env =
  j_uint64 :: "bytes \<Rightarrow> string list \<Rightarrow> u64"
  j_int :: "bytes \<Rightarrow> string list \<Rightarrow> int"
  j_bool :: "bytes \<Rightarrow> string list \<Rightarrow> bool"
  j_string :: "bytes \<Rightarrow> string list \<Rightarrow> string"
  j_ack :: "bytes \<Rightarrow> ack_data"
  j_token :: "bytes \<Rightarrow> auth_token_data"
  j_marshal :: "ws_message \<Rightarrow> bytes option"
  j_marshal_state :: "ws_state \<Rightarrow> bytes option"
  j_unmarshal_state :: "bytes \<Rightarrow> ws_state \<times> bool"
  write_ok :: "nat \<Rightarrow> bool"
  ws_live :: bool
  flush_sort :: "bytes list \<Rightarrow> bytes list"

definition timestamp_of :: "ws_env \<Rightarrow> bytes \<Rightarrow> u64" where
  "timestamp_of E p = j_uint64 E p [''Timestamp'']"

text \<open>What Go promises of collecting the values of a map and sorting them with \<open>sort.Slice\<close>: the
  same messages, in ascending order of their timestamps.\<close>

definition flush_sorts :: "ws_env \<Rightarrow> bool" where
  "flush_sorts E \<longleftrightarrow> (\<forall>ms. mset (flush_sort E ms) = mset ms \<and> sorted (map (timestamp_of E) (flush_sort E ms)))"

subsection \<open>The websocket\<close>

record websocket =
  written :: "bytes list"
  closes :: nat
  problems :: "string list"

definition ws_write :: "ws_env \<Rightarrow> bytes \<Rightarrow> websocket \<Rightarrow> bool \<times> websocket" where
  "ws_write E b ws = (write_ok E (length (written ws)), ws\<lparr>written := written ws @ [b]\<rparr>)"

definition ws_close :: "ws_env \<Rightarrow> websocket \<Rightarrow> websocket" where
  "ws_close E ws = (if ws_live E then ws\<lparr>closes := closes ws + 1\<rparr> else ws)"

definition handleWebsocketError :: "string \<Rightarrow> websocket \<Rightarrow> websocket" where
  "handleWebsocketError problem ws = ws\<lparr>problems := problems ws @ [problem]\<rparr>"

text \<open>A marshalling error is logged and an empty text is written all the same.\<close>

definition write_message :: "ws_env \<Rightarrow> int \<Rightarrow> ws_data \<Rightarrow> websocket \<Rightarrow> bool \<times> websocket" where
  "write_message E code data ws =
     (case j_marshal E (construct_ws_message code data) of
        Some b \<Rightarrow> ws_write E b ws
      | None \<Rightarrow> ws_write E [] (handleWebsocketError ''jsoniter_marshal'' ws))"

definition msg_chan_recv_err :: "ws_env \<Rightarrow> websocket \<Rightarrow> websocket" where
  "msg_chan_recv_err E ws = ws_close E (handleWebsocketError ''msg_chan_recv'' ws)"

text \<open>The command bytes the reader goroutine sends to this one.\<close>

definition comm_msg :: "string \<Rightarrow> bytes" where
  "comm_msg msg = 0 # to_bytes msg"

subsection \<open>The loop body\<close>

record receiver =
  last_timestamp :: u64
  message_queue :: mq
  sock :: websocket
  router_calls :: "router_write list"
  timers :: nat

datatype turn = Continue receiver | Return receiver

fun flush_loop :: "ws_env \<Rightarrow> bytes list \<Rightarrow> websocket \<Rightarrow> bool \<times> websocket" where
  "flush_loop E [] ws = (True, ws)"
| "flush_loop E (m # ms) ws =
     (case ws_write E m ws of
        (True, ws') \<Rightarrow> flush_loop E ms ws'
      | (False, ws') \<Rightarrow> (False, handleWebsocketError ''FLUSH'' ws'))"

text \<open>The case analysis on commands. The acknowledgement case deletes the key held by the variable
  \<open>msg\<close>, which is declared and never assigned: the empty string.\<close>

definition comm_step :: "ws_env \<Rightarrow> string \<Rightarrow> receiver \<Rightarrow> turn" where
  "comm_step E cmd st =
     (if cmd = ''FLUSH'' then
        (if elems (message_queue st) = [] then Continue st
         else case flush_loop E (flush_sort E (map snd (elems (message_queue st)))) (sock st) of
           (ok, ws) \<Rightarrow> if ok then Continue (st\<lparr>sock := ws\<rparr>) else Return (st\<lparr>sock := ws\<rparr>))
      else if cmd = ''SET_TIMER'' then Continue (st\<lparr>timers := timers st + 1\<rparr>)
      else let msg = '''' in
        Continue (st\<lparr>message_queue := map_option (AList.delete msg) (message_queue st)\<rparr>))"

text \<open>Operation 30: the state is handed to another connection of the user.\<close>

definition op30_step :: "ws_env \<Rightarrow> bytes \<Rightarrow> receiver \<Rightarrow> receiver" where
  "op30_step E body st =
     (case byte_to_params_and_payload body 2 False of (param, _, err) \<Rightarrow>
      let ws1 = (case err of None \<Rightarrow> sock st | Some _ \<Rightarrow> msg_chan_recv_err E (sock st));
          state = j_marshal_state E \<lparr>LastTimestamp = last_timestamp st, MQ = message_queue st\<rparr>;
          ws2 = (case state of Some _ \<Rightarrow> ws1 | None \<Rightarrow> msg_chan_recv_err E ws1)
      in st\<lparr>router_calls := router_calls st @ [get_prev_state (param ! 0) (param ! 1) True state],
            sock := ws_close E ws2\<rparr>)"

definition message_key :: "ws_env \<Rightarrow> bytes \<Rightarrow> string" where
  "message_key E payload = j_string E payload [''Signature''] @ format_uint (timestamp_of E payload)"

text \<open>Operation 100: a message for this user. Behind an open gate, a message that is not newer than
  the last one and not atomic is replaced by a request to refresh its sector; any other message is
  queued, and written when the gate is open.\<close>

definition op100_step :: "ws_env \<Rightarrow> int \<Rightarrow> bytes \<Rightarrow> receiver \<Rightarrow> turn outcome" where
  "op100_step E gate_state payload st =
     (let temp_timestamp = timestamp_of E payload in
      if temp_timestamp \<le> last_timestamp st \<and> \<not> j_bool E payload [''Atomic''] \<and> gate_state = 1 then
        let temp_op = j_int E payload [''Op''] in
        Done (Continue
          (if temp_op \<ge> 200 \<and> temp_op < 300
           then st\<lparr>sock := snd (write_message E 3101 NoData (sock st))\<rparr>
           else if temp_op \<ge> 300 \<and> temp_op < 400
           then st\<lparr>sock := snd (write_message E 3102
                  (RefreshChain \<lparr>rc_ChainID = j_string E payload [''Data'', ''ChainID'']\<rparr>) (sock st))\<rparr>
           else st))
      else
        let st1 = (if temp_timestamp > last_timestamp st then st\<lparr>last_timestamp := temp_timestamp\<rparr> else st)
        in case message_queue st1 of
             None \<Rightarrow> Panicked NilMapWrite
           | Some q \<Rightarrow>
               let st2 = st1\<lparr>message_queue := Some (AList.update (message_key E payload) payload q)\<rparr> in
               if gate_state = 1 then
                 (case ws_write E payload (sock st2) of
                    (True, ws) \<Rightarrow> Done (Continue (st2\<lparr>sock := ws\<rparr>))
                  | (False, ws) \<Rightarrow> Done (Return (st2\<lparr>sock := msg_chan_recv_err E ws\<rparr>)))
               else Done (Continue st2))"

definition recv_step :: "ws_env \<Rightarrow> int \<Rightarrow> bytes \<Rightarrow> receiver \<Rightarrow> turn outcome" where
  "recv_step E gate_state b st =
     (case b of
        [] \<Rightarrow> Panicked IndexOutOfRange
      | op # body \<Rightarrow>
          if op = 0 then Done (comm_step E (to_str body) st)
          else if op = 30 then Done (Continue (op30_step E body st))
          else if op = 32 then Done (Continue (st\<lparr>sock := ws_close E (sock st)\<rparr>))
          else if op = 100 then
            (case byte_to_params_and_payload body 0 True of
               (_, payload, err) \<Rightarrow>
                 op100_step E gate_state payload
                   (case err of None \<Rightarrow> st | Some _ \<Rightarrow> st\<lparr>sock := msg_chan_recv_err E (sock st)\<rparr>))
          else Done (Continue st))"

text \<open>The loop, over what the channel delivers and the value of the gate at each delivery.\<close>

fun msg_chan_recv :: "ws_env \<Rightarrow> (int \<times> bytes) list \<Rightarrow> receiver \<Rightarrow> turn outcome" where
  "msg_chan_recv E [] st = Done (Continue st)"
| "msg_chan_recv E ((gate, b) # bs) st =
     and_then (recv_step E gate b st)
       (\<lambda>t. case t of Continue st' \<Rightarrow> msg_chan_recv E bs st' | Return st' \<Rightarrow> Done (Return st'))"

end
