(* ===== verification/Client.thy ===== *)
theory Client imports Session begin

text \<open>
  The reader goroutine of a websocket connection (\<open>ClientSocket\<close>, \<open>auth_client\<close> and
  \<open>connect_user\<close> of \<open>socket/websocket.go\<close>): the token handshake with the client, the session
  handshake with the router, and the loop that turns what the client sends into commands for the
  connection goroutine.
\<close>

subsection \<open>Authentication\<close>

text \<open>What \<open>jwt.Parse\<close> and the assertion on the claims give: the only error being the expiry,
  any other error, or a token with its validity and its claims (\<open>None\<close> when they are not
  \<open>MapClaims\<close>), whose entries are strings or something else (\<open>None\<close>).\<close>

datatype jwt_result = JwtExpired | JwtInvalid | JwtToken bool "(string \<rightharpoonup> string) option"

datatype auth_error = WriteError | DeadlineError | ReadError | UnexpectedOp int | EmptyToken
  | TokenExpired | TokenInvalid | InvalidClaims

datatype auth_result = AuthWaiting | AuthFailed auth_error | Authenticated string string string

text \<open>One turn of the loop sees whether \<open>SetReadDeadline\<close> succeeds, what \<open>ReadMessage\<close> returns
  (\<open>None\<close> is an error) and the verdict of \<open>jwt.Parse\<close> at that time.\<close>

record auth_turn =
  deadline_ok :: bool
  msg_read :: "bytes option"
  jwt_parse :: "string \<Rightarrow> jwt_result"

definition parse_token :: "(string \<Rightarrow> jwt_result) \<Rightarrow> string \<Rightarrow> string \<Rightarrow> websocket
    \<Rightarrow> (auth_result \<times> websocket) outcome" where
  "parse_token jwt token prev ws =
     (case jwt token of
        JwtToken valid claims \<Rightarrow>
          (case claims of
             None \<Rightarrow> Done (AuthFailed InvalidClaims, handleWebsocketError ''jwt_claims'' ws)
           | Some user \<Rightarrow>
               if \<not> valid then Done (AuthFailed InvalidClaims, handleWebsocketError ''jwt_claims'' ws)
               else (case (user ''id'', user ''session_id'') of
                 (Some i, Some s) \<Rightarrow> Done (Authenticated i s prev, ws)
               | _ \<Rightarrow> Panicked BadAssertion))
      | _ \<Rightarrow> Done (AuthFailed TokenInvalid, handleWebsocketError ''jwt_parse_error'' ws))"

fun auth_client :: "ws_env \<Rightarrow> byte \<Rightarrow> auth_turn list \<Rightarrow> websocket \<Rightarrow> (auth_result \<times> websocket) outcome" where
  "auth_client E tries [] ws = Done (AuthWaiting, ws)"
| "auth_client E tries (t # ts) ws =
     (let tries' = tries + 1 in
      case write_message E 1001 NoData ws of (ok, ws1) \<Rightarrow>
      if \<not> ok then Done (AuthFailed WriteError, handleWebsocketError ''websocket_write'' ws1)
      else if \<not> deadline_ok t then Done (AuthFailed DeadlineError, snd (write_message E 3000 NoData ws1))
      else (case msg_read t of
        None \<Rightarrow> Done (AuthFailed ReadError, handleWebsocketError ''websocket_read'' ws1)
      | Some msg \<Rightarrow>
          if j_int E msg [''Op''] \<noteq> 1001
          then Done (AuthFailed (UnexpectedOp (j_int E msg [''Op''])), handleWebsocketError ''op:1001'' ws1)
          else let res = j_token E msg in
            if at_Token res = [] then Done (AuthFailed EmptyToken, handleWebsocketError ''auth_token'' ws1)
            else if jwt_parse t (at_Token res) = JwtExpired then
              let ws2 = snd (write_message E 3001 NoData ws1) in
              if tries' = 2 then Done (AuthFailed TokenExpired, handleWebsocketError ''auth_token'' ws2)
              else auth_client E tries' ts ws2
            else parse_token (jwt_parse t) (at_Token res) (at_PrevWSID res) ws1))"

subsection \<open>The session handshake with the router\<close>

text \<open>What \<open>connect_user\<close> does with the operations received from the new channel: it waits for more,
  panics, reports a failure, or has a state and the refresh flag. \<open>jsoniter.Unmarshal\<close> may leave a
  partial state behind when it fails, which is logged.\<close>

datatype handshake = HsFailed string | HsReady ws_state bool bool

definition empty_state :: ws_state where
  "empty_state = \<lparr>LastTimestamp = 0, MQ = None\<rparr>"

definition recv_prev_state :: "ws_env \<Rightarrow> bytes list \<Rightarrow> handshake outcome" where
  "recv_prev_state E recvs =
     (case recvs of
        [] \<Rightarrow> Blocked
      | [] # _ \<Rightarrow> Panicked IndexOutOfRange
      | (op # body) # _ \<Rightarrow>
          if op \<noteq> 31 then Done (HsFailed ''recv_prev_state'')
          else (case byte_to_params_and_payload body 1 True of
            (_, _, Some _) \<Rightarrow> Done (HsFailed ''recv_prev_state'')
          | (param, payload, None) \<Rightarrow>
              if param ! 0 = ''1'' then
                (case j_unmarshal_state E payload of (s, ok) \<Rightarrow> Done (HsReady s False ok))
              else Done (HsReady empty_state True True)))"

definition session_handshake :: "ws_env \<Rightarrow> string \<Rightarrow> bytes list \<Rightarrow> handshake outcome" where
  "session_handshake E prevWSID recvs =
     (case recvs of
        [] \<Rightarrow> Blocked
      | [] # _ \<Rightarrow> Panicked IndexOutOfRange
      | (op # body) # recvs' \<Rightarrow>
          if prevWSID = [] then
            (if op \<noteq> 20 then Done (HsFailed ''add_user_session'')
             else case byte_to_params_and_payload body 1 False of
               (_, _, Some _) \<Rightarrow> Done (HsFailed ''add_user_session'')
             | (param, _, None) \<Rightarrow>
                 if param ! 0 \<noteq> ''1'' then Done (HsFailed ''add_user_session'')
                 else Done (HsReady empty_state True True))
          else
            (if op \<noteq> 21 then Done (HsFailed ''recover_user_session'')
             else case byte_to_params_and_payload body 1 False of
               (_, _, Some _) \<Rightarrow> Done (HsFailed ''recover_user_session'')
             | (param, _, None) \<Rightarrow>
                 if param ! 0 = ''1'' then recv_prev_state E recvs'
                 else Done (HsReady empty_state True True)))"

record connected =
  c_chan :: "chan_id option"
  c_WSID :: string
  c_state :: ws_state
  c_refresh :: bool
  c_reg :: registry
  c_router :: "router_write list"
  c_ws :: websocket

text \<open>A failed handshake still returns: with the nil message queue of a new state and a session that
  was just removed. \<open>others\<close> is what other goroutines do to the registry meanwhile; a nil channel
  (the id generator failed) never delivers anything.\<close>

definition connect_user ::
  "ws_env \<Rightarrow> (string \<Rightarrow> u32) \<Rightarrow> string option list \<Rightarrow> (registry \<Rightarrow> registry) \<Rightarrow> bytes list
     \<Rightarrow> string \<Rightarrow> string \<Rightarrow> string \<Rightarrow> registry \<Rightarrow> websocket \<Rightarrow> connected outcome option" where
  "connect_user E h gens others recvs userID sessionID prevWSID r ws =
     map_option (\<lambda>res. and_then res (\<lambda>((WSID, ch), r1, calls).
       and_then (if ch = None then Blocked else session_handshake E prevWSID recvs) (\<lambda>hs.
         case hs of
           HsFailed problem \<Rightarrow>
             and_then (remove_user_session h userID sessionID WSID (others r1)) (\<lambda>(r2, calls2).
               Done \<lparr>c_chan = ch, c_WSID = WSID, c_state = empty_state, c_refresh = True, c_reg = r2,
                 c_router = calls @ calls2, c_ws = handleWebsocketError problem ws\<rparr>)
         | HsReady s refresh ok \<Rightarrow>
             Done \<lparr>c_chan = ch, c_WSID = WSID,
               c_state = (case MQ s of None \<Rightarrow> s\<lparr>MQ := Some []\<rparr> | Some _ \<Rightarrow> s),
               c_refresh = refresh, c_reg = others r1, c_router = calls,
               c_ws = (if ok then ws else handleWebsocketError ''jsoniter_unmarshal'' ws)\<rparr>)))
     (if prevWSID = [] then add_user_session h gens userID sessionID r
      else recover_user_session h gens userID sessionID prevWSID r)"

subsection \<open>The read loop\<close>

text \<open>What one turn reads: an error of \<open>SetReadDeadline\<close>, an error of \<open>ReadMessage\<close> (with the flag
  that it is close code 1006 or a timeout), or a message.\<close>

datatype message_type = TextMessage | BinaryMessage

datatype read_event = DeadlineFails | ReadFails bool | ReadMsg message_type bytes

text \<open>What it does with it, one effect after the other: write to the websocket, set the gate, send a
  command to the connection goroutine, remove the session, log.\<close>

datatype effect = WriteWs int ws_data | StoreGate int | SendComm string | RemoveSession | LogProblem string

definition err_func :: "string \<Rightarrow> effect list" where
  "err_func problem = [LogProblem problem, RemoveSession]"

definition ack_key :: "ack_data \<Rightarrow> string" where
  "ack_key data = ack_Signature data @ format_int (ack_Timestamp data)"

text \<open>The effects of a turn and whether the loop goes on.\<close>

fun reader_turn :: "ws_env \<Rightarrow> read_event \<Rightarrow> effect list \<times> bool" where
  "reader_turn E DeadlineFails = (err_func ''websocket_read_deadline'', False)"
| "reader_turn E (ReadFails gone) = (if gone then [RemoveSession] else [SendComm ''SET_TIMER''], False)"
| "reader_turn E (ReadMsg BinaryMessage b) = (err_func ''websocket_read'', False)"
| "reader_turn E (ReadMsg TextMessage b) =
     (let op = j_int E b [''Op''] in
      (if op = 1000 then [WriteWs 1000 NoData]
       else if op = 1005 then [StoreGate 0]
       else if op = 1006 then [SendComm ''FLUSH'', StoreGate 1]
       else if op = 1007 then [SendComm (ack_key (j_ack E b))]
       else [LogProblem ''op_code''], True))"

text \<open>\<open>ClientSocket\<close> after the connection is set up: the connection goroutine starts from the handed-over
  state, the client is told its id, and the loop begins (or ends at once when that write fails).\<close>

definition start_receiver :: "connected \<Rightarrow> receiver" where
  "start_receiver c = \<lparr>last_timestamp = LastTimestamp (c_state c), message_queue = MQ (c_state c),
     sock = c_ws c, router_calls = [], timers = 0\<rparr>"

definition greet_client :: "ws_env \<Rightarrow> connected \<Rightarrow> receiver \<times> effect list \<times> bool" where
  "greet_client E c =
     (let st = start_receiver c in
      case write_message E 1002 (AuthResponse \<lparr>ar_WSID = c_WSID c, ar_Refresh = c_refresh c\<rparr>) (sock st) of
        (ok, ws) \<Rightarrow> (st\<lparr>sock := ws\<rparr>, if ok then [] else err_func ''write op:1002'', ok))"

text \<open>The whole function up to its loop: when authentication fails or still waits, the websocket (closed
  by the deferred call once the function returns); else what \<open>connect_user\<close> and the greeting give.\<close>

definition client_socket ::
  "ws_env \<Rightarrow> (string \<Rightarrow> u32) \<Rightarrow> string option list \<Rightarrow> (registry \<Rightarrow> registry) \<Rightarrow> auth_turn list \<Rightarrow> bytes list
     \<Rightarrow> registry \<Rightarrow> websocket \<Rightarrow> (websocket + connected \<times> receiver \<times> effect list \<times> bool) outcome option" where
  "client_socket E h gens others turns recvs r ws =
     (case auth_client E 0 turns ws of
        Blocked \<Rightarrow> Some Blocked
      | Panicked p \<Rightarrow> Some (Panicked p)
      | Done (Authenticated userID sessionID prevWSID, ws1) \<Rightarrow>
          map_option (\<lambda>res. and_then res (\<lambda>c. Done (Inr (c, greet_client E c))))
            (connect_user E h gens others recvs userID sessionID prevWSID r ws1)
      | Done (AuthFailed _, ws1) \<Rightarrow> Some (Done (Inl (ws_close E ws1)))
      | Done (AuthWaiting, ws1) \<Rightarrow> Some Blocked)"

end
