(* ===== verification/Session_Props.thy ===== *)
theory Session_Props imports Session begin

text \<open>
  What the connection goroutine keeps and promises: nothing that was queued is ever removed (also
  not by an acknowledgement), the last timestamp only grows, a flush writes the queue in timestamp
  order, and every message received behind a closed gate is written by the next flush.
\<close>

subsection \<open>The queue as a map\<close>

definition queued :: "receiver \<Rightarrow> (string \<times> bytes) list" where
  "queued st = elems (message_queue st)"

definition queue_keys :: "receiver \<Rightarrow> string set" where
  "queue_keys st = fst ` set (queued st)"

fun turn_state :: "turn \<Rightarrow> receiver" where
  "turn_state (Continue st) = st"
| "turn_state (Return st) = st"

lemma message_key_not_Nil [simp]: "message_key E p \<noteq> []" "[] \<noteq> message_key E p"
  by (simp_all add: message_key_def)

lemma update_new: "k \<notin> fst ` set al \<Longrightarrow> AList.update k v al = al @ [(k, v)]"
  by (induction al) auto

lemma parse_zero: "byte_to_params_and_payload b 0 True = ([], b, None)"
  by (simp add: byte_to_params_and_payload_def)

lemma recv_step_100: "recv_step E gate (100 # p) st = op100_step E gate p st"
  by (simp add: recv_step_def parse_zero)

lemma recv_step_comm: "recv_step E gate (comm_msg cmd) st = Done (comm_step E cmd st)"
  by (simp add: recv_step_def comm_msg_def)

lemma comm_ack:
  assumes "cmd \<noteq> ''FLUSH''" and "cmd \<noteq> ''SET_TIMER''" and "[] \<notin> queue_keys st"
  shows "comm_step E cmd st = Continue st"
proof -
  have "map_option (AList.delete []) (message_queue st) = message_queue st"
    using assms(3) by (cases "message_queue st") (simp_all add: queue_keys_def queued_def)
  with assms show ?thesis by (simp add: comm_step_def)
qed

subsection \<open>Flushing\<close>

lemma flush_loop_written:
  "flush_loop E ms ws = (ok, ws') \<Longrightarrow>
     \<exists>n\<le>length ms. written ws' = written ws @ take n ms \<and> (ok \<longleftrightarrow> (\<forall>i<length ms. write_ok E (length (written ws) + i)))
       \<and> (ok \<longrightarrow> n = length ms) \<and> closes ws' = closes ws"
proof (induction ms arbitrary: ws)
  case Nil
  then show ?case by simp
next
  case (Cons m ms)
  show ?case
  proof (cases "write_ok E (length (written ws))")
    case False
    with Cons.prems have "written ws' = written ws @ take 1 (m # ms)" and "\<not> ok" and "closes ws' = closes ws"
      by (auto simp: ws_write_def handleWebsocketError_def)
    moreover have "\<not> (\<forall>i<length (m # ms). write_ok E (length (written ws) + i))"
      using False by force
    ultimately show ?thesis by (intro exI [of _ 1]) simp
  next
    case True
    let ?ws = "ws\<lparr>written := written ws @ [m]\<rparr>"
    from True Cons.prems have "flush_loop E ms ?ws = (ok, ws')" by (simp add: ws_write_def)
    from Cons.IH [OF this] obtain n where n: "n \<le> length ms" "written ws' = written ws @ m # take n ms"
      "ok \<longleftrightarrow> (\<forall>i<length ms. write_ok E (length (written ws) + Suc i))" "ok \<longrightarrow> n = length ms"
      "closes ws' = closes ws" by auto
    have "(\<forall>i<length (m # ms). write_ok E (length (written ws) + i))
        \<longleftrightarrow> (\<forall>i<length ms. write_ok E (length (written ws) + Suc i))"
      using True by (auto simp: less_Suc_eq_0_disj)
    with n show ?thesis by (intro exI [of _ "Suc n"]) simp
  qed
qed

lemma flush_step:
  assumes "flush_sorts E" and "\<And>i. write_ok E i"
  shows "\<exists>out ws. comm_step E ''FLUSH'' st = Continue (st\<lparr>sock := ws\<rparr>)
     \<and> written ws = written (sock st) @ out \<and> mset out = mset (map snd (queued st))
     \<and> sorted (map (timestamp_of E) out)"
proof (cases "queued st = []")
  case True
  then have "comm_step E ''FLUSH'' st = Continue (st\<lparr>sock := sock st\<rparr>)"
    by (simp add: comm_step_def queued_def)
  then show ?thesis using True by fastforce
next
  case False
  let ?out = "flush_sort E (map snd (queued st))"
  obtain ok ws where l: "flush_loop E ?out (sock st) = (ok, ws)" by fastforce
  from flush_loop_written [OF l] assms(2) have "ok" and "written ws = written (sock st) @ ?out" by auto
  moreover have "mset ?out = mset (map snd (queued st))" and "sorted (map (timestamp_of E) ?out)"
    using assms(1) by (simp_all add: flush_sorts_def)
  ultimately show ?thesis
    using l False by (intro exI [of _ ?out] exI [of _ ws]) (simp add: comm_step_def queued_def)
qed

subsection \<open>What each step keeps\<close>

lemma ws_ops_frame [simp]:
  "written (ws_close E ws) = written ws" "written (handleWebsocketError pr ws) = written ws"
  "written (msg_chan_recv_err E ws) = written ws"
  by (simp_all add: ws_close_def handleWebsocketError_def msg_chan_recv_err_def)

definition stale :: "ws_env \<Rightarrow> int \<Rightarrow> bytes \<Rightarrow> receiver \<Rightarrow> bool" where
  "stale E gate p st \<longleftrightarrow>
     timestamp_of E p \<le> last_timestamp st \<and> \<not> j_bool E p [''Atomic''] \<and> gate = 1"

definition accepted :: "ws_env \<Rightarrow> bytes \<Rightarrow> (string \<times> bytes) list \<Rightarrow> receiver \<Rightarrow> receiver" where
  "accepted E p q st = st\<lparr>last_timestamp := max (last_timestamp st) (timestamp_of E p),
     message_queue := Some (AList.update (message_key E p) p q)\<rparr>"

lemma op100_accept:
  assumes "\<not> stale E gate p st" and "message_queue st = Some q"
  shows "op100_step E gate p st = Done
    (if gate = 1 then
       let ws = snd (ws_write E p (sock st)) in
       if write_ok E (length (written (sock st))) then Continue ((accepted E p q st)\<lparr>sock := ws\<rparr>)
       else Return ((accepted E p q st)\<lparr>sock := msg_chan_recv_err E ws\<rparr>)
     else Continue (accepted E p q st))"
proof -
  have "(if timestamp_of E p > last_timestamp st then st\<lparr>last_timestamp := timestamp_of E p\<rparr> else st)
      = st\<lparr>last_timestamp := max (last_timestamp st) (timestamp_of E p)\<rparr>"
    by (simp add: max_def not_less)
  moreover have "\<not> (timestamp_of E p \<le> last_timestamp st \<and> \<not> j_bool E p [''Atomic''] \<and> gate = 1)"
    using assms(1) by (simp add: stale_def)
  ultimately show ?thesis
    unfolding op100_step_def Let_def
    by (simp only: if_False) (simp add: assms(2) accepted_def ws_write_def split: bool.split)
qed

lemma op100_nil_queue:
  "\<not> stale E gate p st \<Longrightarrow> message_queue st = None \<Longrightarrow> op100_step E gate p st = Panicked NilMapWrite"
  by (auto simp: op100_step_def stale_def Let_def)

lemma op100_stale:
  "stale E gate p st \<Longrightarrow> \<exists>ws. op100_step E gate p st = Done (Continue (st\<lparr>sock := ws\<rparr>))"
  by (cases st) (auto simp: op100_step_def stale_def Let_def)

lemma accepted_simps [simp]:
  "queue_keys ((accepted E p q st)\<lparr>sock := ws\<rparr>) = insert (message_key E p) (fst ` set q)"
  "queue_keys (accepted E p q st) = insert (message_key E p) (fst ` set q)"
  "last_timestamp (accepted E p q st) = max (last_timestamp st) (timestamp_of E p)"
  by (simp_all add: accepted_def queue_keys_def queued_def dom_update)

text \<open>The invariant of the loop: keys are never empty; it gives that the queue keeps its keys.\<close>

definition keeps :: "receiver \<Rightarrow> receiver \<Rightarrow> bool" where
  "keeps st st' \<longleftrightarrow> queue_keys st \<subseteq> queue_keys st' \<and> [] \<notin> queue_keys st'
     \<and> last_timestamp st \<le> last_timestamp st'"

lemma keeps_trans: "keeps a b \<Longrightarrow> keeps b c \<Longrightarrow> keeps a c"
  by (auto simp: keeps_def)

lemma keeps_frame:
  "[] \<notin> queue_keys st \<Longrightarrow> message_queue st' = message_queue st \<Longrightarrow> last_timestamp st' = last_timestamp st
     \<Longrightarrow> keeps st st'"
  by (simp add: keeps_def queue_keys_def queued_def)

lemma comm_keeps: "[] \<notin> queue_keys st \<Longrightarrow> keeps st (turn_state (comm_step E cmd st))"
  using comm_ack [of cmd st E]
  by (cases "cmd = ''FLUSH'' \<or> cmd = ''SET_TIMER''")
    (auto simp: comm_step_def intro!: keeps_frame split: prod.splits)

lemma op100_keeps:
  assumes "op100_step E gate p st = Done t" and "[] \<notin> queue_keys st"
  shows "keeps st (turn_state t) \<and> (\<not> stale E gate p st \<longrightarrow>
      message_key E p \<in> queue_keys (turn_state t) \<and> timestamp_of E p \<le> last_timestamp (turn_state t))"
proof (cases "stale E gate p st")
  case True
  then show ?thesis using op100_stale [OF True] assms by (auto intro!: keeps_frame)
next
  case False
  with assms(1) obtain q where q: "message_queue st = Some q"
    using op100_nil_queue by (cases "message_queue st") auto
  then have "queue_keys st = fst ` set q" by (simp add: queue_keys_def queued_def)
  with op100_accept [OF False q] assms show ?thesis
    by (auto simp: keeps_def Let_def split: if_splits)
qed

lemma op30_keeps: "[] \<notin> queue_keys st \<Longrightarrow> keeps st (op30_step E body st)"
  by (rule keeps_frame) (simp_all add: op30_step_def Let_def split: prod.split)

lemma recv_step_keeps:
  assumes "recv_step E gate b st = Done t" and "[] \<notin> queue_keys st"
  shows "keeps st (turn_state t)"
proof (cases b)
  case (Cons op body)
  consider "op = 0" | "op = 30" | "op = 100" | "op \<noteq> 0" "op \<noteq> 30" "op \<noteq> 100" by blast
  then show ?thesis
  proof cases
    case 3
    then show ?thesis
      using assms Cons op100_keeps [OF _ assms(2)] by (simp add: recv_step_def parse_zero)
  next
    case 4
    then show ?thesis using assms Cons by (auto simp: recv_step_def intro!: keeps_frame split: if_splits)
  qed (use assms Cons in \<open>auto simp: recv_step_def intro: comm_keeps op30_keeps\<close>)
qed (use assms in \<open>simp add: recv_step_def\<close>)

lemma msg_chan_recv_keeps:
  "msg_chan_recv E bs st = Done t \<Longrightarrow> [] \<notin> queue_keys st \<Longrightarrow> keeps st (turn_state t)"
proof (induction E bs st rule: msg_chan_recv.induct)
  case (1 E st)
  then show ?case by (auto simp: keeps_def)
next
  case (2 E gate b bs st)
  from "2.prems"(1) obtain t1 where t1: "recv_step E gate b st = Done t1"
    and rest: "(case t1 of Continue st' \<Rightarrow> msg_chan_recv E bs st' | Return st' \<Rightarrow> Done (Return st')) = Done t"
    by (auto simp: outcome_simps)
  have k: "keeps st (turn_state t1)" by (rule recv_step_keeps [OF t1 "2.prems"(2)])
  show ?case
  proof (cases t1)
    case (Continue st')
    with k have "[] \<notin> queue_keys st'" by (simp add: keeps_def)
    with "2.IH" rest Continue k show ?thesis
      by (auto intro: keeps_trans)
  next
    case (Return st')
    with rest k show ?thesis by auto
  qed
qed

subsection \<open>A concrete environment\<close>

text \<open>Messages are five bytes here: timestamp, atomic flag, operation, signature, content.\<close>

definition demo_env :: ws_env where
  "demo_env = \<lparr>
     j_uint64 = (\<lambda>b _. ucast (b ! 0)),
     j_int = (\<lambda>b _. int (unat (b ! 2)) * 100),
     j_bool = (\<lambda>b _. b ! 1 = 1),
     j_string = (\<lambda>b _. [char_of_byte (b ! 3)]),
     j_ack = (\<lambda>_. \<lparr>ack_Timestamp = 0, ack_Signature = ''''\<rparr>),
     j_token = (\<lambda>b. \<lparr>at_Token = to_str b, at_PrevWSID = ''''\<rparr>),
     j_marshal = (\<lambda>m. Some [word_of_int (Op m)]),
     j_marshal_state = (\<lambda>_. Some [1]),
     j_unmarshal_state = (\<lambda>_. (\<lparr>LastTimestamp = 0, MQ = None\<rparr>, True)),
     write_ok = (\<lambda>_. True),
     ws_live = True,
     flush_sort = sort_key (\<lambda>b. ucast (b ! 0) :: u64)\<rparr>"

lemma demo_env_simps [simp]:
  "timestamp_of demo_env p = ucast (p ! 0)" "write_ok demo_env i"
  "j_bool demo_env p path = (p ! 1 = 1)" "j_string demo_env p path = [char_of_byte (p ! 3)]"
  "message_key demo_env p = char_of_byte (p ! 3) # format_uint (ucast (p ! 0))"
  "j_int demo_env p path = int (unat (p ! 2)) * 100" "j_marshal demo_env m = Some [word_of_int (Op m)]"
  by (simp_all add: demo_env_def timestamp_of_def message_key_def)

lemma demo_env_sorts: "flush_sorts demo_env"
  by (simp add: flush_sorts_def timestamp_of_def [abs_def] demo_env_def)

definition new_receiver :: receiver where
  "new_receiver = \<lparr>last_timestamp = 0, message_queue = Some [],
     sock = \<lparr>written = [], closes = 0, problems = []\<rparr>, router_calls = [], timers = 0\<rparr>"

subsection \<open>Properties\<close>

text \<open>C35: an acknowledgement removes nothing. Whatever key a client acknowledges, the goroutine's state
  is unchanged: the acknowledged message stays in the queue, because the key that is deleted is that of
  a variable no statement assigns. (Keys are never empty, as the next property shows.)\<close>

theorem acknowledgement_removes_nothing:
  assumes "key \<noteq> ''FLUSH''" and "key \<noteq> ''SET_TIMER''" and "[] \<notin> queue_keys st"
  shows "recv_step E gate (comm_msg key) st = Done (Continue st)"
  using comm_ack [OF assms] by (simp add: recv_step_comm)

theorem acknowledgement_removes_nothing_witness:
  "recv_step demo_env 1 (comm_msg ''A5'') (new_receiver\<lparr>message_queue := Some [(''A5'', [5, 0, 2, 65, 0])]\<rparr>)
     = Done (Continue (new_receiver\<lparr>message_queue := Some [(''A5'', [5, 0, 2, 65, 0])]\<rparr>))"
  by (rule acknowledgement_removes_nothing) (simp_all add: queue_keys_def queued_def)

text \<open>C20: the goroutine forgets no message and its clock does not run back. Over any sequence of
  commands and router operations, with any gate, the keys in the queue stay in the queue, no key is
  empty, and the last timestamp does not decrease.\<close>

theorem session_keeps_messages:
  assumes "msg_chan_recv E bs st = Done t" and "[] \<notin> queue_keys st"
  shows "queue_keys st \<subseteq> queue_keys (turn_state t) \<and> [] \<notin> queue_keys (turn_state t)
     \<and> last_timestamp st \<le> last_timestamp (turn_state t)"
  using msg_chan_recv_keeps [OF assms] by (simp add: keeps_def)

theorem session_keeps_messages_witness:
  "\<exists>t. msg_chan_recv demo_env [(0, 100 # [5, 0, 2, 65, 0]), (1, comm_msg ''FLUSH''), (1, comm_msg ''A5'')] new_receiver = Done t
     \<and> [] \<notin> queue_keys (turn_state t)"
proof -
  let ?bs = "[(0, 100 # [5, 0, 2, 65, 0]), (1, comm_msg ''FLUSH''), (1, comm_msg ''A5'')]"
  have "\<exists>t. msg_chan_recv demo_env ?bs new_receiver = Done t"
    using flush_step [OF demo_env_sorts, of "accepted demo_env [5, 0, 2, 65, 0] [] new_receiver"]
    by (auto simp: recv_step_100 recv_step_comm op100_accept stale_def new_receiver_def comm_step_def)
  then obtain t where t: "msg_chan_recv demo_env ?bs new_receiver = Done t" ..
  show ?thesis
    using session_keeps_messages [OF t] t by (simp add: new_receiver_def queue_keys_def queued_def)
qed

lemma msg_chan_recv_append:
  "msg_chan_recv E (bs @ cs) st = and_then (msg_chan_recv E bs st)
     (\<lambda>t. case t of Continue st' \<Rightarrow> msg_chan_recv E cs st' | Return st' \<Rightarrow> Done (Return st'))"
proof (induction bs arbitrary: st)
  case (Cons x bs)
  obtain gate b where x: "x = (gate, b)" by (cases x)
  show ?case
    unfolding x by (cases "recv_step E gate b st") (auto simp: Cons.IH split: turn.split)
qed simp

text \<open>A run of operations 100 behind a closed gate appends the messages to the queue.\<close>

lemma closed_gate_run:
  assumes "message_queue st = Some q" and "distinct (map fst q @ map (message_key E) ps)"
  shows "\<exists>ts. msg_chan_recv E (map (\<lambda>p. (0, 100 # p)) ps) st = Done (Continue
    (st\<lparr>last_timestamp := ts, message_queue := Some (q @ map (\<lambda>p. (message_key E p, p)) ps)\<rparr>))"
  using assms
proof (induction ps arbitrary: st q)
  case Nil
  then have "st\<lparr>last_timestamp := last_timestamp st, message_queue := Some (q @ [])\<rparr> = st"
    by (cases st) simp
  then show ?case by (intro exI [of _ "last_timestamp st"]) simp
next
  case (Cons p ps)
  let ?st = "accepted E p q st"
  from Cons.prems(2) have new: "message_key E p \<notin> fst ` set q" by auto
  then have q': "message_queue ?st = Some (q @ [(message_key E p, p)])"
    by (simp add: accepted_def update_new)
  have "recv_step E 0 (100 # p) st = Done (Continue ?st)"
    using op100_accept [of E 0 p st q] Cons.prems(1) by (simp add: recv_step_100 stale_def)
  moreover obtain ts where "msg_chan_recv E (map (\<lambda>p. (0, 100 # p)) ps) ?st = Done (Continue
    (?st\<lparr>last_timestamp := ts, message_queue := Some ((q @ [(message_key E p, p)]) @ map (\<lambda>p. (message_key E p, p)) ps)\<rparr>))"
    using Cons.IH [OF q'] Cons.prems(2) by auto
  ultimately have "msg_chan_recv E (map (\<lambda>p. (0, 100 # p)) (p # ps)) st = Done (Continue
      (?st\<lparr>last_timestamp := ts, message_queue := Some ((q @ [(message_key E p, p)]) @ map (\<lambda>p. (message_key E p, p)) ps)\<rparr>))"
    by simp
  then show ?case by (intro exI [of _ ts]) (simp add: accepted_def)
qed

text \<open>C1: nothing received behind a closed gate is lost. When messages with different keys arrive
  while the gate is closed and the client then opens it, the flush writes exactly these messages and the
  ones queued before, each once, in ascending order of their timestamps, and keeps the goroutine running
  (all websocket writes succeeding); the messages stay in the queue.\<close>

theorem closed_gate_messages_are_flushed:
  assumes "flush_sorts E" and "\<And>i. write_ok E i" and "message_queue st = Some q"
    and "distinct (map fst q @ map (message_key E) ps)"
  shows "\<exists>st' out. msg_chan_recv E (map (\<lambda>p. (0, 100 # p)) ps @ [(g, comm_msg ''FLUSH'')]) st = Done (Continue st')
     \<and> written (sock st') = written (sock st) @ out
     \<and> mset out = mset (map snd q @ ps) \<and> sorted (map (timestamp_of E) out)
     \<and> message_queue st' = Some (q @ map (\<lambda>p. (message_key E p, p)) ps)"
proof -
  obtain ts where run: "msg_chan_recv E (map (\<lambda>p. (0, 100 # p)) ps) st = Done (Continue
    (st\<lparr>last_timestamp := ts, message_queue := Some (q @ map (\<lambda>p. (message_key E p, p)) ps)\<rparr>))"
    (is "_ = Done (Continue ?st)") using closed_gate_run [OF assms(3,4)] by blast
  have "map snd (queued ?st) = map snd q @ ps"
    by (simp add: queued_def comp_def)
  moreover obtain out ws where
    "comm_step E ''FLUSH'' ?st = Continue (?st\<lparr>sock := ws\<rparr>)" "written ws = written (sock ?st) @ out"
    "mset out = mset (map snd (queued ?st))" "sorted (map (timestamp_of E) out)"
    using flush_step [OF assms(1,2), of ?st] by blast
  ultimately show ?thesis
    by (intro exI [of _ "?st\<lparr>sock := ws\<rparr>"] exI [of _ out])
      (simp add: msg_chan_recv_append run recv_step_comm)
qed

theorem closed_gate_messages_are_flushed_witness:
  "\<exists>st'. msg_chan_recv demo_env [(0, 100 # [9, 0, 2, 65, 1]), (0, 100 # [4, 0, 3, 66, 2]), (1, comm_msg ''FLUSH'')] new_receiver
        = Done (Continue st')
     \<and> mset (written (sock st')) = {#[9, 0, 2, 65, 1], [4, 0, 3, 66, 2]#}
     \<and> sorted (map (timestamp_of demo_env) (written (sock st')))"
proof -
  let ?ps = "[[9, 0, 2, 65, 1], [4, 0, 3, 66, 2]] :: bytes list"
  have d: "distinct (map fst [] @ map (message_key demo_env) ?ps)"
    by simp
  have q: "message_queue new_receiver = Some []" and w: "written (sock new_receiver) = []"
    by (simp_all add: new_receiver_def)
  show ?thesis
    using closed_gate_messages_are_flushed [OF demo_env_sorts _ q d, of 1] unfolding w by auto
qed

text \<open>C7: what the user sees of a message behind an open gate. A message that is newer than everything
  before it, or atomic, is queued under its key and written to the websocket unchanged; any other one is
  dropped, and replaced by a "refresh relations" text for operations 200 to 299, by a "refresh chain"
  text with the message's chain for 300 to 399, and by nothing for the rest.\<close>

theorem open_gate_message:
  assumes "message_queue st = Some q" and "\<And>i. write_ok E i" and "\<And>m. j_marshal E m \<noteq> None"
  shows "\<exists>st'. recv_step E 1 (100 # p) st = Done (Continue st')
    \<and> (if timestamp_of E p \<le> last_timestamp st \<and> \<not> j_bool E p [''Atomic'']
       then message_queue st' = message_queue st \<and> last_timestamp st' = last_timestamp st
         \<and> written (sock st') = written (sock st)
           @ (let op = j_int E p [''Op''] in
              if 200 \<le> op \<and> op < 300 then [the (j_marshal E \<lparr>Op = 3101, Data = NoData\<rparr>)]
              else if 300 \<le> op \<and> op < 400 then [the (j_marshal E \<lparr>Op = 3102,
                Data = RefreshChain \<lparr>rc_ChainID = j_string E p [''Data'', ''ChainID'']\<rparr>\<rparr>)]
              else [])
       else message_queue st' = Some (AList.update (message_key E p) p q)
         \<and> last_timestamp st' = max (last_timestamp st) (timestamp_of E p)
         \<and> written (sock st') = written (sock st) @ [p])"
proof (cases "stale E 1 p st")
  case True
  have "write_message E code d ws = (True, ws\<lparr>written := written ws @ [the (j_marshal E \<lparr>Op = code, Data = d\<rparr>)]\<rparr>)"
    for code d ws
    using assms(2) assms(3) [of "\<lparr>Op = code, Data = d\<rparr>"]
    by (auto simp: write_message_def ws_write_def construct_ws_message_def)
  then show ?thesis
    using True by (auto simp: recv_step_100 op100_step_def stale_def Let_def)
next
  case False
  then show ?thesis
    using op100_accept [OF False assms(1)] assms(2)
    by (auto simp: recv_step_100 stale_def accepted_def ws_write_def Let_def)
qed

theorem open_gate_message_witness:
  "\<exists>st'. recv_step demo_env 1 (100 # [3, 0, 2, 65, 1]) (new_receiver\<lparr>last_timestamp := 7\<rparr>) = Done (Continue st')
     \<and> written (sock st') = [[word_of_int 3101]]"
  using open_gate_message [of "new_receiver\<lparr>last_timestamp := 7\<rparr>" "[]" demo_env "[3, 0, 2, 65, 1]"]
  by (auto simp: new_receiver_def)

end
