(* ===== verification/Client_Props.thy ===== *)
theory Client_Props imports Client Session_Props begin

text \<open>
  Who gets past the token handshake, what survives the hand-over of a session between two
  connections, which commands a client can send to its connection goroutine, and what is left of
  a session whose router handshake failed.
\<close>

subsection \<open>The token handshake\<close>

text \<open>What a turn must bring to be admitted: a message of operation 1001 in time, with a token that
  is parsed as valid and names the user and the session.\<close>

definition answered :: "ws_env \<Rightarrow> auth_turn \<Rightarrow> auth_token_data option" where
  "answered E t = (case msg_read t of
     None \<Rightarrow> None
   | Some m \<Rightarrow> if deadline_ok t \<and> j_int E m [''Op''] = 1001 \<and> at_Token (j_token E m) \<noteq> [] then Some (j_token E m) else None)"

definition admits :: "ws_env \<Rightarrow> auth_turn \<Rightarrow> (string \<times> string \<times> string) option" where
  "admits E t = (case answered E t of
     None \<Rightarrow> None
   | Some res \<Rightarrow> (case jwt_parse t (at_Token res) of
       JwtToken True (Some user) \<Rightarrow>
         (case (user ''id'', user ''session_id'') of (Some i, Some s) \<Rightarrow> Some (i, s, at_PrevWSID res) | _ \<Rightarrow> None)
     | _ \<Rightarrow> None))"

definition token_expired :: "ws_env \<Rightarrow> auth_turn \<Rightarrow> bool" where
  "token_expired E t = (case answered E t of None \<Rightarrow> False | Some res \<Rightarrow> jwt_parse t (at_Token res) = JwtExpired)"

lemma write_message_ok: "(\<And>i. write_ok E i) \<Longrightarrow> fst (write_message E c d ws)"
  by (simp add: write_message_def ws_write_def split: option.split)

lemma parse_token_Authenticated:
  "parse_token jwt tok prev ws = Done (Authenticated u s p, ws') \<longleftrightarrow>
     ws' = ws \<and> p = prev \<and> (\<exists>user. jwt tok = JwtToken True (Some user) \<and> user ''id'' = Some u \<and> user ''session_id'' = Some s)"
  by (auto simp: parse_token_def split: jwt_result.split option.splits)

lemma parse_token_not_waiting: "parse_token jwt tok prev ws \<noteq> Done (AuthWaiting, ws')"
  by (auto simp: parse_token_def split: jwt_result.split option.splits)

text \<open>One turn, when the websocket takes every write: admitted, expired (then the next turn, unless
  this was the second), or refused.\<close>

lemma auth_turn_ok:
  assumes "\<And>i. write_ok E i"
  shows "(\<exists>ws'. auth_client E n (t # ts) ws = Done (Authenticated u s p, ws')) \<longleftrightarrow>
    admits E t = Some (u, s, p)
    \<or> (token_expired E t \<and> n + 1 \<noteq> 2 \<and> (\<exists>ws' ws2. ws2 = snd (write_message E 3001 NoData (snd (write_message E 1001 NoData ws)))
        \<and> auth_client E (n + 1) ts ws2 = Done (Authenticated u s p, ws')))"
proof -
  obtain ws1 where w: "write_message E 1001 NoData ws = (True, ws1)"
    using write_message_ok [OF assms, of 1001 NoData ws] by (cases "write_message E 1001 NoData ws") auto
  consider (no) "answered E t = None" | (res) res m where "answered E t = Some res" "msg_read t = Some m"
      "deadline_ok t" "j_int E m [''Op''] = 1001" "at_Token res \<noteq> []" "res = j_token E m"
    by (cases "answered E t") (auto simp: answered_def split: option.splits if_splits)
  then show ?thesis
  proof cases
    case no
    then have "\<not> (\<exists>ws'. auth_client E n (t # ts) ws = Done (Authenticated u s p, ws'))"
      using w by (auto simp: answered_def Let_def split: option.splits if_splits)
    with no show ?thesis by (simp add: admits_def token_expired_def)
  next
    case res
    then show ?thesis
      using w by (auto simp: Let_def admits_def token_expired_def parse_token_Authenticated
          split: jwt_result.splits option.splits bool.splits)
  qed
qed

text \<open>C29: only a valid token gets in, within two tries. With a working websocket, authentication
  succeeds with a user id, session id and previous websocket id exactly when the first answer brings
  them in a valid token, or the first token is expired and the second answer brings them.\<close>

theorem auth_client_exact:
  assumes "\<And>i. write_ok E i"
  shows "(\<exists>ws'. auth_client E 0 (t1 # t2 # ts) ws = Done (Authenticated u s p, ws')) \<longleftrightarrow>
    admits E t1 = Some (u, s, p) \<or> (token_expired E t1 \<and> admits E t2 = Some (u, s, p))"
  by (simp add: auth_turn_ok [OF assms] del: auth_client.simps)

lemma parse_token_ends: "parse_token jwt tok prev ws \<noteq> Blocked"
  by (auto simp: parse_token_def split: jwt_result.split option.splits)

text \<open>Each turn decides, or it is not the second and goes on.\<close>

lemma auth_turn_cases:
  "(\<exists>r. (\<forall>ts. auth_client E n (t # ts) ws = r) \<and> r \<noteq> Blocked \<and> (\<forall>ws'. r \<noteq> Done (AuthWaiting, ws')))
   \<or> (n + 1 \<noteq> 2 \<and> (\<exists>ws2. \<forall>ts. auth_client E n (t # ts) ws = auth_client E (n + 1) ts ws2))"
proof -
  obtain ok ws1 where w: "write_message E 1001 NoData ws = (ok, ws1)" by fastforce
  show ?thesis
  proof (cases "ok \<and> deadline_ok t")
    case False
    with w show ?thesis by (cases ok) (auto simp: Let_def)
  next
    case True
    show ?thesis
    proof (cases "msg_read t")
      case None
      with w True show ?thesis by (simp add: Let_def)
    next
      case (Some m)
      let ?res = "j_token E m"
      show ?thesis
      proof (cases "j_int E m [''Op''] \<noteq> 1001 \<or> at_Token ?res = []")
        case bad: True
        with w True Some show ?thesis by (cases "j_int E m [''Op''] = 1001") (auto simp: Let_def)
      next
        case False
        with w True Some show ?thesis
          by (cases "jwt_parse t (at_Token ?res) = JwtExpired"; cases "n + 1 = 2")
            (auto simp: Let_def parse_token_ends parse_token_not_waiting)
      qed
    qed
  qed
qed

text \<open>Authentication ends. Whatever the client and the websocket do, the loop has returned (or
  panicked on malformed claims) after two turns, and later turns do not matter.\<close>

theorem auth_client_ends:
  "auth_client E 0 (t1 # t2 # ts) ws = auth_client E 0 [t1, t2] ws
 \<and> auth_client E 0 (t1 # t2 # ts) ws \<noteq> Done (AuthWaiting, ws')
 \<and> auth_client E 0 (t1 # t2 # ts) ws \<noteq> Blocked"
proof -
  have second: "auth_client E 1 (t2 # ts) w = auth_client E 1 [t2] w
      \<and> auth_client E 1 [t2] w \<noteq> Done (AuthWaiting, ws') \<and> auth_client E 1 [t2] w \<noteq> Blocked" for w
    using auth_turn_cases [of E 1 t2 w] by (auto simp del: auth_client.simps)
  from auth_turn_cases [of E 0 t1 ws] show ?thesis
  proof (elim disjE exE conjE)
    fix ws2
    assume "\<forall>ts. auth_client E 0 (t1 # ts) ws = auth_client E (0 + 1) ts ws2"
    then show ?thesis using second [of ws2] by (simp del: auth_client.simps)
  qed (simp del: auth_client.simps)
qed


text \<open>A JSON reader and a token parser for the witnesses: every message is operation 1001 and its
  text is the token.\<close>

definition token_env :: ws_env where
  "token_env = demo_env\<lparr>j_int := (\<lambda>_ _. 1001), j_token := (\<lambda>b. \<lparr>at_Token = to_str b, at_PrevWSID = ''w0''\<rparr>)\<rparr>"

definition token_turn :: "string \<Rightarrow> auth_turn" where
  "token_turn tok = \<lparr>deadline_ok = True, msg_read = Some (to_bytes tok),
     jwt_parse = (\<lambda>t. if t = ''good'' then JwtToken True (Some [''id'' \<mapsto> ''u1'', ''session_id'' \<mapsto> ''s1''])
       else if t = ''old'' then JwtExpired else JwtInvalid)\<rparr>"

definition new_websocket :: websocket where
  "new_websocket = \<lparr>written = [], closes = 0, problems = []\<rparr>"

theorem auth_client_exact_witness:
  "(\<exists>ws'. auth_client token_env 0 [token_turn ''old'', token_turn ''good''] new_websocket = Done (Authenticated ''u1'' ''s1'' ''w0'', ws'))
 \<and> \<not> (\<exists>ws'. auth_client token_env 0 [token_turn ''bad'', token_turn ''good''] new_websocket = Done (Authenticated ''u1'' ''s1'' ''w0'', ws'))"
proof -
  have "write_ok token_env i" for i by (simp add: token_env_def)
  note auth = auth_client_exact [of token_env, OF this]
  show ?thesis
    unfolding auth by (simp add: admits_def token_expired_def answered_def token_env_def token_turn_def)
qed

subsection \<open>Handing a session over\<close>

lemma parse_one_last: "s \<noteq> [] \<Longrightarrow> byte_to_params_and_payload (to_bytes s) 1 False = ([s], [], None)"
  using parse_body [of "to_bytes s" 1 False] parse_spec_one(2) [of "to_bytes s"] by simp

lemma parse_one_payload:
  "delim_free s \<Longrightarrow> byte_to_params_and_payload (to_bytes s @ DEFAULT_DELIM # pl) 1 True = ([s], pl, None)"
  using parse_body [of "to_bytes s @ DEFAULT_DELIM # pl" 1 True] parse_spec_one(1) [of "to_bytes s @ DEFAULT_DELIM # pl"]
  by (simp add: split_field_append)

text \<open>C23: a session survives a reconnection. Operation 30 answers the router with the marshalled clock
  and queue and closes the old websocket. When the router passes that text on in operation 31, after a
  positive answer 21, the new connection's goroutine starts with the old clock and queue, and the client
  is told that it need not refresh (for any JSON library that reads back the state it wrote).\<close>

theorem session_handed_over:
  assumes "\<And>s b. j_marshal_state E s = Some b \<Longrightarrow> j_unmarshal_state E b = (s, True)"
    and "j_marshal_state E \<lparr>LastTimestamp = last_timestamp st, MQ = message_queue st\<rparr> = Some json"
    and "delim_free new_sock" and "new_ws \<noteq> []"
    and "recover_user_session h gens u s prev r = Some (Done ((w, Some ch), r1, calls))" and "prev \<noteq> []"
    and "message_queue st = Some q"
  shows "recv_step E gate (30 # op_body (Some [new_sock, new_ws]) None) st = Done (Continue (st\<lparr>
      router_calls := router_calls st @ [(30, Some json, [new_sock, new_ws, ''1''])], sock := ws_close E (sock st)\<rparr>))
    \<and> (\<exists>c. connect_user E h gens others
          [21 # to_bytes ''1'', 31 # op_body (Some [''1'']) (Some json)] u s prev r ws = Some (Done c)
      \<and> c_chan c = Some ch \<and> c_WSID c = w \<and> \<not> c_refresh c
      \<and> last_timestamp (start_receiver c) = last_timestamp st
      \<and> message_queue (start_receiver c) = message_queue st)"
proof
  show "recv_step E gate (30 # op_body (Some [new_sock, new_ws]) None) st = Done (Continue (st\<lparr>
      router_calls := router_calls st @ [(30, Some json, [new_sock, new_ws, ''1''])], sock := ws_close E (sock st)\<rparr>))"
    using assms(2-4) by (simp add: recv_step_def op30_step_def get_prev_state_def parse_two Let_def)
  have "session_handshake E prev [21 # to_bytes ''1'', 31 # op_body (Some [''1'']) (Some json)]
      = Done (HsReady \<lparr>LastTimestamp = last_timestamp st, MQ = message_queue st\<rparr> False True)"
    using assms(6) assms(1) [OF assms(2)] parse_one_last [of "''1''"] parse_one_payload [of "''1''" json]
    by (simp add: session_handshake_def recv_prev_state_def op_body_def delim_free_def)
  then show "\<exists>c. connect_user E h gens others
          [21 # to_bytes ''1'', 31 # op_body (Some [''1'']) (Some json)] u s prev r ws = Some (Done c)
      \<and> c_chan c = Some ch \<and> c_WSID c = w \<and> \<not> c_refresh c
      \<and> last_timestamp (start_receiver c) = last_timestamp st
      \<and> message_queue (start_receiver c) = message_queue st"
    using assms(5-7) by (simp add: connect_user_def start_receiver_def)
qed


definition old_state :: ws_state where
  "old_state = \<lparr>LastTimestamp = 9, MQ = Some [(''A9'', [9, 0, 2, 65, 1])]\<rparr>"

definition handover_env :: ws_env where
  "handover_env = demo_env\<lparr>j_marshal_state := (\<lambda>s. if s = old_state then Some [123, 58, 125] else None),
     j_unmarshal_state := (\<lambda>_. (old_state, True))\<rparr>"

text \<open>A registry with the connection \<open>w2\<close> on the first channel.\<close>

definition fresh_conn :: registry where
  "fresh_conn = put_entry (get_shard (\<lambda>_. 3) ''w2'') ''w2'' (Some 0) (ws_id_chan_table\<lparr>channels := [\<lparr>buf = [], closed = False\<rparr>]\<rparr>)"

lemma create_fresh:
  "create_connection (\<lambda>_. 3) [Some ''w2''] ws_id_chan_table = Some (Done ((''w2'', Some 0), fresh_conn))"
proof -
  have "\<not> locked (shards ws_id_chan_table ! get_shard (\<lambda>_. 3) ''w2'')"
    by (rule reg_ok_unlocked [OF reg_ok_init])
  moreover have "table_lookup (\<lambda>_. 3) ws_id_chan_table ''w2'' = None" and "channels ws_id_chan_table = []"
    by (simp_all add: ws_id_chan_table_def table_lookup_def)
  ultimately show ?thesis using create_first_try [of ws_id_chan_table "\<lambda>_. 3" "''w2''" "[]"]
    by (simp add: fresh_conn_def)
qed

lemma fresh_conn_facts: "reg_ok (\<lambda>_. 3) fresh_conn" "table_lookup (\<lambda>_. 3) fresh_conn ''w2'' = Some 0"
proof -
  have init: "channels ws_id_chan_table = []" "all_shards (ws_id_chan_table\<lparr>channels := [\<lparr>buf = [], closed = False\<rparr>]\<rparr>)"
    by (simp_all add: ws_id_chan_table_def all_shards_def)
  show "reg_ok (\<lambda>_. 3) fresh_conn"
    using reg_ok_insert [OF reg_ok_init, of "ws_id_chan_table\<lparr>channels := [\<lparr>buf = [], closed = False\<rparr>]\<rparr>" "\<lambda>_. 3" "''w2''"]
    by (simp add: fresh_conn_def init)
  show "table_lookup (\<lambda>_. 3) fresh_conn ''w2'' = Some 0"
    using lookup_put_entry [OF init(2), of "\<lambda>_. 3" "''w2''" "Some 0"] by (simp add: fresh_conn_def)
qed

lemma recover_fresh:
  "recover_user_session (\<lambda>_. 3) [Some ''w2''] u s prev ws_id_chan_table
    = Some (Done ((''w2'', Some 0), fresh_conn, [(21, None, [u, s, ''w2'', prev])]))"
  by (simp add: recover_user_session_def create_fresh)

theorem session_handed_over_witness:
  "\<exists>c. connect_user handover_env (\<lambda>_. 3) [Some ''w2''] id [21 # to_bytes ''1'', 31 # op_body (Some [''1'']) (Some [123, 58, 125])]
        ''u1'' ''s1'' ''w1'' ws_id_chan_table new_websocket = Some (Done c)
      \<and> last_timestamp (start_receiver c) = 9 \<and> message_queue (start_receiver c) = Some [(''A9'', [9, 0, 2, 65, 1])]"
proof -
  let ?st = "new_receiver\<lparr>last_timestamp := 9, message_queue := MQ old_state\<rparr>"
  have m: "j_unmarshal_state handover_env b = (s, True)" if "j_marshal_state handover_env s = Some b" for s b
    using that by (simp add: handover_env_def split: if_splits)
  have json: "j_marshal_state handover_env \<lparr>LastTimestamp = last_timestamp ?st, MQ = message_queue ?st\<rparr> = Some [123, 58, 125]"
    by (simp add: handover_env_def old_state_def)
  have q: "message_queue ?st = Some [(''A9'', [9, 0, 2, 65, 1])]" by (simp add: old_state_def)
  note handed = session_handed_over [OF m json _ _ recover_fresh _ q, where new_sock = "''SOCK_b''" and new_ws = "''w2''"
      and prev = "''w1''" and u = "''u1''" and s = "''s1''" and others = id and ws = new_websocket]
  show ?thesis using handed by (auto simp: delim_free_def q)
qed

subsection \<open>Acknowledgements as commands\<close>

lemma append_eq_same_length: "length a = length b \<Longrightarrow> a @ c = b @ d \<longleftrightarrow> a = b \<and> c = d"
  by simp

text \<open>An acknowledgement names the message it means. For signatures of one length, the key a client
  acknowledges is the key of a queued message exactly when signature and timestamp agree (as long as
  the timestamp is not negative), and two messages have one key exactly when they agree on both.\<close>

theorem acknowledgement_names_message:
  assumes "length (ack_Signature d) = length (j_string E m [''Signature''])"
    and "length (j_string E m' [''Signature'']) = length (j_string E m [''Signature''])"
    and "0 \<le> sint (ack_Timestamp d)"
  shows "(ack_key d = message_key E m \<longleftrightarrow>
        ack_Signature d = j_string E m [''Signature''] \<and> ack_Timestamp d = timestamp_of E m)
    \<and> (message_key E m' = message_key E m \<longleftrightarrow>
        j_string E m' [''Signature''] = j_string E m [''Signature''] \<and> timestamp_of E m' = timestamp_of E m)"
  using assms by (simp add: ack_key_def message_key_def format_int_eq_uint append_eq_same_length)

theorem acknowledgement_names_message_witness:
  "ack_key \<lparr>ack_Timestamp = 9, ack_Signature = [char_of_byte 65]\<rparr> = message_key demo_env [9, 0, 2, 65, 1]"
  using acknowledgement_names_message [of "\<lparr>ack_Timestamp = 9, ack_Signature = [char_of_byte 65]\<rparr>" demo_env
      "[9, 0, 2, 65, 1]" "[9, 0, 2, 65, 1]"]
  by simp


subsection \<open>After a failed session handshake\<close>

text \<open>A refused session is used all the same. When the router refuses a session (or answers with
  anything unexpected), the session is removed, its channel is closed and the router is told; but
  \<open>connect_user\<close> returns normally and, as long as the greeting can be written, the client is still
  served: its next command is sent on the closed channel, which panics, and an operation 100 still in the
  channel is stored in a nil map, which panics too.\<close>

theorem refused_session_goes_on:
  assumes "(if prev = [] then add_user_session h gens u s r else recover_user_session h gens u s prev r)
      = Some (Done ((w, Some ch), r1, calls))"
    and "session_handshake E prev recvs = Done (HsFailed problem)"
    and "reg_ok h (others r1)" and "table_lookup h (others r1) w = Some ch"
  shows "\<exists>c. connect_user E h gens others recvs u s prev r ws = Some (Done c)
    \<and> c_router c = calls @ [(22, None, [u, s, w])] \<and> table_lookup h (c_reg c) w = None
    \<and> chan_send ch (comm_msg cmd) (c_reg c) = Panicked SendOnClosed
    \<and> recv_step E 0 (100 # p) (start_receiver c) = Panicked NilMapWrite
    \<and> ((\<forall>i. write_ok E i) \<longrightarrow> snd (snd (greet_client E c)))"
proof -
  obtain r2 where r2: "delete_connection h w (others r1) = Done r2" "table_lookup h r2 w = None" "closed (channels r2 ! ch)"
    using reg_ok_delete [OF assms(3,4)] reg_ok_open [OF assms(3,4)] reg_ok_all_shards [OF assms(3)]
    by (simp add: lookup_put_entry)
  let ?c = "\<lparr>c_chan = Some ch, c_WSID = w, c_state = empty_state, c_refresh = True, c_reg = r2,
     c_router = calls @ [(22, None, [u, s, w])], c_ws = handleWebsocketError problem ws\<rparr>"
  have "connect_user E h gens others recvs u s prev r ws = Some (Done ?c)"
    using assms(1,2) r2(1) by (simp add: connect_user_def remove_user_session_def)
  moreover have "recv_step E 0 (100 # p) (start_receiver ?c) = Panicked NilMapWrite"
    by (simp add: recv_step_100 op100_nil_queue stale_def start_receiver_def empty_state_def)
  moreover have "snd (snd (greet_client E ?c))" if "\<forall>i. write_ok E i"
  proof -
    have "fst (write_message E c d ws')" for c d ws' using that by (intro write_message_ok) blast
    then show ?thesis by (simp add: greet_client_def case_prod_beta Let_def)
  qed
  ultimately show ?thesis
    using r2 by (intro exI [of _ ?c]) (simp add: chan_send_def)
qed

theorem refused_session_goes_on_witness:
  "\<exists>c. connect_user demo_env (\<lambda>_. 3) [Some ''w2''] id [20 # to_bytes ''0''] ''u1'' ''s1'' '''' ws_id_chan_table new_websocket = Some (Done c)
     \<and> chan_send 0 (comm_msg ''FLUSH'') (c_reg c) = Panicked SendOnClosed"
proof -
  have refused: "session_handshake demo_env '''' [20 # to_bytes ''0''] = Done (HsFailed ''add_user_session'')"
    using parse_one_last [of "''0''"] by (simp add: session_handshake_def)
  have opened: "(if ('''' :: string) = [] then add_user_session (\<lambda>_. 3) [Some ''w2''] ''u1'' ''s1'' ws_id_chan_table
      else recover_user_session (\<lambda>_. 3) [Some ''w2''] ''u1'' ''s1'' '''' ws_id_chan_table)
      = Some (Done ((''w2'', Some 0), fresh_conn, [(20, None, [''u1'', ''s1'', ''w2''])]))"
    by (simp add: add_user_session_def create_fresh)
  have ok: "reg_ok (\<lambda>_. 3) (id fresh_conn)" and entry: "table_lookup (\<lambda>_. 3) (id fresh_conn) ''w2'' = Some 0"
    using fresh_conn_facts by simp_all
  show ?thesis
    using refused_session_goes_on [OF opened refused, of id, OF ok entry, of new_websocket "''FLUSH''"] by auto
qed

end
