(* ===== verification/Session_Steps.thy ===== *)
theory Session_Steps imports Client_Props begin

text \<open>
  A connected session as a system of goroutines: the reader (\<open>ClientSocket\<close>'s loop) works off the
  effects of its turn one by one, the router's reader delivers operations into the bounded channel,
  the connection goroutine (\<open>msg_chan_recv\<close>) takes them out, the removal of the session closes the
  channel. Every interleaving of these steps is a run.
\<close>

subsection \<open>The system\<close>

text \<open>\<open>delivered\<close> remembers the router's operations, \<open>removed\<close> that the session's entry is gone from
  the connection table (so that no delivery finds the channel any more).\<close>

record session =
  chan :: channel
  gate_state :: int
  goroutine :: turn
  todo :: "effect list"
  reading :: bool
  removed :: bool
  delivered :: "bytes list"

definition session_sock :: "session \<Rightarrow> websocket" where
  "session_sock s = sock (turn_state (goroutine s))"

fun turn_sock_update :: "(websocket \<Rightarrow> websocket) \<Rightarrow> turn \<Rightarrow> turn" where
  "turn_sock_update f (Continue st) = Continue (st\<lparr>sock := f (sock st)\<rparr>)"
| "turn_sock_update f (Return st) = Return (st\<lparr>sock := f (sock st)\<rparr>)"

text \<open>The router delivers nothing empty (see \<open>socket_op\<close>) and its operations do not have code 0.\<close>

inductive session_step :: "ws_env \<Rightarrow> session \<Rightarrow> session \<Rightarrow> bool" for E where
  read: "reading s \<Longrightarrow> todo s = [] \<Longrightarrow> reader_turn E ev = (effs, cont)
     \<Longrightarrow> session_step E s (s\<lparr>todo := effs, reading := cont\<rparr>)"
| store: "todo s = StoreGate g # es \<Longrightarrow> session_step E s (s\<lparr>todo := es, gate_state := g\<rparr>)"
| send: "todo s = SendComm m # es \<Longrightarrow> \<not> closed (chan s) \<Longrightarrow> length (buf (chan s)) < CHAN_SIZE
     \<Longrightarrow> session_step E s (s\<lparr>todo := es, chan := (chan s)\<lparr>buf := buf (chan s) @ [comm_msg m]\<rparr>\<rparr>)"
| write_ws: "todo s = WriteWs c d # es \<Longrightarrow>
     session_step E s (s\<lparr>todo := es, goroutine := turn_sock_update (snd \<circ> write_message E c d) (goroutine s)\<rparr>)"
| log: "todo s = LogProblem pr # es \<Longrightarrow>
     session_step E s (s\<lparr>todo := es, goroutine := turn_sock_update (handleWebsocketError pr) (goroutine s)\<rparr>)"
| remove: "todo s = RemoveSession # es \<Longrightarrow> session_step E s (s\<lparr>todo := es, removed := True\<rparr>)"
| expire: "0 < timers (turn_state (goroutine s)) \<Longrightarrow> session_step E s (s\<lparr>removed := True\<rparr>)"
| close: "removed s \<Longrightarrow> \<not> closed (chan s) \<Longrightarrow> session_step E s (s\<lparr>chan := (chan s)\<lparr>closed := True\<rparr>\<rparr>)"
| deliver: "\<not> removed s \<Longrightarrow> op \<noteq> 0 \<Longrightarrow> length (buf (chan s)) < CHAN_SIZE \<Longrightarrow>
     session_step E s (s\<lparr>chan := (chan s)\<lparr>buf := buf (chan s) @ [op # body]\<rparr>, delivered := delivered s @ [op # body]\<rparr>)"
| receive: "goroutine s = Continue st \<Longrightarrow> buf (chan s) = b # bs \<Longrightarrow> recv_step E (gate_state s) b st = Done t
     \<Longrightarrow> session_step E s (s\<lparr>chan := (chan s)\<lparr>buf := bs\<rparr>, goroutine := t\<rparr>)"
| finish: "goroutine s = Continue st \<Longrightarrow> buf (chan s) = [] \<Longrightarrow> closed (chan s)
     \<Longrightarrow> session_step E s (s\<lparr>goroutine := Return st\<rparr>)"

definition session_start :: "receiver \<Rightarrow> session" where
  "session_start st = \<lparr>chan = \<lparr>buf = [], closed = False\<rparr>, gate_state = 0, goroutine = Continue st,
     todo = [], reading = True, removed = False, delivered = []\<rparr>"

inductive session_run :: "ws_env \<Rightarrow> receiver \<Rightarrow> session \<Rightarrow> bool" for E st where
  start: "session_run E st (session_start st)"
| step: "session_run E st s \<Longrightarrow> session_step E s s' \<Longrightarrow> session_run E st s'"

lemma turn_sock_update_simps [simp]:
  "turn_state (turn_sock_update f t) = (turn_state t)\<lparr>sock := f (sock (turn_state t))\<rparr>"
  by (cases t) simp_all

subsection \<open>Which commands reach the connection goroutine\<close>

lemma digit_inject: "a < 10 \<Longrightarrow> b < 10 \<Longrightarrow> digit a = digit b \<Longrightarrow> a = b"
  by (metis of_char_digit add_left_cancel)

lemma last_decimal: "\<exists>d<10. last (decimal n) = digit d"
  by (subst decimal.simps) (auto intro: exI [of _ n] exI [of _ "n mod 10"])

lemma last_format_int: "\<exists>d<10. last (format_int n) = digit d \<and> format_int n \<noteq> []"
  using last_decimal [of "nat (- sint n)"] last_decimal [of "nat (sint n)"]
  by (auto simp: format_int_def)

lemma digit_codes: "d < 10 \<Longrightarrow> digit d \<noteq> CHR ''R'' \<and> digit d \<noteq> CHR ''H''"
  using of_char_digit [of d] by auto

lemma ack_key_not_command: "ack_key d \<noteq> ''FLUSH''" "ack_key d \<noteq> ''SET_TIMER''"
proof -
  obtain k where "k < 10" "last (format_int (ack_Timestamp d)) = digit k" "format_int (ack_Timestamp d) \<noteq> []"
    using last_format_int by blast
  then have "last (ack_key d) = digit k" by (simp add: ack_key_def)
  moreover have "last ''FLUSH'' = CHR ''H''" "last ''SET_TIMER'' = CHR ''R''" by simp_all
  ultimately show "ack_key d \<noteq> ''FLUSH''" "ack_key d \<noteq> ''SET_TIMER''"
    using digit_codes [OF \<open>k < 10\<close>] by metis+
qed

lemma comm_msg_inject [simp]: "comm_msg a = comm_msg b \<longleftrightarrow> a = b"
  by (simp add: comm_msg_def)

text \<open>Only the command starts a timer.\<close>

lemma flush_timers [simp]: "timers (turn_state (case x of (ok, ws) \<Rightarrow> if ok then Continue (st\<lparr>sock := ws\<rparr>) else Return (st\<lparr>sock := ws\<rparr>))) = timers st"
  by (cases x) auto

lemma comm_timers:
  "timers (turn_state (comm_step E cmd st)) = (if cmd = ''SET_TIMER'' then timers st + 1 else timers st)"
  by (auto simp: comm_step_def Let_def split: prod.split)

lemma op100_timers: "op100_step E gate p st = Done t \<Longrightarrow> timers (turn_state t) = timers st"
  using op100_stale [of E gate p st] op100_nil_queue [of E gate p st] op100_accept [of E gate p st]
  by (cases "stale E gate p st"; cases "message_queue st") (auto simp: accepted_def Let_def split: if_splits)

lemma to_str_eq: "to_str b = s \<longleftrightarrow> b = to_bytes s"
  by (metis to_bytes_to_str to_str_to_bytes)

lemma recv_timers:
  assumes "recv_step E gate b st = Done t" and "b \<noteq> comm_msg ''SET_TIMER''"
  shows "timers (turn_state t) = timers st"
  using assms
  by (auto simp: recv_step_def parse_zero comm_timers to_str_eq op30_step_def Let_def comm_msg_def
      dest: op100_timers split: list.splits if_splits prod.splits)

subsection \<open>The reader never sends on a closed channel\<close>

text \<open>The effects of a turn, and what can be left of them.\<close>

definition live_effects :: "effect list \<Rightarrow> bool" where
  "live_effects es \<longleftrightarrow> RemoveSession \<notin> set es \<and> SendComm ''SET_TIMER'' \<notin> set es"

definition last_effects :: "effect list \<Rightarrow> bool" where
  "last_effects es \<longleftrightarrow> es = [SendComm ''SET_TIMER''] \<or> (\<forall>m. SendComm m \<notin> set es)"

lemma reader_turn_effects: "reader_turn E ev = (es, cont) \<Longrightarrow> if cont then live_effects es else last_effects es"
  by (cases "(E, ev)" rule: reader_turn.cases)
    (auto simp: live_effects_def last_effects_def err_func_def Let_def ack_key_not_command
      ack_key_not_command [symmetric] split: if_splits)

lemma live_effects_Cons: "live_effects (e # es) \<longleftrightarrow> e \<noteq> RemoveSession \<and> e \<noteq> SendComm ''SET_TIMER'' \<and> live_effects es"
  by (auto simp: live_effects_def)

text \<open>Whatever can remove the session comes after the reader's last command.\<close>

definition going :: "session \<Rightarrow> bool" where
  "going s \<longleftrightarrow> removed s \<or> 0 < timers (turn_state (goroutine s)) \<or> comm_msg ''SET_TIMER'' \<in> set (buf (chan s))"

definition reader_inv :: "session \<Rightarrow> bool" where
  "reader_inv s \<longleftrightarrow>
     (if reading s then live_effects (todo s) \<and> \<not> going s
      else last_effects (todo s) \<and> (going s \<longrightarrow> (\<forall>m. SendComm m \<notin> set (todo s))))
     \<and> (closed (chan s) \<longrightarrow> removed s) \<and> length (buf (chan s)) \<le> CHAN_SIZE"

lemma reader_inv_step:
  assumes "session_step E s s'" and "reader_inv s"
  shows "reader_inv s'"
  using assms
proof (cases rule: session_step.cases)
  case (read ev effs cont)
  then show ?thesis using assms(2) reader_turn_effects [OF read(4)]
    by (auto simp: reader_inv_def going_def last_effects_def split: if_splits)
next
  case (send m es)
  then show ?thesis using assms(2)
    by (auto simp: reader_inv_def going_def live_effects_def last_effects_def split: if_splits)
next
  case (receive st b bs t)
  then show ?thesis using assms(2)
    by (cases "b = comm_msg ''SET_TIMER''")
      (auto simp: reader_inv_def going_def recv_timers split: if_splits)
qed (auto simp: reader_inv_def going_def live_effects_def last_effects_def comm_msg_def split: if_splits)


lemma reader_inv_run: "session_run E st s \<Longrightarrow> timers st = 0 \<Longrightarrow> reader_inv s"
proof (induction rule: session_run.induct)
  case start
  then show ?case by (simp add: reader_inv_def session_start_def going_def live_effects_def)
qed (blast intro: reader_inv_step)

text \<open>C18: the reader goroutine never sends on a closed channel. In every interleaving of a session that was
  set up, the channel holds at most its capacity, only a removed session has a closed channel, and
  whenever the reader is about to send a command, the session is not removed and its channel is open;
  once the session is removed, the reader's loop has ended.\<close>

theorem session_reader_never_panics:
  assumes "session_run E st s" and "timers st = 0"
  shows "length (buf (chan s)) \<le> CHAN_SIZE
    \<and> (closed (chan s) \<longrightarrow> removed s) \<and> (removed s \<longrightarrow> \<not> reading s)
    \<and> (\<forall>m es. todo s = SendComm m # es \<longrightarrow> \<not> removed s \<and> \<not> closed (chan s))"
  using reader_inv_run [OF assms] by (auto simp: reader_inv_def going_def split: if_splits)

lemma hang_up_run:
  "session_run E st ((session_start st)\<lparr>todo := [SendComm ''SET_TIMER''], reading := False\<rparr>)"
proof -
  have "session_step E (session_start st) ((session_start st)\<lparr>todo := [SendComm ''SET_TIMER''], reading := False\<rparr>)"
    by (rule session_step.read [where ev = "ReadFails False"]) (simp_all add: session_start_def)
  then show ?thesis by (rule session_run.step [OF session_run.start])
qed

theorem session_reader_never_panics_witness:
  "\<not> closed (chan ((session_start new_receiver)\<lparr>todo := [SendComm ''SET_TIMER''], reading := False\<rparr>))
   \<and> \<not> removed ((session_start new_receiver)\<lparr>todo := [SendComm ''SET_TIMER''], reading := False\<rparr>)"
  using session_reader_never_panics [OF hang_up_run, of new_receiver] by (simp add: new_receiver_def)

subsection \<open>Where the texts come from\<close>

definition texts :: "receiver \<Rightarrow> bytes set" where
  "texts st = snd ` set (queued st)"

definition server_texts :: "ws_env \<Rightarrow> bytes set" where
  "server_texts E = insert [] {b. \<exists>m. j_marshal E m = Some b \<and> Op m \<in> {1000, 3101, 3102}}"

lemma set_update_subset: "set (AList.update k v al) \<subseteq> insert (k, v) (set al)"
  by (induction al) auto

lemma set_delete_subset: "set (AList.delete k al) \<subseteq> set al"
  by (induction al) auto

lemma flush_loop_subset: "flush_loop E ms ws = (ok, ws') \<Longrightarrow> set (written ws') \<subseteq> set (written ws) \<union> set ms"
  using flush_loop_written [of E ms ws ok ws'] by (auto dest: in_set_takeD)

lemma write_message_subset:
  "c \<in> {1000, 3101, 3102} \<Longrightarrow> set (written (snd (write_message E c d ws))) \<subseteq> set (written ws) \<union> server_texts E"
  by (auto simp: write_message_def ws_write_def server_texts_def construct_ws_message_def split: option.split)

lemma comm_texts:
  assumes "\<And>ms. mset (flush_sort E ms) = mset ms"
  shows "texts (turn_state (comm_step E cmd st)) \<subseteq> texts st"
    and "set (written (sock (turn_state (comm_step E cmd st)))) \<subseteq> set (written (sock st)) \<union> texts st"
proof -
  have s: "set (flush_sort E ms) = set ms" for ms
    using assms [of ms] by (metis set_mset_mset)
  show "texts (turn_state (comm_step E cmd st)) \<subseteq> texts st"
    using set_delete_subset [of "[]" "elems (message_queue st)"]
    by (cases "message_queue st") (auto simp: comm_step_def texts_def queued_def Let_def split: prod.split)
  obtain ok ws where f: "flush_loop E (flush_sort E (map snd (elems (message_queue st)))) (sock st) = (ok, ws)"
    by fastforce
  from flush_loop_subset [OF f] show
    "set (written (sock (turn_state (comm_step E cmd st)))) \<subseteq> set (written (sock st)) \<union> texts st"
    by (auto simp: comm_step_def texts_def queued_def Let_def s f)
qed


lemma sock_accepted [simp]: "sock (accepted E p q st) = sock st"
  by (simp add: accepted_def)

lemma accepted_texts:
  "message_queue st = Some q \<Longrightarrow> texts ((accepted E p q st)\<lparr>sock := ws\<rparr>) \<subseteq> insert p (texts st)"
  "message_queue st = Some q \<Longrightarrow> texts (accepted E p q st) \<subseteq> insert p (texts st)"
  using set_update_subset [of "message_key E p" p q]
  by (auto simp: texts_def queued_def accepted_def image_iff)

lemma op100_texts:
  assumes "op100_step E gate p st = Done t"
  shows "texts (turn_state t) \<subseteq> insert p (texts st)"
    and "set (written (sock (turn_state t))) \<subseteq> insert p (set (written (sock st)) \<union> server_texts E)"
proof -
  consider (stale) "stale E gate p st" | (ok) q where "\<not> stale E gate p st" "message_queue st = Some q"
    using assms op100_nil_queue [of E gate p st] by (cases "message_queue st") auto
  then have "texts (turn_state t) \<subseteq> insert p (texts st)
     \<and> set (written (sock (turn_state t))) \<subseteq> insert p (set (written (sock st)) \<union> server_texts E)"
  proof cases
    case stale
    then show ?thesis
      using assms write_message_subset [of 3101 E NoData "sock st"]
        write_message_subset [of 3102 E "RefreshChain \<lparr>rc_ChainID = j_string E p [''Data'', ''ChainID'']\<rparr>" "sock st"]
      by (auto simp: op100_step_def stale_def texts_def queued_def Let_def split: if_splits)
  next
    case ok
    then show ?thesis
      using assms op100_accept [OF ok]
      by (auto simp: Let_def ws_write_def dest!: accepted_texts [OF ok(2), THEN subsetD] split: if_splits)
  qed
  then show "texts (turn_state t) \<subseteq> insert p (texts st)"
    and "set (written (sock (turn_state t))) \<subseteq> insert p (set (written (sock st)) \<union> server_texts E)"
    by blast+
qed

lemma op30_texts [simp]:
  "texts (op30_step E body st) = texts st" "written (sock (op30_step E body st)) = written (sock st)"
  by (simp_all add: op30_step_def texts_def queued_def Let_def split: prod.split option.split)

text \<open>One turn of the goroutine: new texts come from the operation received, the queue, or the server.\<close>

lemma recv_texts:
  assumes "recv_step E gate b st = Done t" and "\<And>ms. mset (flush_sort E ms) = mset ms"
  shows "texts (turn_state t) \<subseteq> texts st \<union> {p. b = 100 # p}
     \<and> set (written (sock (turn_state t)))
        \<subseteq> set (written (sock st)) \<union> texts st \<union> {p. b = 100 # p} \<union> server_texts E"
proof (cases b)
  case Nil
  with assms show ?thesis by (simp add: recv_step_def)
next
  case (Cons op body)
  consider "op = 0" | "op = 30" | "op = 32" | "op = 100" | "op \<notin> {0, 30, 32, 100}" by blast
  then show ?thesis
  proof cases
    case 1
    then show ?thesis
      using assms(1) Cons comm_texts [OF assms(2), where cmd = "to_str body" and st = st] by (auto simp: recv_step_def)
  next
    case 3
    then show ?thesis using assms(1) Cons by (auto simp: recv_step_def texts_def queued_def)
  next
    case 4
    then show ?thesis using assms(1) Cons op100_texts [of E gate body st t] by (auto simp: recv_step_100)
  qed (use assms(1) Cons in \<open>auto simp: recv_step_def\<close>)
qed

definition known :: "receiver \<Rightarrow> session \<Rightarrow> bytes set" where
  "known st s = texts st \<union> {p. 100 # p \<in> set (delivered s)}"

definition texts_inv :: "ws_env \<Rightarrow> receiver \<Rightarrow> session \<Rightarrow> bool" where
  "texts_inv E st s \<longleftrightarrow>
     (\<forall>b\<in>set (buf (chan s)). b \<in> set (delivered s) \<or> (\<exists>m. b = comm_msg m))
     \<and> (\<forall>c d. WriteWs c d \<in> set (todo s) \<longrightarrow> c = 1000)
     \<and> texts (turn_state (goroutine s)) \<subseteq> known st s
     \<and> set (written (session_sock s)) \<subseteq> set (written (sock st)) \<union> known st s \<union> server_texts E"

lemma reader_turn_writes: "reader_turn E ev = (es, cont) \<Longrightarrow> WriteWs c d \<in> set es \<Longrightarrow> c = 1000"
  by (cases "(E, ev)" rule: reader_turn.cases) (auto simp: err_func_def Let_def split: if_splits)

lemma texts_inv_step:
  assumes "session_step E s s'" and "texts_inv E st s" and "\<And>ms. mset (flush_sort E ms) = mset ms"
  shows "texts_inv E st s'"
  using assms(1)
proof (cases rule: session_step.cases)
  case (read ev effs cont)
  then show ?thesis using assms(2) reader_turn_writes [OF read(4)]
    by (auto simp: texts_inv_def known_def session_sock_def)
next
  case (write_ws c d es)
  then have c: "c = 1000" using assms(2) by (auto simp: texts_inv_def)
  show ?thesis
    using write_ws assms(2) write_message_subset [of 1000 E d "session_sock s"]
    by (auto simp: texts_inv_def known_def session_sock_def texts_def queued_def c)
next
  case (receive st1 b bs t)
  then have b: "b \<in> set (delivered s) \<or> (\<exists>m. b = comm_msg m)" using assms(2) by (auto simp: texts_inv_def)
  then have "{p. b = 100 # p} \<subseteq> known st s" by (auto simp: known_def comm_msg_def)
  with recv_texts [OF receive(4) assms(3)] show ?thesis
    using receive assms(2)
    by (simp add: texts_inv_def known_def session_sock_def) blast
qed (use assms(2) in \<open>auto simp: texts_inv_def known_def session_sock_def texts_def queued_def\<close>)

lemma texts_inv_run:
  "session_run E st s \<Longrightarrow> (\<And>ms. mset (flush_sort E ms) = mset ms) \<Longrightarrow> texts_inv E st s"
proof (induction rule: session_run.induct)
  case start
  then show ?case by (simp add: texts_inv_def session_start_def known_def session_sock_def) blast
qed (blast intro: texts_inv_step)

text \<open>C19: the server invents nothing. In every interleaving, each text in a session's queue was there when
  the session was set up or came from the router in an operation 100, and each text written to the
  websocket is one of these or one of the server's own messages: the heartbeat answer 1000, the
  refresh requests 3101 and 3102, or an empty text.\<close>

theorem session_invents_nothing:
  assumes "session_run E st s" and "\<And>ms. mset (flush_sort E ms) = mset ms"
  shows "texts (turn_state (goroutine s)) \<subseteq> texts st \<union> {p. 100 # p \<in> set (delivered s)}
    \<and> set (written (session_sock s))
       \<subseteq> set (written (sock st)) \<union> texts st \<union> {p. 100 # p \<in> set (delivered s)} \<union> server_texts E"
  using texts_inv_run [OF assms] by (simp add: texts_inv_def known_def Un_assoc)

theorem session_invents_nothing_witness:
  "texts (turn_state (goroutine ((session_start new_receiver)\<lparr>todo := [SendComm ''SET_TIMER''], reading := False\<rparr>))) = {}"
  using session_invents_nothing [OF hang_up_run, of demo_env new_receiver] demo_env_sorts
  by (simp add: flush_sorts_def session_start_def texts_def queued_def new_receiver_def)


subsection \<open>A message between the flush and the gate\<close>

text \<open>C36: opening the gate can lose sight of a message. The reader sends the flush command before it
  opens the gate. There is a run in which the connection goroutine handles the flush first, then takes
  a message while the gate is still closed, and the gate opens after that: the gate is open, nothing is
  left to do, the message is in the queue, and it has not been written to the websocket.\<close>

theorem opening_the_gate_misses_a_message:
  assumes "message_queue st = Some []" and "j_int E b [''Op''] = 1006"
  shows "\<exists>s st'. session_run E st s \<and> gate_state s = 1 \<and> buf (chan s) = [] \<and> todo s = [] \<and> reading s
    \<and> goroutine s = Continue st' \<and> message_queue st' = Some [(message_key E p, p)]
    \<and> written (sock st') = written (sock st)"
proof -
  let ?s0 = "session_start st"
  let ?s1 = "?s0\<lparr>todo := [SendComm ''FLUSH'', StoreGate 1]\<rparr>"
  let ?s2 = "?s1\<lparr>todo := [StoreGate 1], chan := \<lparr>buf = [comm_msg ''FLUSH''], closed = False\<rparr>\<rparr>"
  let ?s3 = "?s2\<lparr>chan := \<lparr>buf = [], closed = False\<rparr>\<rparr>"
  let ?s4 = "?s3\<lparr>chan := \<lparr>buf = [100 # p], closed = False\<rparr>, delivered := [100 # p]\<rparr>"
  let ?s5 = "?s4\<lparr>chan := \<lparr>buf = [], closed = False\<rparr>, goroutine := Continue (accepted E p [] st)\<rparr>"
  let ?s6 = "?s5\<lparr>todo := [], gate_state := 1\<rparr>"
  have "session_step E ?s0 ?s1"
    using session_step.read [of ?s0 E "ReadMsg TextMessage b"] assms(2) by (simp add: session_start_def Let_def)
  moreover have "session_step E ?s1 ?s2"
    using session_step.send [of ?s1 "''FLUSH''" "[StoreGate 1]"] by (simp add: session_start_def CHAN_SIZE_def)
  moreover have "session_step E ?s2 ?s3"
    using session_step.receive [of ?s2 st "comm_msg ''FLUSH''" "[]" E "Continue st"] assms(1)
    by (simp add: session_start_def recv_step_comm comm_step_def)
  moreover have "session_step E ?s3 ?s4"
    using session_step.deliver [of ?s3 100 E p] by (simp add: session_start_def CHAN_SIZE_def)
  moreover have "session_step E ?s4 ?s5"
    using session_step.receive [of ?s4 st "100 # p" "[]" E] op100_accept [of E 0 p st "[]"] assms(1)
    by (simp add: session_start_def recv_step_100 stale_def)
  moreover have "session_step E ?s5 ?s6"
    using session_step.store [of ?s5 1 "[]"] by (simp add: session_start_def)
  ultimately have "session_run E st ?s6"
    by (meson session_run.start session_run.step)
  then show ?thesis
    by (intro exI [of _ ?s6] exI [of _ "accepted E p [] st"]) (simp add: session_start_def accepted_def)
qed

theorem opening_the_gate_misses_a_message_witness:
  "\<exists>s st'. session_run (demo_env\<lparr>j_int := \<lambda>_ _. 1006\<rparr>) new_receiver s \<and> gate_state s = 1 \<and> buf (chan s) = []
     \<and> goroutine s = Continue st' \<and> written (sock st') = []"
proof -
  let ?E = "demo_env\<lparr>j_int := \<lambda>_ _. 1006\<rparr>"
  have q: "message_queue new_receiver = Some []" and o: "j_int ?E [] [''Op''] = 1006"
    and w: "written (sock new_receiver) = []" by (simp_all add: new_receiver_def)
  show ?thesis using opening_the_gate_misses_a_message [OF q o, of "[9, 0, 2, 65, 1]"] unfolding w by blast
qed

end
