(* ===== verification/Link.thy ===== *)
theory Link imports Stream begin

text \<open>
  The TCP connection to the router (\<open>socket/socket_client.go\<close> and its copy
  \<open>messages/api_client.go\<close>): dialling and greeting, registering a connection object, writing with
  retries, and the recovery that every failing goroutine starts. Connection objects live in a heap,
  because the \<open>recovering\<close> flag is read and written through pointers while \<open>socket_write\<close> works on
  a copy.
\<close>

subsection \<open>Connection objects\<close>

type_synonym addr = "string \<times> nat"

record router_conn_obj =
  raddr :: addr
  conn :: "nat option"
  recovering :: bool

text \<open>The shared state: the heap of objects, the objects registered by IP, the object writers use, the
  number of TCP connections made, those closed, what was written on them, and the log.\<close>

record link =
  objs :: "router_conn_obj list"
  router_conns :: "string \<rightharpoonup> nat"
  writer_pointer :: "nat option"
  dialled :: nat
  closed_conns :: "nat list"
  sent :: "(nat \<times> bytes) list"
  link_log :: "string list"

definition CONN_GROUP :: string where "CONN_GROUP = ''AZ1_main''"

definition sock_id :: string where "sock_id = ''SOCK_main''"

definition api_id :: string where "api_id = ''API_main''"

definition MAX_RETRIES :: nat where "MAX_RETRIES = 3"

definition close_conn :: "nat option \<Rightarrow> link \<Rightarrow> link" where
  "close_conn c lk = (case c of None \<Rightarrow> lk | Some n \<Rightarrow> lk\<lparr>closed_conns := closed_conns lk @ [n]\<rparr>)"

definition log_err :: "string \<Rightarrow> link \<Rightarrow> link" where
  "log_err err lk = lk\<lparr>link_log := link_log lk @ [err]\<rparr>"

text \<open>\<open>read_tcp\<close>'s registration: a new object, entered under its IP; the writers' pointer follows.\<close>

definition register_conn :: "router_conn_obj \<Rightarrow> link \<Rightarrow> nat \<times> link" where
  "register_conn ob lk =
     (let p = length (objs lk) in
      (p, lk\<lparr>objs := objs lk @ [ob], router_conns := (router_conns lk)(fst (raddr ob) \<mapsto> p)\<rparr>))"

text \<open>The locked start of the recovery: give up when the object at hand is recovering already, else mark
  the object registered under the IP.\<close>

definition recover_guard :: "router_conn_obj \<Rightarrow> link \<Rightarrow> bool \<times> link" where
  "recover_guard ob lk =
     (if recovering ob then (False, lk)
      else (True, case router_conns lk (fst (raddr ob)) of
              None \<Rightarrow> lk
            | Some p \<Rightarrow> lk\<lparr>objs := (objs lk)[p := (objs lk ! p)\<lparr>recovering := True\<rparr>]\<rparr>))"

subsection \<open>Greeting the router\<close>

text \<open>One attempt as the network lets it go: the dial fails, or it succeeds, the greeting is written or
  not, and one \<open>Read\<close> into a 6-byte array of zeros fails or brings some bytes.\<close>

datatype attempt = DialFails | Dialled bool "bytes option"

datatype greeting = NoConn | NoWrite | NoRead | WrongOp byte | Refused | Welcome

definition greet :: "byte \<Rightarrow> attempt \<Rightarrow> greeting" where
  "greet op a =
     (case a of
        DialFails \<Rightarrow> NoConn
      | Dialled ok reply \<Rightarrow>
          if \<not> ok then NoWrite
          else (case reply of
            None \<Rightarrow> NoRead
          | Some b \<Rightarrow>
              let res_b = take 6 (b @ replicate 6 0) in
              if res_b ! 0 \<noteq> op then WrongOp (res_b ! 0)
              else if res_b ! 5 = byte_of_char CHR ''0'' then Refused else Welcome))"

text \<open>The attempt's effect on the link: a successful dial makes a connection, whose number is that of
  the connections before it, and a successful write puts the greeting on it.\<close>

definition dial_conn :: "bytes \<Rightarrow> attempt \<Rightarrow> link \<Rightarrow> link" where
  "dial_conn hello a lk =
     (case a of
        DialFails \<Rightarrow> lk
      | Dialled ok _ \<Rightarrow>
          lk\<lparr>dialled := dialled lk + 1, sent := (if ok then sent lk @ [(dialled lk, hello)] else sent lk)\<rparr>)"

subsection \<open>The goroutines' stacks\<close>

text \<open>\<open>recover_socket\<close>, \<open>connect_new_socket\<close> and \<open>read_tcp\<close> call each other and return only when a
  connection is over, so a goroutine is a stack of suspended calls: about to dial a new connection, in
  the recovery loop after \<open>i\<close> attempts, about to register a connection dialled before, registered but
  not yet published to writers, serving, and the deferred close.\<close>

datatype link_frame = Connecting addr | Recover addr nat | Register addr nat | Publish nat | Serve nat
  | CloseConn nat

text \<open>What a goroutine meets: the outcome of an attempt, an error of the connection it reads, or
  nothing but its own next statement.\<close>

datatype link_input = Attempt attempt | ConnError string | Next

definition handle_conn_err :: "router_conn_obj \<Rightarrow> string \<Rightarrow> link \<Rightarrow> link_frame list \<times> link" where
  "handle_conn_err ob err lk =
     (let lk1 = log_err (''Conn err: '' @ err) (close_conn (conn ob) lk) in
      case recover_guard ob lk1 of
        (go, lk2) \<Rightarrow> (if go then [Recover (raddr ob) 0] else [], lk2))"

text \<open>\<open>handle_panic_err\<close> closes the connection and panics with the error's text, which a nil error does not
  have. The panic ends the process, and the connection with it.\<close>

definition handle_panic_err :: "string option \<Rightarrow> 'a outcome" where
  [simp]: "handle_panic_err err = Panicked (case err of None \<Rightarrow> NilDereference | Some _ \<Rightarrow> ExplicitPanic)"

definition connect_new :: "string \<Rightarrow> string \<Rightarrow> addr \<Rightarrow> attempt \<Rightarrow> link \<Rightarrow> (link_frame list \<times> link) outcome" where
  "connect_new conn_id old_conn_id ad a lk =
     (let c = dialled lk;
          lk1 = dial_conn (package_op 2 (Some [conn_id, CONN_GROUP, old_conn_id]) None) a lk
      in case greet 2 a of
           WrongOp _ \<Rightarrow> handle_panic_err None
         | Refused \<Rightarrow>
             Done (case recover_guard \<lparr>raddr = ad, conn = None, recovering = False\<rparr> lk1 of
               (go, lk2) \<Rightarrow> ((if go then [Recover ad 0] else []) @ [Register ad c, CloseConn c], lk2))
         | Welcome \<Rightarrow> Done ([Register ad c, CloseConn c], lk1)
         | _ \<Rightarrow> handle_panic_err (Some ''dial, write or read error''))"

definition recover_attempt :: "string \<Rightarrow> addr \<Rightarrow> nat \<Rightarrow> attempt \<Rightarrow> link \<Rightarrow> (link_frame list \<times> link) outcome" where
  "recover_attempt conn_id ad i a lk =
     (if i = 3 then Panicked ExplicitPanic
      else let c = dialled lk;
               lk1 = dial_conn (package_op 3 (Some [conn_id]) None) a lk
           in case greet 3 a of
                Refused \<Rightarrow> Done ([Connecting ad, Recover ad (i + 1)], lk1)
              | Welcome \<Rightarrow> Done ([Register ad c, CloseConn c], lk1)
              | _ \<Rightarrow> Done ([Recover ad (i + 1)], log_err (''recovering '' @ conn_id @ '' failed'') lk1))"

text \<open>One step of a goroutine; \<open>None\<close> when the input is not the one it waits for.\<close>

fun stack_step :: "string \<Rightarrow> link_input \<Rightarrow> link_frame list \<Rightarrow> link \<Rightarrow> (link_frame list \<times> link) outcome option" where
  "stack_step conn_id (Attempt a) (Connecting ad # fs) lk =
     Some (and_then (connect_new conn_id ''nil'' ad a lk) (\<lambda>(gs, lk'). Done (gs @ fs, lk')))"
| "stack_step conn_id (Attempt a) (Recover ad i # fs) lk =
     Some (and_then (recover_attempt conn_id ad i a lk) (\<lambda>(gs, lk'). Done (gs @ fs, lk')))"
| "stack_step conn_id Next (Register ad c # fs) lk =
     (case register_conn \<lparr>raddr = ad, conn = Some c, recovering = False\<rparr> lk of
        (p, lk') \<Rightarrow> Some (Done (Publish p # fs, lk')))"
| "stack_step conn_id Next (Publish p # fs) lk = Some (Done (Serve p # fs, lk\<lparr>writer_pointer := Some p\<rparr>))"
| "stack_step conn_id (ConnError err) (Serve p # fs) lk =
     (case handle_conn_err (objs lk ! p) err lk of (gs, lk') \<Rightarrow> Some (Done (gs @ fs, lk')))"
| "stack_step conn_id Next (CloseConn c # fs) lk = Some (Done (fs, close_conn (Some c) lk))"
| "stack_step conn_id _ _ lk = None"

subsection \<open>Writing with retries\<close>

text \<open>One call of \<open>conn.Write\<close>: everything is written, or an error after the first \<open>n\<close> bytes, which
  is temporary or not.\<close>

datatype write_result = Written | WriteFails nat bool

fun write_retries :: "nat \<Rightarrow> bytes \<Rightarrow> write_result list \<Rightarrow> bytes \<times> nat \<times> bool" where
  "write_retries 0 b rs = ([], 0, False)"
| "write_retries (Suc k) b [] = ([], 0, False)"
| "write_retries (Suc k) b (Written # rs) = (b, 1, True)"
| "write_retries (Suc k) b (WriteFails n temporary # rs) =
     (if \<not> temporary then (take n b, 1, False)
      else case write_retries k b rs of (out, tries, ok) \<Rightarrow> (take n b @ out, tries + 1, ok))"

text \<open>The writer works on a copy of the object it finds (\<open>None\<close>: the nil pointer is dereferenced): an
  object without a connection is an error and nothing more; otherwise the bytes put on the wire, and
  on failure the error handler, called with the copy.\<close>

datatype write_outcome = NilConn | WriteDone "nat \<times> bytes" | WriteError "nat \<times> bytes" "link_frame list"

definition socket_write ::
  "byte \<Rightarrow> byte slice \<Rightarrow> string slice \<Rightarrow> router_conn_obj \<Rightarrow> write_result list \<Rightarrow> link \<Rightarrow> write_outcome \<times> link" where
  "socket_write op payload params writer rs lk =
     (case conn writer of
        None \<Rightarrow> (NilConn, lk)
      | Some c \<Rightarrow>
          (case write_retries MAX_RETRIES (package_op op params payload) rs of
             (out, _, ok) \<Rightarrow>
               let lk1 = lk\<lparr>sent := sent lk @ [(c, out)]\<rparr> in
               if ok then (WriteDone (c, out), lk1)
               else (case handle_conn_err writer ''write faliure: '' lk1 of
                 (fs, lk2) \<Rightarrow> (WriteError (c, out) fs, lk2))))"

definition load_writer :: "link \<Rightarrow> router_conn_obj outcome" where
  "load_writer lk = (case writer_pointer lk of None \<Rightarrow> Panicked NilDereference | Some p \<Rightarrow> Done (objs lk ! p))"

subsection \<open>Starting and stopping\<close>

definition router_addr :: "addr list" where
  "router_addr = [(''127.0.0.1'', 10000)]"

definition no_link :: link where
  "no_link = \<lparr>objs = [], router_conns = Map.empty, writer_pointer = None, dialled = 0, closed_conns = [], sent = [], link_log = []\<rparr>"

text \<open>One goroutine per router address, each about to connect.\<close>

definition InitializeSocketConn :: "link \<times> link_frame list list" where
  "InitializeSocketConn = (no_link, map (\<lambda>ad. [Connecting ad]) router_addr)"

text \<open>The registered connections are closed in the order of Go's iteration over the map, a list of its keys.\<close>

definition CloseSocketConn :: "string list \<Rightarrow> link \<Rightarrow> link" where
  "CloseSocketConn keys lk = fold (\<lambda>ip lk'. case router_conns lk ip of None \<Rightarrow> lk' | Some p \<Rightarrow> close_conn (conn (objs lk ! p)) lk') keys lk"

end
