(* ===== verification/Link_Props.thy ===== *)
theory Link_Props imports Link begin

text \<open>
  What the router link keeps and loses: a write that succeeds without a torn attempt puts exactly one
  operation on the wire; a recovery makes at most three attempts, whatever they meet, and then ends the
  process, but a recovery that is always refused nests for ever; one object is recovered once by the
  goroutines that share it, but again by a writer's copy; and a recovery that went through
  \<open>connect_new_socket\<close> can end the process after it succeeded.
\<close>

subsection \<open>Writing\<close>

lemma write_retries_clean:
  "k < n \<Longrightarrow> write_retries n b (replicate k (WriteFails 0 True) @ Written # rs) = (b, k + 1, True)"
proof (induction k arbitrary: n)
  case 0
  then show ?case by (cases n) simp_all
next
  case (Suc k)
  then obtain m where "n = Suc m" by (cases n) simp_all
  with Suc show ?case by simp
qed

lemma write_retries_bound:
  "fst (snd (write_retries n b rs)) \<le> n \<and> length (fst (write_retries n b rs)) \<le> n * length b"
proof (induction n b rs rule: write_retries.induct)
  case (4 k b n temporary rs)
  then show ?case by (cases temporary) (auto simp: case_prod_beta min_def)
qed simp_all

text \<open>A write puts one whole operation on the wire. When each failed attempt was temporary and wrote
  nothing and one of the first three attempts succeeds, the bytes sent are exactly the packaged
  operation, the peer's reader cuts it out of the stream with its parameters and payload as body,
  and no recovery is started; and whatever the attempts do, at most three are made.\<close>

theorem socket_write_sends_once:
  assumes "conn writer = Some c" and "k < 3" and "length (op_body params payload) < 2 ^ 32"
  shows "socket_write op payload params writer (replicate k (WriteFails 0 True) @ Written # rs) lk
      = (WriteDone (c, package_op op params payload), lk\<lparr>sent := sent lk @ [(c, package_op op params payload)]\<rparr>)
    \<and> read_ops (package_op op params payload) = ([(op, op_body params payload)], [])
    \<and> fst (snd (write_retries MAX_RETRIES b rs')) \<le> 3"
proof -
  have "read_ops (package_op op params payload) = ([(op, op_body params payload)], [])"
    using router_frames.drain_concat [of "[(op, op_body params payload)]"] assms(3)
    by (simp add: read_ops_def package_op_frame fits_u32_def)
  moreover have "socket_write op payload params writer (replicate k (WriteFails 0 True) @ Written # rs) lk
      = (WriteDone (c, package_op op params payload), lk\<lparr>sent := sent lk @ [(c, package_op op params payload)]\<rparr>)"
    using write_retries_clean [of k 3] assms(1,2) by (simp add: socket_write_def MAX_RETRIES_def Let_def)
  ultimately show ?thesis
    using write_retries_bound [of MAX_RETRIES b rs'] by (simp add: MAX_RETRIES_def)
qed

definition demo_conn :: router_conn_obj where
  "demo_conn = \<lparr>raddr = (''127.0.0.1'', 10000), conn = Some 0, recovering = False\<rparr>"

definition demo_link :: link where
  "demo_link = \<lparr>objs = [demo_conn], router_conns = [''127.0.0.1'' \<mapsto> 0], writer_pointer = Some 0,
     dialled = 1, closed_conns = [], sent = [], link_log = []\<rparr>"

theorem socket_write_sends_once_witness:
  "fst (socket_write 22 None (Some [''u'', ''s'', ''w'']) demo_conn [WriteFails 0 True, Written] demo_link)
     = WriteDone (0, package_op 22 (Some [''u'', ''s'', ''w'']) None)"
  using socket_write_sends_once [of demo_conn 0 1 "Some [''u'', ''s'', ''w'']" None 22 "[]" demo_link]
  by (simp add: demo_conn_def op_body_def DEFAULT_SPLIT_CHAR_def)

subsection \<open>Recovery\<close>

text \<open>A goroutine run over its inputs.\<close>

fun stack_run :: "string \<Rightarrow> link_input list \<Rightarrow> link_frame list \<Rightarrow> link \<Rightarrow> (link_frame list \<times> link) outcome option" where
  "stack_run conn_id [] fs lk = Some (Done (fs, lk))"
| "stack_run conn_id (x # xs) fs lk =
     (case stack_step conn_id x fs lk of
        Some (Done (fs', lk')) \<Rightarrow> stack_run conn_id xs fs' lk'
      | r \<Rightarrow> r)"

lemma stack_run_append:
  "stack_run conn_id xs fs lk = Some (Done (fs', lk')) \<Longrightarrow> stack_run conn_id (xs @ ys) fs lk = stack_run conn_id ys fs' lk'"
  by (induction conn_id xs fs lk rule: stack_run.induct) (auto split: option.splits outcome.splits)

text \<open>A goroutine's step looks at the top of its stack only: the calls below wait until it returns.\<close>

lemma stack_step_above:
  "gs \<noteq> [] \<Longrightarrow> stack_step conn_id x (gs @ ks) lk =
     map_option (\<lambda>r. and_then r (\<lambda>(gs', lk'). Done (gs' @ ks, lk'))) (stack_step conn_id x gs lk)"
proof (cases gs)
  case (Cons f fs)
  have "stack_step conn_id x (f # fs @ ks) lk =
      map_option (\<lambda>r. and_then r (\<lambda>(gs', lk'). Done (gs' @ ks, lk'))) (stack_step conn_id x (f # fs) lk)"
    by (cases x; cases f)
      (simp_all add: and_then_assoc register_conn_def split_def)
  with Cons show ?thesis by simp
qed simp

text \<open>The attempts one call of \<open>recover_socket\<close> makes in a run: the turns at which its own frame, the one
  above \<open>n\<close> frames of its callers, is on top with its counter below three, counted until it returns. A
  recovery that begins while this one waits is a call of its own and has a count of its own.\<close>

fun own_turn :: "nat \<Rightarrow> link_frame list \<Rightarrow> bool" where
  "own_turn n (Recover ad i # fs) \<longleftrightarrow> length fs = n \<and> i < 3"
| "own_turn n fs \<longleftrightarrow> False"

fun own_attempts :: "string \<Rightarrow> nat \<Rightarrow> link_input list \<Rightarrow> link_frame list \<Rightarrow> link \<Rightarrow> nat" where
  "own_attempts conn_id n [] fs lk = 0"
| "own_attempts conn_id n (x # xs) fs lk =
     (case stack_step conn_id x fs lk of
        Some (Done (fs', lk')) \<Rightarrow>
          (if own_turn n fs then 1 else 0) + (if length fs' \<le> n then 0 else own_attempts conn_id n xs fs' lk')
      | _ \<Rightarrow> 0)"

text \<open>Above the deferred close of a recovered connection nothing counts any more.\<close>

lemma no_own_turn: "gs \<noteq> [] \<Longrightarrow> \<not> own_turn (length fs) (gs @ k # fs)"
  by (cases gs) (auto elim: own_turn.elims)


lemma closed_no_attempts: "own_attempts conn_id (length fs) xs (gs @ CloseConn c # fs) lk = 0"
proof (induction xs arbitrary: gs lk)
  case (Cons x xs)
  show ?case
  proof (cases gs)
    case Nil
    then show ?thesis by (cases x) simp_all
  next
    case (Cons g gs0)
    then have ne: "gs \<noteq> []" by simp
    show ?thesis
    proof (cases "stack_step conn_id x gs lk")
      case (Some r)
      then show ?thesis
        using ne by (cases r) (auto simp: stack_step_above Cons.IH no_own_turn outcome_simps)
    qed (simp add: stack_step_above ne)
  qed
qed simp

text \<open>The loop's frame stays where it is, with the number of its attempts as its counter, until one of
  them is welcomed.\<close>

definition welcomed :: "string \<Rightarrow> link_input list \<Rightarrow> addr \<Rightarrow> link_frame list \<Rightarrow> link_frame list \<Rightarrow> link \<Rightarrow> bool" where
  "welcomed conn_id xs ad fs st lk \<longleftrightarrow> (\<exists>ys zs c lk1. xs = ys @ zs
     \<and> stack_run conn_id ys st lk = Some (Done (Register ad c # CloseConn c # fs, lk1)))"

lemma welcomed_step:
  "stack_step conn_id x st lk = Some (Done (st', lk')) \<Longrightarrow> welcomed conn_id xs ad fs st' lk' \<Longrightarrow> welcomed conn_id (x # xs) ad fs st lk"
  unfolding welcomed_def by (elim exE conjE) (rule exI [of _ "x # _"], auto)

lemma welcomed_now:
  "stack_step conn_id x st lk = Some (Done (Register ad c # CloseConn c # fs, lk')) \<Longrightarrow> welcomed conn_id (x # xs) ad fs st lk"
  unfolding welcomed_def by (intro exI [of _ "[x]"] exI [of _ xs] exI [of _ c] exI [of _ lk']) simp

lemma recovery_turns:
  assumes "i \<le> 3"
  shows "i + own_attempts conn_id (length fs) xs (gs @ Recover ad i # fs) lk \<le> 3
    \<and> (\<forall>st' lk'. stack_run conn_id xs (gs @ Recover ad i # fs) lk = Some (Done (st', lk')) \<longrightarrow>
        (\<exists>gs'. st' = gs' @ Recover ad (i + own_attempts conn_id (length fs) xs (gs @ Recover ad i # fs) lk) # fs)
        \<or> welcomed conn_id xs ad fs (gs @ Recover ad i # fs) lk)"
  using assms
proof (induction xs arbitrary: gs i lk)
  case (Cons x xs)
  let ?st = "gs @ Recover ad i # fs"
  show ?case
  proof (cases "stack_step conn_id x ?st lk")
    case None
    then show ?thesis using Cons.prems by simp
  next
    case (Some r)
    show ?thesis
    proof (cases r)
      case (Done p)
      obtain st' lk' where "p = (st', lk')" by (cases p)
      with Some Done have step: "stack_step conn_id x ?st lk = Some (Done (st', lk'))" by simp
      consider (waits) gs' where "st' = gs' @ Recover ad i # fs" "\<not> own_turn (length fs) ?st"
        | (again) gs' where "st' = gs' @ Recover ad (Suc i) # fs" "own_turn (length fs) ?st" "i < 3"
        | (out) c where "st' = Register ad c # CloseConn c # fs" "own_turn (length fs) ?st" "i < 3"
      proof (cases gs)
        case Nil
        then obtain a where "x = Attempt a" using step by (cases x) simp_all
        then show ?thesis
          using step Nil Cons.prems that(2) [of "[]"] that(2) [of "[Connecting ad]"] that(3)
          by (cases "greet 3 a") (auto simp: recover_attempt_def Let_def outcome_simps split: if_splits)
      next
        case (Cons g gs0)
        then have "gs \<noteq> []" by simp
        then show ?thesis
          using step stack_step_above [of gs conn_id x "Recover ad i # fs" lk] no_own_turn [of gs fs "Recover ad i"] that(1)
          by (cases "stack_step conn_id x gs lk") (auto simp: outcome_simps)
      qed
      then show ?thesis
      proof cases
        case waits
        with Cons.IH [OF Cons.prems, of gs' lk'] step show ?thesis
          by (auto dest: welcomed_step)
      next
        case again
        from again(3) have "Suc i \<le> 3" by simp
        from Cons.IH [OF this, of gs' lk'] again(1,2) step show ?thesis
          by (auto dest: welcomed_step)
      next
        case out
        then show ?thesis
          using step closed_no_attempts [of conn_id fs xs "[Register ad c]" c lk'] welcomed_now [of conn_id x ?st lk ad c fs lk']
          by auto
      qed
    qed (use Some Cons.prems in simp_all)
  qed
qed (use assms in auto)


lemma welcomed_turn:
  assumes "i < 3" and "greet 3 a = Welcome"
  shows "\<exists>lk' p c. stack_run conn_id [Attempt a, Next, Next] (Recover ad i # fs) lk = Some (Done (Serve p # CloseConn c # fs, lk'))
    \<and> router_conns lk' = (router_conns lk)(fst ad \<mapsto> p) \<and> writer_pointer lk' = Some p
    \<and> objs lk' = objs lk @ [\<lparr>raddr = ad, conn = Some c, recovering = False\<rparr>] \<and> p = length (objs lk)"
proof -
  obtain b where "a = Dialled True b" using assms(2) by (cases a) (auto simp: greet_def split: if_splits)
  then show ?thesis using assms by (simp add: recover_attempt_def register_conn_def dial_conn_def Let_def)
qed

text \<open>C31: a recovery makes at most three attempts, whatever they meet. In every run that begins with a call
  of \<open>recover_socket\<close>, refused attempts and the connections they dial included, the call's own loop makes
  at most three; until one of them is welcomed its frame waits in the stack with their number as its
  counter; and its next turn is determined by it: after three the process panics, before that a welcome
  is registered under the address, published to the writers and served with the recovering flag down, a
  refusal dials a new connection and counts, and every other failure counts.\<close>

theorem recovery_three_attempts:
  "own_attempts conn_id (length fs) xs (Recover ad 0 # fs) lk \<le> 3
  \<and> (\<forall>st lk'. stack_run conn_id xs (Recover ad 0 # fs) lk = Some (Done (st, lk')) \<longrightarrow>
       (\<exists>gs. st = gs @ Recover ad (own_attempts conn_id (length fs) xs (Recover ad 0 # fs) lk) # fs)
       \<or> welcomed conn_id xs ad fs (Recover ad 0 # fs) lk)
  \<and> (\<forall>i a lk1. stack_run conn_id xs (Recover ad 0 # fs) lk = Some (Done (Recover ad i # fs, lk1)) \<longrightarrow>
       (i = 3 \<longrightarrow> stack_run conn_id [Attempt a] (Recover ad i # fs) lk1 = Some (Panicked ExplicitPanic))
     \<and> (i < 3 \<and> greet 3 a = Welcome \<longrightarrow> (\<exists>lk2 p c. stack_run conn_id [Attempt a, Next, Next] (Recover ad i # fs) lk1
            = Some (Done (Serve p # CloseConn c # fs, lk2))
          \<and> router_conns lk2 = (router_conns lk1)(fst ad \<mapsto> p) \<and> writer_pointer lk2 = Some p
          \<and> objs lk2 = objs lk1 @ [\<lparr>raddr = ad, conn = Some c, recovering = False\<rparr>] \<and> p = length (objs lk1)))
     \<and> (i < 3 \<and> greet 3 a = Refused \<longrightarrow>
          (\<exists>lk2. stack_run conn_id [Attempt a] (Recover ad i # fs) lk1 = Some (Done (Connecting ad # Recover ad (i + 1) # fs, lk2))))
     \<and> (i < 3 \<and> greet 3 a \<noteq> Refused \<and> greet 3 a \<noteq> Welcome \<longrightarrow>
          (\<exists>lk2. stack_run conn_id [Attempt a] (Recover ad i # fs) lk1 = Some (Done (Recover ad (i + 1) # fs, lk2)))))"
proof (intro conjI allI impI)
  note turns = recovery_turns [of 0 conn_id fs xs "[]" ad lk, simplified]
  show "own_attempts conn_id (length fs) xs (Recover ad 0 # fs) lk \<le> 3" using turns by blast
  show "(\<exists>gs. st = gs @ Recover ad (own_attempts conn_id (length fs) xs (Recover ad 0 # fs) lk) # fs)
       \<or> welcomed conn_id xs ad fs (Recover ad 0 # fs) lk"
    if "stack_run conn_id xs (Recover ad 0 # fs) lk = Some (Done (st, lk'))" for st lk' using turns that by blast
next
  fix i a lk1
  show "stack_run conn_id [Attempt a] (Recover ad i # fs) lk1 = Some (Panicked ExplicitPanic)" if "i = 3"
    using that by (simp add: recover_attempt_def)
  show "\<exists>lk2. stack_run conn_id [Attempt a] (Recover ad i # fs) lk1 = Some (Done (Connecting ad # Recover ad (i + 1) # fs, lk2))"
    if "i < 3 \<and> greet 3 a = Refused" using that by (simp add: recover_attempt_def Let_def)
  show "\<exists>lk2. stack_run conn_id [Attempt a] (Recover ad i # fs) lk1 = Some (Done (Recover ad (i + 1) # fs, lk2))"
    if "i < 3 \<and> greet 3 a \<noteq> Refused \<and> greet 3 a \<noteq> Welcome"
    using that by (cases "greet 3 a") (simp_all add: recover_attempt_def Let_def)
qed (use welcomed_turn in blast)

text \<open>A run of a recovery whose second attempt is refused: the new connection is refused as well and
  recovered in its turn, and that fails.\<close>

definition demo_recovery :: "link_input list" where
  "demo_recovery = map Attempt [DialFails, Dialled True (Some [3, 0, 0, 0, 1, 48]), Dialled True (Some [2, 0, 0, 0, 1, 48]), DialFails]"

lemma refusals: "greet 3 (Dialled True (Some [3, 0, 0, 0, 1, 48])) = Refused" "greet 2 (Dialled True (Some [2, 0, 0, 0, 1, 48])) = Refused"
  by (simp_all add: greet_def byte_of_char_def)

theorem recovery_three_attempts_witness:
  "\<exists>gs lk'. stack_run sock_id demo_recovery [Recover (''127.0.0.1'', 10000) 0] demo_link
       = Some (Done (gs @ [Recover (''127.0.0.1'', 10000) 2], lk'))
     \<and> own_attempts sock_id 0 demo_recovery [Recover (''127.0.0.1'', 10000) 0] demo_link = 2
     \<and> own_attempts sock_id 0 (demo_recovery @ map Attempt [DialFails, DialFails]) [Recover (''127.0.0.1'', 10000) 0] demo_link \<le> 3"
proof -
  have "own_attempts sock_id 0 demo_recovery [Recover (''127.0.0.1'', 10000) 0] demo_link = 2"
    and "\<exists>gs lk'. stack_run sock_id demo_recovery [Recover (''127.0.0.1'', 10000) 0] demo_link
       = Some (Done (gs @ [Recover (''127.0.0.1'', 10000) 2], lk'))"
    by (simp_all add: demo_recovery_def recover_attempt_def connect_new_def recover_guard_def greet_def byte_of_char_def Let_def)
  then show ?thesis
    using recovery_three_attempts [of sock_id "[]" "demo_recovery @ map Attempt [DialFails, DialFails]" "(''127.0.0.1'', 10000)" demo_link] by auto
qed

text \<open>A recovery that is always refused never ends. When the router refuses the recovery and the new
  connection it then dials, the new connection is recovered in its turn, by a call whose counter starts
  at zero: the three attempts of each call are never used up. However often this repeats, the goroutine
  is about to make a first attempt, above three suspended calls more for each round, and each round
  dials two connections more without closing one.\<close>

theorem refused_recovery_never_ends:
  assumes "greet 3 a = Refused" and "greet 2 b = Refused"
  shows "\<exists>gs lk'. stack_run conn_id (concat (replicate n [Attempt a, Attempt b])) (Recover ad 0 # fs) lk
       = Some (Done (Recover ad 0 # gs @ fs, lk'))
    \<and> length gs = 3 * n \<and> dialled lk' = dialled lk + 2 * n \<and> closed_conns lk' = closed_conns lk"
proof (induction n arbitrary: fs lk)
  case (Suc n)
  obtain ra rb where ab: "a = Dialled True ra" "b = Dialled True rb"
    using assms by (cases a; cases b) (auto simp: greet_def split: if_splits)
  obtain c lk1 where one: "stack_run conn_id [Attempt a, Attempt b] (Recover ad 0 # fs) lk
      = Some (Done (Recover ad 0 # Register ad c # CloseConn c # Recover ad 1 # fs, lk1))"
    and lk1: "dialled lk1 = dialled lk + 2" "closed_conns lk1 = closed_conns lk"
    using assms by (simp add: recover_attempt_def connect_new_def recover_guard_def dial_conn_def ab Let_def split: option.split)
  obtain gs lk' where "stack_run conn_id (concat (replicate n [Attempt a, Attempt b])) (Recover ad 0 # Register ad c # CloseConn c # Recover ad 1 # fs) lk1
      = Some (Done (Recover ad 0 # gs @ Register ad c # CloseConn c # Recover ad 1 # fs, lk'))"
    and "length gs = 3 * n" "dialled lk' = dialled lk1 + 2 * n" "closed_conns lk' = closed_conns lk1"
    using Suc.IH [of "Register ad c # CloseConn c # Recover ad 1 # fs" lk1] by blast
  then show ?case
    using stack_run_append [OF one] lk1
    by (intro exI [of _ "gs @ [Register ad c, CloseConn c, Recover ad 1]"] exI [of _ lk']) simp
qed simp

theorem refused_recovery_never_ends_witness:
  "\<exists>gs lk'. stack_run sock_id (concat (replicate 1000 [Attempt (Dialled True (Some [3, 0, 0, 0, 1, 48])),
        Attempt (Dialled True (Some [2, 0, 0, 0, 1, 48]))])) [Recover (''127.0.0.1'', 10000) 0] demo_link
      = Some (Done (Recover (''127.0.0.1'', 10000) 0 # gs, lk')) \<and> length gs = 3000"
  using refused_recovery_never_ends [OF refusals, of sock_id 1000 "(''127.0.0.1'', 10000)" "[]" demo_link] by auto

subsection \<open>Who recovers\<close>

lemma guard_marks:
  assumes "router_conns lk (fst (raddr ob)) = Some p" and "\<not> recovering ob"
  shows "recover_guard ob lk = (True, lk\<lparr>objs := (objs lk)[p := (objs lk ! p)\<lparr>recovering := True\<rparr>]\<rparr>)"
  using assms by (simp add: recover_guard_def)

lemma close_log_frame [simp]:
  "objs (close_conn c lk) = objs lk" "router_conns (close_conn c lk) = router_conns lk"
  "objs (log_err e lk) = objs lk" "router_conns (log_err e lk) = router_conns lk"
  by (simp_all add: close_conn_def log_err_def split: option.split)

lemma pointer_recovery:
  assumes "router_conns lk (fst (raddr (objs lk ! p))) = Some p" and "p < length (objs lk)"
    and "\<not> recovering (objs lk ! p)" and "handle_conn_err (objs lk ! p) err lk = (fs, lk')"
  shows "fs = [Recover (raddr (objs lk ! p)) 0]
    \<and> fst (handle_conn_err (objs lk' ! p) err' lk') = []
    \<and> fst (handle_conn_err (objs lk ! p) err' lk') = [Recover (raddr (objs lk ! p)) 0]"
proof -
  have "objs lk' ! p = (objs lk ! p)\<lparr>recovering := True\<rparr>" and "fs = [Recover (raddr (objs lk ! p)) 0]"
    using assms guard_marks [of "log_err (''Conn err: '' @ err) (close_conn (conn (objs lk ! p)) lk)" "objs lk ! p" p]
    by (auto simp: handle_conn_err_def Let_def)
  then show ?thesis using assms(3) by (simp add: handle_conn_err_def recover_guard_def Let_def)
qed

text \<open>The goroutines that share a registered object start one recovery, a writer starts another. After
  one of them met an error of the object \<open>p\<close> and recovers it, any other one that holds the pointer
  returns at once; but a writer that copied the object before recovers the same address again, with
  its own three attempts.\<close>

theorem one_recovery_per_pointer:
  assumes "router_conns lk (fst (raddr (objs lk ! p))) = Some p" and "p < length (objs lk)"
    and "\<not> recovering (objs lk ! p)" and "handle_conn_err (objs lk ! p) err lk = (fs, lk')"
  shows "fs = [Recover (raddr (objs lk ! p)) 0]
    \<and> fst (handle_conn_err (objs lk' ! p) err' lk') = []
    \<and> fst (handle_conn_err (objs lk ! p) err' lk') = [Recover (raddr (objs lk ! p)) 0]"
  using assms by (rule pointer_recovery)

theorem one_recovery_per_pointer_witness:
  "fst (handle_conn_err demo_conn ''timeout'' (snd (handle_conn_err demo_conn ''EOF'' demo_link)))
     = [Recover (''127.0.0.1'', 10000) 0]"
  using one_recovery_per_pointer [of demo_link 0 "''EOF''" "fst (handle_conn_err demo_conn ''EOF'' demo_link)"
      "snd (handle_conn_err demo_conn ''EOF'' demo_link)" "''timeout''"]
  by (simp add: demo_link_def demo_conn_def)

text \<open>A recovery can end the process although it succeeded. When the third attempt is refused, the
  recovery dials a new connection; the router welcomes it, it is registered and served. When it fails
  later and another goroutine has begun to recover it, the reader returns through the deferred close
  into the old loop, whose counter is used up: its next turn panics, whatever it would have met.\<close>

theorem recovery_panics_after_success:
  assumes "greet 3 a = Refused" and "greet 2 b = Welcome"
  shows "\<exists>lk1 p c. stack_run conn_id [Attempt a, Attempt b, Next, Next] (Recover ad 2 # fs) lk
       = Some (Done ([Serve p, CloseConn c, Recover ad 3] @ fs, lk1))
    \<and> router_conns lk1 (fst ad) = Some p \<and> writer_pointer lk1 = Some p
    \<and> fst (handle_conn_err (objs lk1 ! p) ''heartbeat timeout'' lk1) = [Recover ad 0]
    \<and> stack_run conn_id [ConnError err, Next, Attempt a'] ([Serve p, CloseConn c, Recover ad 3] @ fs)
        (snd (handle_conn_err (objs lk1 ! p) ''heartbeat timeout'' lk1)) = Some (Panicked ExplicitPanic)"
proof -
  obtain ra rb where "a = Dialled True ra" "b = Dialled True rb"
    using assms by (cases a; cases b) (auto simp: greet_def split: if_splits)
  then obtain lk1 p c where run: "stack_run conn_id [Attempt a, Attempt b, Next, Next] (Recover ad 2 # fs) lk
       = Some (Done ([Serve p, CloseConn c, Recover ad 3] @ fs, lk1))"
    and reg: "router_conns lk1 (fst ad) = Some p" "writer_pointer lk1 = Some p" "p < length (objs lk1)"
      "objs lk1 ! p = \<lparr>raddr = ad, conn = Some c, recovering = False\<rparr>"
    using assms by (simp add: recover_attempt_def connect_new_def register_conn_def dial_conn_def Let_def nth_append)
  let ?lk2 = "snd (handle_conn_err (objs lk1 ! p) ''heartbeat timeout'' lk1)"
  have one: "fst (handle_conn_err (objs lk1 ! p) ''heartbeat timeout'' lk1) = [Recover ad 0]
    \<and> fst (handle_conn_err (objs ?lk2 ! p) err ?lk2) = []"
    using pointer_recovery [of lk1 p "''heartbeat timeout''" _ ?lk2] reg by (simp add: prod_eq_iff)
  obtain lk3 where "handle_conn_err (objs ?lk2 ! p) err ?lk2 = ([], lk3)"
    using one by (cases "handle_conn_err (objs ?lk2 ! p) err ?lk2") auto
  then have "stack_run conn_id [ConnError err, Next, Attempt a'] ([Serve p, CloseConn c, Recover ad 3] @ fs) ?lk2
      = Some (Panicked ExplicitPanic)"
    by (simp add: recover_attempt_def)
  with run reg one show ?thesis by blast
qed

theorem recovery_panics_after_success_witness:
  "stack_run api_id [Attempt (Dialled True (Some [3, 0, 0, 0, 1, 48])), Attempt (Dialled True (Some [2, 0, 0, 0, 1, 49])), Next, Next]
      [Recover (''127.0.0.1'', 10000) 2] demo_link \<noteq> None"
proof -
  have "greet 3 (Dialled True (Some [3, 0, 0, 0, 1, 48])) = Refused"
    and "greet 2 (Dialled True (Some [2, 0, 0, 0, 1, 49])) = Welcome"
    by (simp_all add: greet_def byte_of_char_def)
  from recovery_panics_after_success [OF this, of api_id "(''127.0.0.1'', 10000)" "[]" demo_link]
  show ?thesis by auto
qed

end
