(* ===== verification/Link_Steps.thy ===== *)
theory Link_Steps imports Link_Props begin

text \<open>
  The router link as a system of goroutines: those that dial, register and serve connections, the
  heartbeat goroutines that report errors of the objects they point to, and writers that work on a
  copy of the published object, in any interleaving of their steps.
\<close>

subsection \<open>Steps\<close>

text \<open>A writer holds a copy it made of the object then published: the copy has that object's address and
  connection, which no step changes, and its \<open>recovering\<close> flag of that moment. Other objects may have been
  published since, so that \<open>p\<close> is any object registered so far.\<close>

inductive link_step :: "string \<Rightarrow> link \<times> link_frame list list \<Rightarrow> link \<times> link_frame list list \<Rightarrow> bool" for conn_id where
  runs: "i < length ss \<Longrightarrow> stack_step conn_id inp (ss ! i) lk = Some (Done (fs, lk'))
    \<Longrightarrow> link_step conn_id (lk, ss) (lk', ss[i := fs])"
| heartbeat_fails: "p < length (objs lk) \<Longrightarrow> handle_conn_err (objs lk ! p) err lk = (fs, lk')
    \<Longrightarrow> link_step conn_id (lk, ss) (lk', ss @ [fs])"
| writes: "writer_pointer lk \<noteq> None \<Longrightarrow> p < length (objs lk) \<Longrightarrow> socket_write op payload params ((objs lk ! p)\<lparr>recovering := stale\<rparr>) rs lk = (out, lk')
    \<Longrightarrow> link_step conn_id (lk, ss) (lk', ss @ (case out of WriteError _ fs \<Rightarrow> [fs] | _ \<Rightarrow> []))"

inductive link_reachable :: "string \<Rightarrow> link \<times> link_frame list list \<Rightarrow> bool" for conn_id where
  started: "link_reachable conn_id InitializeSocketConn"
| stepped: "link_reachable conn_id s \<Longrightarrow> link_step conn_id s t \<Longrightarrow> link_reachable conn_id t"

subsection \<open>The invariant\<close>

text \<open>Every object has a connection that was made, every pointer an object, every key its own object.\<close>

definition frame_ok :: "link \<Rightarrow> link_frame \<Rightarrow> bool" where
  "frame_ok lk f \<longleftrightarrow> (case f of
     Publish p \<Rightarrow> p < length (objs lk) | Serve p \<Rightarrow> p < length (objs lk)
   | Register ad c \<Rightarrow> c < dialled lk | CloseConn c \<Rightarrow> c < dialled lk | _ \<Rightarrow> True)"

definition objects_ok :: "link \<Rightarrow> bool" where
  "objects_ok lk \<longleftrightarrow> (\<forall>ob\<in>set (objs lk). \<exists>c. conn ob = Some c \<and> c < dialled lk)
     \<and> (\<forall>p. writer_pointer lk = Some p \<longrightarrow> p < length (objs lk))
     \<and> (\<forall>ip p. router_conns lk ip = Some p \<longrightarrow> p < length (objs lk) \<and> fst (raddr (objs lk ! p)) = ip)"

definition grows :: "link \<Rightarrow> link \<Rightarrow> bool" where
  "grows lk lk' \<longleftrightarrow> length (objs lk) \<le> length (objs lk') \<and> dialled lk \<le> dialled lk'"

lemma frame_ok_grows: "frame_ok lk f \<Longrightarrow> grows lk lk' \<Longrightarrow> frame_ok lk' f"
  by (auto simp: frame_ok_def grows_def split: link_frame.splits)

lemma frame_ok_simps [simp]:
  "frame_ok lk (Connecting ad)" "frame_ok lk (Recover ad i)" "frame_ok lk (Publish p) = (p < length (objs lk))"
  "frame_ok lk (Serve p) = (p < length (objs lk))" "frame_ok lk (Register ad c) = (c < dialled lk)"
  "frame_ok lk (CloseConn c) = (c < dialled lk)"
  by (simp_all add: frame_ok_def)

lemma grows_refl [simp]: "grows lk lk"
  by (simp add: grows_def)

lemma link_frame_simps [simp]:
  "objs (close_conn c lk) = objs lk" "router_conns (close_conn c lk) = router_conns lk" "writer_pointer (close_conn c lk) = writer_pointer lk"
  "dialled (close_conn c lk) = dialled lk" "objs (log_err e lk) = objs lk" "router_conns (log_err e lk) = router_conns lk"
  "writer_pointer (log_err e lk) = writer_pointer lk" "dialled (log_err e lk) = dialled lk"
  by (simp_all add: close_conn_def log_err_def split: option.split)

lemma objects_ok_cong:
  "objs lk' = objs lk \<Longrightarrow> router_conns lk' = router_conns lk \<Longrightarrow> writer_pointer lk' = writer_pointer lk
     \<Longrightarrow> dialled lk \<le> dialled lk' \<Longrightarrow> objects_ok lk \<Longrightarrow> objects_ok lk'"
  unfolding objects_ok_def by fastforce

lemma recover_guard_ok:
  assumes "recover_guard ob lk = (go, lk')" and "objects_ok lk"
  shows "objects_ok lk' \<and> grows lk lk'"
proof (cases "\<not> recovering ob \<and> (\<exists>p. router_conns lk (fst (raddr ob)) = Some p)")
  case True
  then obtain p where p: "router_conns lk (fst (raddr ob)) = Some p" by blast
  with True assms have lk': "lk' = lk\<lparr>objs := (objs lk)[p := (objs lk ! p)\<lparr>recovering := True\<rparr>]\<rparr>" and "p < length (objs lk)"
    by (auto simp: recover_guard_def objects_ok_def)
  moreover have "fst (raddr (objs lk' ! q)) = fst (raddr (objs lk ! q))" if "q < length (objs lk)" for q
    using that by (cases "q = p") (simp_all add: lk')
  moreover have "\<exists>c. conn ob = Some c \<and> c < dialled lk" if "ob \<in> set (objs lk')" for ob
    using that assms(2) nth_mem [OF \<open>p < length (objs lk)\<close>]
    by (auto simp: lk' objects_ok_def dest!: subsetD [OF set_update_subset_insert])
  ultimately show ?thesis using assms(2) by (auto simp: objects_ok_def grows_def)
next
  case False
  then have "lk' = lk" using assms(1) by (auto simp: recover_guard_def split: if_splits option.splits)
  then show ?thesis using assms(2) by simp
qed

lemma handle_conn_err_ok:
  assumes "handle_conn_err ob err lk = (fs, lk')" and "objects_ok lk"
  shows "objects_ok lk' \<and> grows lk lk' \<and> list_all (frame_ok lk') fs"
proof -
  let ?lk1 = "log_err (''Conn err: '' @ err) (close_conn (conn ob) lk)"
  obtain go lk2 where g: "recover_guard ob ?lk1 = (go, lk2)" by fastforce
  have "objects_ok ?lk1" by (rule objects_ok_cong [OF _ _ _ _ assms(2)]) simp_all
  from recover_guard_ok [OF g this] assms(1) g show ?thesis
    by (auto simp: handle_conn_err_def grows_def split: if_splits)
qed

lemma dial_conn_ok: "objects_ok lk \<Longrightarrow> objects_ok (dial_conn hello a lk) \<and> grows lk (dial_conn hello a lk)"
  by (cases a) (auto simp: dial_conn_def grows_def intro: objects_ok_cong)

lemma dialled_greeted: "greet op a \<in> {Refused, Welcome} \<Longrightarrow> dialled (dial_conn hello a lk) = dialled lk + 1"
  by (auto simp: greet_def dial_conn_def split: attempt.splits if_splits)

lemma connect_new_ok:
  assumes "connect_new conn_id old ad a lk = Done (gs, lk')" and "objects_ok lk"
  shows "objects_ok lk' \<and> grows lk lk' \<and> list_all (frame_ok lk') gs"
proof -
  let ?hello = "package_op 2 (Some [conn_id, CONN_GROUP, old]) None"
  let ?lk1 = "dial_conn ?hello a lk"
  note dial = dial_conn_ok [OF assms(2), of ?hello a]
  consider "greet 2 a = Refused" | "greet 2 a = Welcome"
    using assms(1) by (cases "greet 2 a") (auto simp: connect_new_def Let_def)
  then show ?thesis
  proof cases
    case 1
    obtain go lk2 where g: "recover_guard \<lparr>raddr = ad, conn = None, recovering = False\<rparr> ?lk1 = (go, lk2)" by fastforce
    have "lk' = lk2" and gs: "gs = (if go then [Recover ad 0] else []) @ [Register ad (dialled lk), CloseConn (dialled lk)]"
      using assms(1) 1 g by (auto simp: connect_new_def Let_def)
    moreover have "dialled ?lk1 = dialled lk + 1" using 1 dialled_greeted [of 2 a ?hello lk] by simp
    ultimately show ?thesis using recover_guard_ok [OF g] dial by (auto simp: grows_def)
  next
    case 2
    then have "lk' = ?lk1" "gs = [Register ad (dialled lk), CloseConn (dialled lk)]"
      using assms(1) by (auto simp: connect_new_def Let_def)
    then show ?thesis using 2 dial dialled_greeted [of 2 a ?hello lk] by simp
  qed
qed

lemma recover_attempt_ok:
  assumes "recover_attempt conn_id ad i a lk = Done (gs, lk')" and "objects_ok lk"
  shows "objects_ok lk' \<and> grows lk lk' \<and> list_all (frame_ok lk') gs"
proof -
  let ?lk1 = "dial_conn (package_op 3 (Some [conn_id]) None) a lk"
  note dial = dial_conn_ok [OF assms(2), of "package_op 3 (Some [conn_id]) None" a]
  have log: "objects_ok (log_err e ?lk1)" for e by (rule objects_ok_cong [of "log_err e ?lk1" ?lk1]) (simp_all add: dial)
  show ?thesis
    using assms(1) dial log dialled_greeted [of 3 a]
    by (auto simp: recover_attempt_def Let_def grows_def split: if_splits greeting.splits)
qed

lemma register_conn_ok:
  assumes "objects_ok lk" and "c < dialled lk" and "register_conn \<lparr>raddr = ad, conn = Some c, recovering = False\<rparr> lk = (p, lk')"
  shows "objects_ok lk' \<and> grows lk lk' \<and> p < length (objs lk')"
  using assms by (auto simp: register_conn_def objects_ok_def grows_def nth_append Let_def less_Suc_eq split: if_splits)

lemma stack_step_ok:
  assumes "stack_step conn_id inp fs lk = Some (Done (fs', lk'))" and "objects_ok lk" and "list_all (frame_ok lk) fs"
  shows "objects_ok lk' \<and> grows lk lk' \<and> list_all (frame_ok lk') fs'"
proof -
  have tail: ?thesis if "fs = f # gs" "fs' = new @ gs" "objects_ok lk' \<and> grows lk lk' \<and> list_all (frame_ok lk') new" for f gs new
    using that assms(3) frame_ok_grows by (auto simp: list_all_iff)
  consider (dial) a ad gs where "inp = Attempt a" "fs = Connecting ad # gs" | (rec) a ad i gs where "inp = Attempt a" "fs = Recover ad i # gs"
    | (reg) ad c gs where "inp = Next" "fs = Register ad c # gs" | (pub) p gs where "inp = Next" "fs = Publish p # gs"
    | (err) e p gs where "inp = ConnError e" "fs = Serve p # gs" | (close) c gs where "inp = Next" "fs = CloseConn c # gs"
    using assms(1) by (cases "(conn_id, inp, fs, lk)" rule: stack_step.cases) auto
  then show ?thesis
  proof cases
    case dial
    then obtain new where "connect_new conn_id ''nil'' ad a lk = Done (new, lk')" "fs' = new @ gs"
      using assms(1) by (cases "connect_new conn_id ''nil'' ad a lk") auto
    then show ?thesis using tail dial connect_new_ok [OF _ assms(2)] by blast
  next
    case rec
    then obtain new where "recover_attempt conn_id ad i a lk = Done (new, lk')" "fs' = new @ gs"
      using assms(1) by (cases "recover_attempt conn_id ad i a lk") auto
    then show ?thesis using tail rec recover_attempt_ok [OF _ assms(2)] by blast
  next
    case reg
    obtain p lk1 where r: "register_conn \<lparr>raddr = ad, conn = Some c, recovering = False\<rparr> lk = (p, lk1)" by fastforce
    then have "lk' = lk1" "fs' = [Publish p] @ gs" using assms(1) reg by auto
    then show ?thesis using tail [OF reg(2)] register_conn_ok [OF assms(2) _ r] assms(3) reg by simp
  next
    case pub
    then have "lk' = lk\<lparr>writer_pointer := Some p\<rparr>" "fs' = [Serve p] @ gs" "p < length (objs lk)" using assms(1,3) by auto
    then show ?thesis using tail [OF pub(2)] assms(2) by (simp add: objects_ok_def grows_def)
  next
    case err
    then obtain new where "handle_conn_err (objs lk ! p) e lk = (new, lk')" "fs' = new @ gs"
      using assms(1) by (cases "handle_conn_err (objs lk ! p) e lk") auto
    then show ?thesis using tail err handle_conn_err_ok [OF _ assms(2)] by blast
  next
    case close
    then have "lk' = close_conn (Some c) lk" "fs' = [] @ gs" using assms(1) by auto
    moreover have "objects_ok (close_conn (Some c) lk)" by (rule objects_ok_cong [OF _ _ _ _ assms(2)]) simp_all
    ultimately show ?thesis using tail [OF close(2)] by (simp add: grows_def)
  qed
qed

lemma socket_write_ok:
  assumes "socket_write op payload params w rs lk = (out, lk')" and "objects_ok lk"
  shows "objects_ok lk' \<and> grows lk lk' \<and> (\<forall>x fs. out = WriteError x fs \<longrightarrow> list_all (frame_ok lk') fs)"
proof (cases "conn w")
  case None
  then show ?thesis using assms by (auto simp: socket_write_def)
next
  case (Some c)
  obtain b k ok where r: "write_retries MAX_RETRIES (package_op op params payload) rs = (b, k, ok)" by (metis prod.exhaust)
  let ?lk1 = "lk\<lparr>sent := sent lk @ [(c, b)]\<rparr>"
  have one: "objects_ok ?lk1" by (rule objects_ok_cong [OF _ _ _ _ assms(2)]) simp_all
  obtain fs lk2 where h: "handle_conn_err w ''write faliure: '' ?lk1 = (fs, lk2)" by fastforce
  show ?thesis
    using assms(1) Some r h handle_conn_err_ok [OF h one] one
    by (auto simp: socket_write_def Let_def grows_def split: if_splits)
qed

lemma link_reachable_ok: "link_reachable conn_id s \<Longrightarrow> objects_ok (fst s) \<and> (\<forall>fs\<in>set (snd s). list_all (frame_ok (fst s)) fs)"
proof (induction rule: link_reachable.induct)
  case started
  then show ?case by (auto simp: InitializeSocketConn_def objects_ok_def no_link_def)
next
  case (stepped s t)
  then have ok: "objects_ok (fst s)" and frames: "\<And>fs. fs \<in> set (snd s) \<Longrightarrow> list_all (frame_ok (fst s)) fs" by auto
  have keep: "list_all (frame_ok lk') fs" if "grows (fst s) lk'" "fs \<in> set (snd s)" for fs lk'
    using frames [OF that(2)] frame_ok_grows [OF _ that(1)] by (auto simp: list_all_iff)
  from stepped(2) show ?case
  proof cases
    case (runs i ss inp lk fs lk')
    from stack_step_ok [OF runs(4)] runs(1-3) ok frames keep show ?thesis
      by (auto dest!: subsetD [OF set_update_subset_insert])
  next
    case (heartbeat_fails p lk err fs lk' ss)
    from handle_conn_err_ok [OF heartbeat_fails(4)] heartbeat_fails(1-3) ok keep show ?thesis by auto
  next
    case (writes lk p op payload params stale rs out lk' ss)
    from socket_write_ok [OF writes(5)] writes(1-4) ok keep show ?thesis by (cases out) auto
  qed
qed

text \<open>C10: a writer has no connection or a real one. In every interleaving of dialling, registering, failing and
  recovering goroutines, heartbeat goroutines and writers, a writer either finds no object at all, and
  panics, or an object with a connection that was dialled, so that the check for a nil connection never
  fires; and every registered object carries the address it is registered under.\<close>

theorem writers_find_a_connection:
  assumes "link_reachable conn_id (lk, ss)"
  shows "(case writer_pointer lk of None \<Rightarrow> load_writer lk = Panicked NilDereference
      | Some p \<Rightarrow> \<exists>ob c. load_writer lk = Done ob \<and> conn ob = Some c \<and> c < dialled lk
          \<and> fst (socket_write op payload params ob rs lk) \<noteq> NilConn)
    \<and> (\<forall>ip p. router_conns lk ip = Some p \<longrightarrow> p < length (objs lk) \<and> fst (raddr (objs lk ! p)) = ip)"
proof -
  have ok: "objects_ok lk" using link_reachable_ok [OF assms] by simp
  have "fst (socket_write op payload params ob rs lk) \<noteq> NilConn" if "conn ob = Some c" for ob c
    using that by (simp add: socket_write_def Let_def case_prod_beta)
  moreover have "\<exists>c. conn (objs lk ! p) = Some c \<and> c < dialled lk" if "writer_pointer lk = Some p" for p
    using that ok nth_mem unfolding objects_ok_def by blast
  ultimately show ?thesis
    using ok by (fastforce simp: load_writer_def objects_ok_def split: option.split)
qed

lemma reachable_run:
  "stack_run conn_id xs fs lk = Some (Done (fs', lk')) \<Longrightarrow> link_reachable conn_id (lk, [fs]) \<Longrightarrow> link_reachable conn_id (lk', [fs'])"
proof (induction xs arbitrary: fs lk)
  case (Cons x xs)
  obtain gs lk1 where step: "stack_step conn_id x fs lk = Some (Done (gs, lk1))"
    and run: "stack_run conn_id xs gs lk1 = Some (Done (fs', lk'))"
    using Cons.prems(1) by (auto split: option.splits outcome.splits)
  have "link_step conn_id (lk, [fs]) (lk1, [fs][0 := gs])" by (rule link_step.runs [where inp = x]) (use step in simp_all)
  then show ?case using Cons.IH [OF run] link_reachable.stepped [OF Cons.prems(2)] by simp
qed simp

theorem writers_find_a_connection_witness:
  "\<exists>lk ss c. link_reachable sock_id (lk, ss) \<and> load_writer lk = Done \<lparr>raddr = (''127.0.0.1'', 10000), conn = Some c, recovering = False\<rparr>
     \<and> fst (socket_write 50 None None \<lparr>raddr = (''127.0.0.1'', 10000), conn = Some c, recovering = False\<rparr> [Written] lk) \<noteq> NilConn"
proof -
  have "greet 2 (Dialled True (Some [2, 0, 0, 0, 1, 49])) = Welcome" by (simp add: greet_def byte_of_char_def)
  then obtain lk fs c where run: "stack_run sock_id [Attempt (Dialled True (Some [2, 0, 0, 0, 1, 49])), Next, Next]
      [Connecting (''127.0.0.1'', 10000)] no_link = Some (Done (fs, lk))"
    and writer: "writer_pointer lk = Some 0" "load_writer lk = Done \<lparr>raddr = (''127.0.0.1'', 10000), conn = Some c, recovering = False\<rparr>"
    by (simp add: connect_new_def register_conn_def dial_conn_def Let_def no_link_def load_writer_def)
  have "link_reachable sock_id (no_link, [[Connecting (''127.0.0.1'', 10000)]])"
    using link_reachable.started [of sock_id] by (simp add: InitializeSocketConn_def router_addr_def)
  from reachable_run [OF run this] have "link_reachable sock_id (lk, [fs])" .
  from this writers_find_a_connection [OF this, of 50 None None "[Written]"] show ?thesis
    using writer by (intro exI [of _ lk] exI [of _ "[fs]"] exI [of _ c]) simp
qed

end
