(* ===== verification/Reader.thy ===== *)
theory Reader imports Dispatch Link Heartbeat begin

text \<open>
  The loops of both \<open>read_tcp\<close> functions: they cut the router's stream into operations, hand the
  body of operation 1 to the heartbeat checker through a channel of capacity 3, and give the rest to
  \<open>socket_op\<close> (socket server) or to the log (API server).
\<close>

text \<open>The loop over the stream. \<open>Done (st, rest)\<close> is the state in which \<open>io.ReadFull\<close> fails on the
  \<open>rest\<close>, after which the goroutine calls \<open>handle_conn_err\<close>; the fuel bounds the number of operations
  and the length of the stream is always enough.\<close>

fun read_loop :: "(byte \<times> bytes \<Rightarrow> 's \<Rightarrow> 's outcome) \<Rightarrow> nat \<Rightarrow> bytes \<Rightarrow> 's \<Rightarrow> ('s \<times> bytes) outcome" where
  "read_loop handle 0 bs st = Done (st, bs)"
| "read_loop handle (Suc fuel) bs st =
     (case read_frame bs of
        None \<Rightarrow> Done (st, bs)
      | Some (m, rest) \<Rightarrow> and_then (handle m st) (\<lambda>st'. read_loop handle fuel rest st'))"

definition HEARTBEAT_CHAN_SIZE :: nat where
  "HEARTBEAT_CHAN_SIZE = 3"

record tcp_reader =
  disp :: dispatch
  beat_chan :: "bytes list"

definition read_tcp_op :: "(string \<Rightarrow> u32) \<Rightarrow> byte \<times> bytes \<Rightarrow> tcp_reader \<Rightarrow> tcp_reader outcome" where
  "read_tcp_op h m st =
     (case m of (op, b) \<Rightarrow>
      if op = 1 then
        if length (beat_chan st) < HEARTBEAT_CHAN_SIZE
        then Done (st\<lparr>beat_chan := beat_chan st @ [b], disp := (disp st)\<lparr>received := 0\<rparr>\<rparr>)
        else Blocked
      else and_then (socket_op h op b (disp st)) (\<lambda>d. Done (st\<lparr>disp := d\<rparr>)))"

definition read_tcp :: "(string \<Rightarrow> u32) \<Rightarrow> bytes \<Rightarrow> tcp_reader \<Rightarrow> (tcp_reader \<times> bytes) outcome" where
  "read_tcp h bs st = read_loop (read_tcp_op h) (length bs) bs st"

record api_reader =
  api_beat_chan :: "bytes list"
  unexpected :: "(byte \<times> bytes) list"

definition api_read_tcp_op :: "byte \<times> bytes \<Rightarrow> api_reader \<Rightarrow> api_reader outcome" where
  "api_read_tcp_op m st =
     (case m of (op, b) \<Rightarrow>
      if op = 1 then
        if length (api_beat_chan st) < HEARTBEAT_CHAN_SIZE
        then Done (st\<lparr>api_beat_chan := api_beat_chan st @ [b]\<rparr>)
        else Blocked
      else Done (st\<lparr>unexpected := unexpected st @ [(op, b)]\<rparr>))"

definition api_read_tcp :: "bytes \<Rightarrow> api_reader \<Rightarrow> (api_reader \<times> bytes) outcome" where
  "api_read_tcp bs st = read_loop api_read_tcp_op (length bs) bs st"

subsection \<open>The loop runs over the operations of the stream\<close>

fun run_ops :: "('m \<Rightarrow> 's \<Rightarrow> 's outcome) \<Rightarrow> 'm list \<Rightarrow> 's \<Rightarrow> 's outcome" where
  "run_ops handle [] st = Done st"
| "run_ops handle (m # ms) st = and_then (handle m st) (run_ops handle ms)"

lemma read_loop_drain:
  "read_loop handle fuel bs st =
     and_then (run_ops handle (fst (drain fuel read_frame bs)) st) (\<lambda>st'. Done (st', snd (drain fuel read_frame bs)))"
proof (induction fuel arbitrary: bs st)
  case (Suc fuel)
  show ?case
  proof (cases "read_frame bs")
    case (Some mr)
    obtain m rest where "mr = (m, rest)" by (cases mr)
    then show ?thesis using Some by (cases "handle m st") (simp_all add: Suc.IH case_prod_beta)
  qed simp
qed simp

lemma read_loop_ops:
  "read_loop handle (length bs) bs st =
     and_then (run_ops handle (fst (read_ops bs)) st) (\<lambda>st'. Done (st', snd (read_ops bs)))"
  by (simp add: read_loop_drain read_ops_def)

subsection \<open>The API server's reader\<close>

lemma api_run_ops:
  "length (api_beat_chan st) + length (filter (\<lambda>m. fst m = 1) ops) \<le> HEARTBEAT_CHAN_SIZE \<Longrightarrow>
     run_ops api_read_tcp_op ops st = Done (st\<lparr>api_beat_chan := api_beat_chan st @ map snd (filter (\<lambda>m. fst m = 1) ops),
       unexpected := unexpected st @ filter (\<lambda>m. fst m \<noteq> 1) ops\<rparr>)"
  by (induction ops arbitrary: st) (auto simp: api_read_tcp_op_def)

text \<open>The API server takes nothing but heartbeats from the router. Of any operations written one after the other
  its reader puts the bodies of the heartbeats into the heartbeat channel, in order, as long as there is
  room, and logs every other one; the stream is consumed to its end.\<close>

theorem api_reader_takes_heartbeats:
  assumes "list_all fits_u32 ops"
    and "length (api_beat_chan st) + length (filter (\<lambda>m. fst m = 1) ops) \<le> HEARTBEAT_CHAN_SIZE"
  shows "api_read_tcp (concat (map frame ops)) st = Done (st\<lparr>
    api_beat_chan := api_beat_chan st @ map snd (filter (\<lambda>m. fst m = 1) ops),
    unexpected := unexpected st @ filter (\<lambda>m. fst m \<noteq> 1) ops\<rparr>, [])"
proof -
  have "read_ops (concat (map frame ops)) = (ops, [])"
    using router_frames.drain_concat [OF assms(1) le_refl] by (simp add: read_ops_def)
  then show ?thesis by (simp add: api_read_tcp_def read_loop_ops api_run_ops [OF assms(2)])
qed

theorem api_reader_takes_heartbeats_witness:
  "api_read_tcp (concat (map frame [(1, [5, 6]), (9, [7])])) \<lparr>api_beat_chan = [], unexpected = []\<rparr>
     = Done (\<lparr>api_beat_chan = [[5, 6]], unexpected = [(9, [7])]\<rparr>, [])"
  using api_reader_takes_heartbeats [of "[(1, [5, 6]), (9, [7])]" "\<lparr>api_beat_chan = [], unexpected = []\<rparr>"]
  by (simp add: fits_u32_def HEARTBEAT_CHAN_SIZE_def)

subsection \<open>From the router's bytes to a connection's channel\<close>

text \<open>The operations the router writes for a list of payloads to one connection.\<close>

definition payload_ops :: "string \<Rightarrow> bytes list \<Rightarrow> (byte \<times> string slice \<times> byte slice) list" where
  "payload_ops w ps = map (\<lambda>p. (51, Some [w], Some p)) ps"

definition filled :: "chan_id \<Rightarrow> bytes list \<Rightarrow> tcp_reader \<Rightarrow> tcp_reader" where
  "filled c ps st = st\<lparr>disp := (disp st)\<lparr>received := received (disp st) + word_of_nat (length ps),
     conns := (conns (disp st))\<lparr>channels := (channels (conns (disp st)))
       [c := (channels (conns (disp st)) ! c)\<lparr>buf := buf (channels (conns (disp st)) ! c) @ ps\<rparr>]\<rparr>\<rparr>\<rparr>"

lemma table_lookup_filled [simp]: "table_lookup h (conns (disp (filled c ps st))) = table_lookup h (conns (disp st))"
  by (simp add: filled_def)

lemma reg_ok_filled:
  assumes "reg_ok h (conns (disp st))"
  shows "reg_ok h (conns (disp (filled c ps st)))"
proof (rule reg_okI)
  show "d < length (channels (conns (disp (filled c ps st)))) \<and> \<not> closed (channels (conns (disp (filled c ps st))) ! d)"
    if "table_lookup h (conns (disp (filled c ps st))) v = Some d" for v d
    using that reg_ok_open [OF assms, of v d] by (cases "c = d") (auto simp: filled_def)
  show "u = v" if "table_lookup h (conns (disp (filled c ps st))) u = Some d"
    "table_lookup h (conns (disp (filled c ps st))) v = Some d" for u v d
    using that reg_ok_inj [OF assms] by simp
qed (use assms in \<open>simp_all add: filled_def reg_ok_def\<close>)

lemma run_payload_ops:
  assumes "reg_ok h (conns (disp st))" and "table_lookup h (conns (disp st)) w = Some c" and "delim_free w"
    and "list_all (\<lambda>p. p \<noteq> []) ps" and "length (buf (channels (conns (disp st)) ! c)) + length ps \<le> CHAN_SIZE"
  shows "run_ops (read_tcp_op h) (op_bodies (payload_ops w ps)) st = Done (filled c ps st)"
  using assms
proof (induction ps arbitrary: st)
  case Nil
  then show ?case by (simp add: op_bodies_def payload_ops_def filled_def)
next
  case (Cons p ps)
  have c: "c < length (channels (conns (disp st)))" using reg_ok_open [OF Cons.prems(1,2)] by simp
  have "socket_op h 51 (op_body (Some [w]) (Some p)) (disp st) = Done (disp (filled c [p] st))"
    using socket_op_registered [OF Cons.prems(1,2,3), of p 51] Cons.prems(4,5) by (simp add: filled_def)
  then have "read_tcp_op h (51, op_body (Some [w]) (Some p)) st = Done (filled c [p] st)"
    by (simp add: read_tcp_op_def filled_def)
  moreover have "filled c ps (filled c [p] st) = filled c (p # ps) st"
    using c by (simp add: filled_def)
  moreover have "length (buf (channels (conns (disp (filled c [p] st))) ! c)) + length ps \<le> CHAN_SIZE"
    using c Cons.prems(5) by (simp add: filled_def)
  ultimately show ?case
    using Cons.IH [of "filled c [p] st"] Cons.prems by (simp add: reg_ok_filled op_bodies_def payload_ops_def)
qed

text \<open>What the router writes for a connection arrives in its channel. The bytes that package a list
  of payloads for a registered id, read by the socket server's \<open>read_tcp\<close>, end in that connection's
  channel: all payloads, unchanged and in order, nothing else changed but the count, and no byte of the
  stream left over (as long as the channel has room for them).\<close>

theorem router_payloads_arrive:
  assumes "reg_ok h (conns (disp st))" and "table_lookup h (conns (disp st)) w = Some c" and "delim_free w"
    and "list_all (\<lambda>p. p \<noteq> []) ps" and "length (buf (channels (conns (disp st)) ! c)) + length ps \<le> CHAN_SIZE"
    and "list_all fits_u32 (op_bodies (payload_ops w ps))"
  shows "read_tcp h (write_ops (payload_ops w ps)) st = Done (filled c ps st, [])"
proof -
  have "read_ops (write_ops (payload_ops w ps)) = (op_bodies (payload_ops w ps), [])"
    using router_frames.drain_concat [OF assms(6) le_refl] by (simp add: read_ops_def write_ops_frames)
  then show ?thesis
    using run_payload_ops [OF assms(1-5)] by (simp add: read_tcp_def read_loop_ops)
qed

theorem router_payloads_arrive_witness:
  "read_tcp (\<lambda>_. 3) (write_ops (payload_ops ''WS1'' [[100, 7], [32]])) \<lparr>disp = one_dispatch, beat_chan = []\<rparr>
     = Done (filled 0 [[100, 7], [32]] \<lparr>disp = one_dispatch, beat_chan = []\<rparr>, [])"
proof -
  have c: "channels one_conn = [\<lparr>buf = [], closed = False\<rparr>]" by (simp add: one_conn_def)
  show ?thesis
    by (rule router_payloads_arrive)
      (simp_all add: one_dispatch_def one_conn_ok one_conn_lookup delim_free_def op_bodies_def payload_ops_def
        fits_u32_def op_body_def CHAN_SIZE_def DEFAULT_SPLIT_CHAR_def c)
qed

end
