(* ===== verification/Api_Link.thy ===== *)
theory Api_Link imports Link Reader begin

text \<open>
  The API server's side of the router link (\<open>messages/api_client.go\<close>, \<open>messages/conn_helpers.go\<close>).
  It is a second copy of the socket server's code; what differs is the id it announces, the writers'
  pointer it uses, and what it does with operations from the router.
\<close>

definition api_package_op :: "byte \<Rightarrow> string slice \<Rightarrow> byte slice \<Rightarrow> bytes" where
  "api_package_op op params payload =
     (let b_param = to_bytes (join '':'' (elems params));
          b_param' = (if params \<noteq> None \<and> payload \<noteq> None then b_param @ [byte_of_char CHR '':''] else b_param);
          size = length b_param' + length (elems payload)
      in [op] @ put_u32 (word_of_nat size) @ b_param' @ elems payload)"

lemma api_package_op_eq: "api_package_op = package_op"
  unfolding api_package_op_def [abs_def] package_op_def [abs_def] DEFAULT_SPLIT_CHAR_def DEFAULT_DELIM_def list.sel
  by (rule refl)

text \<open>The package has its own copy of the parser, text for text, which nothing calls.\<close>

definition api_byte_to_params_and_payload :: "bytes \<Rightarrow> byte \<Rightarrow> bool \<Rightarrow> parsed" where
  "api_byte_to_params_and_payload b n_param payload_exists = byte_to_params_and_payload b n_param payload_exists"

definition api_handle_panic_err :: "string option \<Rightarrow> 'a outcome" where
  "api_handle_panic_err err = handle_panic_err err"

definition api_log_err :: "string \<Rightarrow> link \<Rightarrow> link" where
  "api_log_err err lk = log_err err lk"

definition connect_new_api :: "string \<Rightarrow> addr \<Rightarrow> attempt \<Rightarrow> link \<Rightarrow> (link_frame list \<times> link) outcome" where
  "connect_new_api old_conn_id ad a lk = connect_new api_id old_conn_id ad a lk"

definition recover_api :: "addr \<Rightarrow> nat \<Rightarrow> attempt \<Rightarrow> link \<Rightarrow> (link_frame list \<times> link) outcome" where
  "recover_api ad i a lk = recover_attempt api_id ad i a lk"

definition api_write_message ::
  "byte \<Rightarrow> byte slice \<Rightarrow> string slice \<Rightarrow> router_conn_obj \<Rightarrow> write_result list \<Rightarrow> link \<Rightarrow> write_outcome \<times> link" where
  "api_write_message op payload params writer rs lk =
     (case conn writer of
        None \<Rightarrow> (NilConn, lk)
      | Some c \<Rightarrow>
          (case write_retries MAX_RETRIES (api_package_op op params payload) rs of
             (out, _, ok) \<Rightarrow>
               let lk1 = lk\<lparr>sent := sent lk @ [(c, out)]\<rparr> in
               if ok then (WriteDone (c, out), lk1)
               else (case handle_conn_err writer ''write faliure: '' lk1 of
                 (fs, lk2) \<Rightarrow> (WriteError (c, out) fs, lk2))))"

lemma api_write_message_eq: "api_write_message = socket_write"
  unfolding api_write_message_def [abs_def] socket_write_def [abs_def] api_package_op_eq by simp

definition api_handle_conn_err :: "router_conn_obj \<Rightarrow> string \<Rightarrow> link \<Rightarrow> link_frame list \<times> link" where
  "api_handle_conn_err ob err lk = handle_conn_err ob err lk"

definition InitializeApiConn :: "link \<times> link_frame list list" where
  "InitializeApiConn = (no_link, map (\<lambda>ad. [Connecting ad]) router_addr)"

definition CloseApiConn :: "string list \<Rightarrow> link \<Rightarrow> link" where
  "CloseApiConn keys lk = CloseSocketConn keys lk"

end
