(* ===== verification/Http.thy ===== *)
theory Http imports Prelude begin

text \<open>
  What the HTTP handlers share: the request, the response being built, the error helpers of
  \<open>errors/errors.go\<close> and \<open>helpers.OKResponse\<close>. A Go \<open>error\<close> is \<open>string option\<close>, nil being
  \<open>None\<close>. The point to keep in mind is that the helpers return the result of \<open>c.JSON\<close>, so that a
  handled error comes back to the caller as nil when the answer could be encoded.
\<close>

type_synonym err = "string option"

type_synonym uuid = string

subsection \<open>Responses\<close>

record friends_schema =
  fr_RelationID :: uuid
  fr_Username :: string
  fr_ChainID :: uuid
  fr_Created :: int
  fr_LastSeen :: int
  fr_LastRecv :: int
  fr_Key :: int

record requests_schema =
  rq_Username :: string
  rq_RelationID :: uuid
  rq_Created :: int
  rq_Requested :: bool

record relations_schema =
  Friends :: "friends_schema list"
  Requests :: "requests_schema list"
  Requested :: "requests_schema list"

record message_schema =
  ms_MessageID :: uuid
  ms_UserID :: uuid
  ms_Created :: int
  ms_Expires :: int
  ms_Type :: int
  ms_Seen :: bool
  ms_Display :: string
  ms_Duration :: int

record error_response =
  er_Error :: bool
  er_Problem :: string
  er_Description :: string

datatype response = ErrorBody error_response | UsernameBody string | AcceptedBody uuid int
  | RelationsBody relations_schema | MessagesBody "message_schema list" | MessageBody uuid int
  | SessionBody string | PublicUserBody string uuid string
  | UserInfoBody uuid string string relations_schema | StreamBody string

text \<open>The request: headers, path parameters and query arguments (the empty text when absent), and
  the client's address.\<close>

record request =
  header :: "string \<Rightarrow> string"
  path_param :: "string \<Rightarrow> string"
  query_arg :: "string \<Rightarrow> string"
  client_ip :: string

text \<open>The context under construction: status, body, response headers, locals (\<open>c.Locals\<close>), whether
  \<open>c.Next\<close> was called, and the two log files.\<close>

record http =
  status :: nat
  body :: "response option"
  resp_headers :: "(string \<times> string) list"
  locals :: "string \<rightharpoonup> string"
  passed :: bool
  internal_log :: "string list"
  monitor_log :: "string list"

definition new_http :: http where
  "new_http = \<lparr>status = 200, body = None, resp_headers = [], locals = Map.empty, passed = False,
     internal_log = [], monitor_log = []\<rparr>"

text \<open>\<open>c.Status(s).JSON(r)\<close>; whether the encoder takes a value is a parameter.\<close>

type_synonym encoder = "response \<Rightarrow> bool"

definition c_json :: "encoder \<Rightarrow> response \<Rightarrow> ('z) http_scheme \<Rightarrow> err \<times> 'z http_scheme" where
  "c_json enc r c = (if enc r then (None, c\<lparr>body := Some r\<rparr>) else (Some ''json'', c))"

subsection \<open>The error helpers\<close>

definition HandleBasicError :: "err \<Rightarrow> 'z http_scheme \<Rightarrow> bool \<times> 'z http_scheme" where
  "HandleBasicError err c = (case err of
     Some e \<Rightarrow> (True, c\<lparr>internal_log := internal_log c @ [e]\<rparr>) | None \<Rightarrow> (False, c))"

definition HandleComplexError :: "string \<Rightarrow> string \<Rightarrow> 'z http_scheme \<Rightarrow> err \<times> 'z http_scheme" where
  "HandleComplexError problem err c =
     (Some (''Problem: '' @ problem @ ''; Error: '' @ err),
      c\<lparr>monitor_log := monitor_log c @ [''Complex error; Problem: '' @ problem @ ''; Error: '' @ err]\<rparr>)"

definition HandleInternalError :: "encoder \<Rightarrow> string \<Rightarrow> 'z http_scheme \<Rightarrow> err \<times> 'z http_scheme" where
  "HandleInternalError enc problem c =
     c_json enc (ErrorBody \<lparr>er_Error = True, er_Problem = '''', er_Description = ''''\<rparr>)
       (c\<lparr>internal_log := internal_log c @ [problem], status := 500\<rparr>)"

definition HandleBadRequestError :: "encoder \<Rightarrow> string \<Rightarrow> string \<Rightarrow> 'z http_scheme \<Rightarrow> err \<times> 'z http_scheme" where
  "HandleBadRequestError enc problem description c =
     c_json enc (ErrorBody \<lparr>er_Error = True, er_Problem = problem, er_Description = description\<rparr>)
       (c\<lparr>monitor_log := monitor_log c @ [''Bad Request; Problem: '' @ problem @ ''; Description: '' @ description],
          status := 400\<rparr>)"

definition HandleInvalidRequestError :: "encoder \<Rightarrow> string \<Rightarrow> string \<Rightarrow> 'z http_scheme \<Rightarrow> err \<times> 'z http_scheme" where
  "HandleInvalidRequestError enc problem description c =
     c_json enc (ErrorBody \<lparr>er_Error = True, er_Problem = problem, er_Description = description\<rparr>)
       (c\<lparr>status := 202\<rparr>)"

text \<open>The validator's error, as the list of its failed fields and tags; an empty list or any other error
  value panics.\<close>

definition HandleValidatorError :: "encoder \<Rightarrow> (string \<times> string) list option \<Rightarrow> 'z http_scheme
    \<Rightarrow> (err \<times> 'z http_scheme) outcome" where
  "HandleValidatorError enc errs c =
     (case errs of
        None \<Rightarrow> Panicked BadAssertion
      | Some [] \<Rightarrow> Panicked IndexOutOfRange
      | Some ((field, tag) # _) \<Rightarrow> Done (HandleBadRequestError enc field tag c))"

definition HandleBadJsonError :: "encoder \<Rightarrow> 'z http_scheme \<Rightarrow> err \<times> 'z http_scheme" where
  "HandleBadJsonError enc c = HandleBadRequestError enc ''JSON body'' ''invalid'' c"

definition OKResponse :: "encoder \<Rightarrow> 'z http_scheme \<Rightarrow> err \<times> 'z http_scheme" where
  "OKResponse enc c = c_json enc (ErrorBody \<lparr>er_Error = False, er_Problem = '''', er_Description = ''''\<rparr>) (c\<lparr>status := 200\<rparr>)"

subsection \<open>What the helpers return\<close>

definition error_body :: "string \<Rightarrow> string \<Rightarrow> response" where
  "error_body problem description = ErrorBody \<lparr>er_Error = True, er_Problem = problem, er_Description = description\<rparr>"

definition local_string :: "string \<Rightarrow> 'z http_scheme \<Rightarrow> string outcome" where
  "local_string key c = (case locals c key of None \<Rightarrow> Panicked BadAssertion | Some s \<Rightarrow> Done s)"

lemmas http_helpers = c_json_def HandleInternalError_def HandleBadRequestError_def
  HandleInvalidRequestError_def HandleBadJsonError_def OKResponse_def

lemma helpers_frame [simp]:
  "passed (snd (HandleInternalError enc p c)) = passed c" "passed (snd (HandleBadRequestError enc p d c)) = passed c"
  "passed (snd (HandleInvalidRequestError enc p d c)) = passed c"
  "locals (snd (HandleInternalError enc p c)) = locals c" "locals (snd (HandleBadRequestError enc p d c)) = locals c"
  "locals (snd (HandleInvalidRequestError enc p d c)) = locals c"
  by (simp_all add: http_helpers)

lemma helpers_pair:
  "HandleInternalError enc p c = (e, c') \<Longrightarrow> passed c' = passed c \<and> locals c' = locals c"
  "HandleBadRequestError enc p d c = (e, c') \<Longrightarrow> passed c' = passed c \<and> locals c' = locals c"
  "HandleInvalidRequestError enc p d c = (e, c') \<Longrightarrow> passed c' = passed c \<and> locals c' = locals c"
  by (metis helpers_frame snd_conv)+

lemma helpers_return_nil [simp]:
  assumes "\<And>r. enc r"
  shows "fst (HandleInternalError enc p c) = None" "fst (HandleBadRequestError enc p d c) = None"
    "fst (HandleInvalidRequestError enc p d c) = None" "fst (OKResponse enc c) = None"
  using assms by (simp_all add: http_helpers)

end
