(* ===== verification/Store.thy ===== *)
theory Store imports Http begin

text \<open>
  What the HTTP handlers do to the services behind them: the statements sent to ScyllaDB, the Redis
  commands, the objects put into MinIO, the mails and the operations handed to the router, in the
  order they are issued. Whether each of them succeeds is a parameter. Also here are the pieces of
  Go's standard library the handlers use on texts and numbers.
\<close>

subsection \<open>Commands\<close>

text \<open>A bound value of a CQL statement: unset (\<open>gocql.UnsetValue\<close>, and every column a statement does not
  name) or a value.\<close>

datatype 'v col = Unset | Col 'v

record relation_update =
  u_created :: "int col"
  u_chain_id :: "uuid col"
  u_relation_username :: "string col"
  u_last_recv :: "int col"
  u_last_seen :: "int col"
  u_friend :: "bool col"
  u_requested :: "bool col"
  u_active :: "bool col"

definition no_update :: relation_update where
  "no_update = \<lparr>u_created = Unset, u_chain_id = Unset, u_relation_username = Unset, u_last_recv = Unset,
     u_last_seen = Unset, u_friend = Unset, u_requested = Unset, u_active = Unset\<rparr>"

datatype command =
    UpdateRelation relation_update uuid uuid
  | UpdateLastSeenIf uuid uuid int
  | InsertChainUsers uuid "uuid list" int
  | InsertMessage uuid int uuid uuid int int string int
  | SetSeen uuid int
  | InsertUserPublic string uuid
  | InsertUser string uuid string int string
  | InsertUserPrivate uuid string
  | HSet string "(string \<times> string) list"
  | ExpireAt string int
  | Expire string int
  | PutObject string string
  | SendMail string string

text \<open>The handlers' context with the commands issued and the router operations sent so far.\<close>

record srv = http +
  commands :: "command list"
  outbox :: "(byte \<times> byte slice \<times> string list) list"

definition new_srv :: srv where
  "new_srv = \<lparr>status = 200, body = None, resp_headers = [], locals = Map.empty, passed = False,
     internal_log = [], monitor_log = [], commands = [], outbox = []\<rparr>"

text \<open>Issuing a command; the \<open>n\<close>-th command of a request succeeds when \<open>exec_ok n\<close>.\<close>

definition exec :: "(nat \<Rightarrow> bool) \<Rightarrow> command \<Rightarrow> srv \<Rightarrow> bool \<times> srv" where
  "exec exec_ok cmd c = (exec_ok (length (commands c)), c\<lparr>commands := commands c @ [cmd]\<rparr>)"

text \<open>What a Redis read gives: \<open>redis.Nil\<close>, another error, or the reply.\<close>

datatype 'a redis_reply = RedisNil | RedisFails | Reply 'a

subsection \<open>Texts and numbers\<close>

text \<open>\<open>strings.Split\<close> with a separator that is not empty.\<close>

fun cut :: "string \<Rightarrow> string \<Rightarrow> (string \<times> string) option" where
  "cut sep [] = None"
| "cut sep (x # s) =
     (if take (length sep) (x # s) = sep then Some ([], drop (length sep) (x # s))
      else map_option (\<lambda>(a, b). (x # a, b)) (cut sep s))"

fun split_upto :: "nat \<Rightarrow> string \<Rightarrow> string \<Rightarrow> string list" where
  "split_upto 0 sep s = [s]"
| "split_upto (Suc n) sep s = (case cut sep s of None \<Rightarrow> [s] | Some (a, b) \<Rightarrow> a # split_upto n sep b)"

definition strings_split :: "string \<Rightarrow> string \<Rightarrow> string list" where
  "strings_split s sep = split_upto (length s) sep s"

text \<open>\<open>strconv.ParseInt(s, 10, 64)\<close>: an optional sign, then decimal digits, in the range of an int64.\<close>

definition is_digit :: "char \<Rightarrow> bool" where
  "is_digit c \<longleftrightarrow> 48 \<le> (of_char c :: nat) \<and> (of_char c :: nat) \<le> 57"

definition parse_int :: "string \<Rightarrow> int option" where
  "parse_int s =
     (let (neg, ds) = (case s of
            [] \<Rightarrow> (False, [])
          | x # xs \<Rightarrow> if x = CHR ''-'' then (True, xs) else if x = CHR ''+'' then (False, xs) else (False, x # xs));
          v = (if neg then - int (undecimal ds) else int (undecimal ds))
      in if ds = [] \<or> \<not> list_all is_digit ds \<or> v < - (2 ^ 63) \<or> 2 ^ 63 \<le> v then None else Some v)"

text \<open>\<open>hex.EncodeToString\<close> and \<open>helpers.RandomTokenString\<close> over what \<open>rand.Read\<close> gives.\<close>

definition hex_digit :: "nat \<Rightarrow> char" where
  "hex_digit n = (if n < 10 then char_of (48 + n) else char_of (87 + n))"

definition hex_encode :: "bytes \<Rightarrow> string" where
  "hex_encode b = concat (map (\<lambda>x. [hex_digit (unat x div 16), hex_digit (unat x mod 16)]) b)"

definition RandomTokenString :: "(nat \<Rightarrow> bytes option) \<Rightarrow> nat \<Rightarrow> string option" where
  "RandomTokenString rand n = map_option hex_encode (rand n)"

lemma length_hex_encode [simp]: "length (hex_encode b) = 2 * length b"
  by (induction b) (simp_all add: hex_encode_def)

lemma undecimal_bound: "list_all is_digit ds \<Longrightarrow> undecimal ds < 10 ^ length ds"
proof (induction ds rule: rev_induct)
  case Nil
  then show ?case by (simp add: undecimal_def)
next
  case (snoc d ds)
  then have "undecimal ds < 10 ^ length ds" and "(of_char d :: nat) - 48 < 10"
    by (auto simp: is_digit_def)
  then show ?case by (simp add: undecimal_snoc)
qed

text \<open>A number read from \<open>n\<close> characters is below \<open>10 ^ n\<close>.\<close>

lemma parse_int_bound:
  assumes "parse_int s = Some v"
  shows "v < 10 ^ length s"
proof -
  obtain neg ds where ds: "(case s of [] \<Rightarrow> (False, []) | x # xs \<Rightarrow> if x = CHR ''-'' then (True, xs)
      else if x = CHR ''+'' then (False, xs) else (False, x # xs)) = (neg, ds)" by fastforce
  then have len: "length ds \<le> length s" by (auto split: list.splits if_splits)
  from assms ds have digits: "list_all is_digit ds" and v: "v \<le> int (undecimal ds)"
    by (auto simp: parse_int_def Let_def split: if_splits)
  have "int (undecimal ds) < 10 ^ length ds"
    using undecimal_bound [OF digits] by (metis of_nat_less_iff of_nat_numeral of_nat_power)
  also have "\<dots> \<le> (10 :: int) ^ length s" using len by (intro power_increasing) auto
  finally have "int (undecimal ds) < 10 ^ length s" .
  with v show ?thesis by (rule le_less_trans)
qed

lemma exec_frame [simp]:
  "passed (snd (exec ok cmd c)) = passed c" "locals (snd (exec ok cmd c)) = locals c"
  "outbox (snd (exec ok cmd c)) = outbox c" "status (snd (exec ok cmd c)) = status c"
  "body (snd (exec ok cmd c)) = body c" "commands (snd (exec ok cmd c)) = commands c @ [cmd]"
  by (simp_all add: exec_def)

lemma helpers_srv_frame [simp]:
  "commands (snd (HandleInternalError enc p c)) = commands c" "outbox (snd (HandleInternalError enc p c)) = outbox c"
  "commands (snd (HandleBadRequestError enc p d c)) = commands c" "outbox (snd (HandleBadRequestError enc p d c)) = outbox c"
  "commands (snd (HandleInvalidRequestError enc p d c)) = commands c" "outbox (snd (HandleInvalidRequestError enc p d c)) = outbox c"
  by (simp_all add: http_helpers)

subsection \<open>Services as states\<close>

text \<open>Commands carried out one after the other on the state of a service; \<open>None\<close> as soon as one cannot be.\<close>

definition run_all :: "(command \<Rightarrow> 's \<Rightarrow> 's option) \<Rightarrow> command list \<Rightarrow> 's \<Rightarrow> 's option" where
  "run_all does cmds s = fold (\<lambda>cmd r. Option.bind r (does cmd)) cmds (Some s)"

lemma run_all_None: "fold (\<lambda>cmd r. Option.bind r (does cmd)) cmds None = None"
  by (induction cmds) simp_all

lemma run_all_simps [simp]:
  "run_all does [] s = Some s" "run_all does (cmd # cmds) s = Option.bind (does cmd s) (run_all does cmds)"
  by (cases "does cmd s"; simp add: run_all_def run_all_None)+

text \<open>What a service promises of its state: that every command it carries out keeps the invariant.\<close>

locale command_store =
  fixes does :: "command \<Rightarrow> 's \<Rightarrow> 's option"
    and inv :: "'s \<Rightarrow> bool"
  assumes kept: "inv s \<Longrightarrow> does cmd s = Some s' \<Longrightarrow> inv s'"
begin

lemma kept_by_all: "inv s \<Longrightarrow> run_all does cmds s = Some s' \<Longrightarrow> inv s'"
proof (induction cmds arbitrary: s)
  case (Cons cmd cmds)
  then show ?case using kept by (cases "does cmd s") auto
qed simp

end

end
