(* ===== verification/Auth.thy ===== *)
theory Auth imports Store begin

text \<open>
  Tokens and passwords (\<open>helpers/auth.helpers.go\<close>) and the middleware that lets requests through
  (\<open>middlewares/auth.middlewares.go\<close>). JWT, Redis, RSA, AES-GCM, base64, randomness and the clock are
  parameters; times are Unix milliseconds, the clock is in nanoseconds.
\<close>

subsection \<open>JWT\<close>

text \<open>What \<open>jwt.Parse\<close> gives: an error other than the expiry alone, or claims (\<open>None\<close> when they are not
  \<open>MapClaims\<close>), expired or not.\<close>

datatype parsed_jwt = TokenBad | TokenClaims bool "(string \<rightharpoonup> string) option"

record auth_env =
  encodes :: encoder
  jwt :: "string \<Rightarrow> parsed_jwt"
  sign_jwt :: "(string \<times> string) list \<Rightarrow> int \<Rightarrow> string option"
  now_nano :: int
  rand :: "nat \<Rightarrow> bytes option"
  redis_hgetall :: "string \<Rightarrow> (string \<rightharpoonup> string) redis_reply"
  queue_ok :: "nat \<Rightarrow> bool"
  pipeline_ok :: bool
  b64_decode :: "string \<Rightarrow> bytes option"
  rsa_decrypt :: "bytes \<Rightarrow> bytes option"
  gcm_open :: "bytes \<Rightarrow> bytes \<Rightarrow> bytes \<Rightarrow> bytes option"
  valid_key :: "bytes \<Rightarrow> bool"

definition now_ms :: "('e) auth_env_scheme \<Rightarrow> int" where
  "now_ms E = now_nano E div 1000000"

definition RefreshTokenDuration :: int where
  "RefreshTokenDuration = 24 * 60 * 60 * 60 * 1000"

definition GenerateJWT :: "'e auth_env_scheme \<Rightarrow> string \<Rightarrow> string \<Rightarrow> string \<Rightarrow> srv \<Rightarrow> (string \<times> err) \<times> srv" where
  "GenerateJWT E userID username sessionID c =
     (let exp = (now_nano E + 60 * 60 * 1000000000) div 1000000000 in
      case sign_jwt E [(''id'', userID), (''username'', username), (''session_id'', sessionID)] exp of
        None \<Rightarrow> (case HandleInternalError (encodes E) ''jwt'' c of (err, c1) \<Rightarrow> (('''', err), c1))
      | Some token \<Rightarrow> ((token, None), c))"

record parse_result =
  p_expired :: bool
  p_id :: string
  p_username :: string
  p_session :: string
  p_err :: err

definition ParseJWT :: "'e auth_env_scheme \<Rightarrow> string \<Rightarrow> srv \<Rightarrow> (parse_result \<times> srv) outcome" where
  "ParseJWT E jwtString c =
     (case jwt E jwtString of
        TokenBad \<Rightarrow>
          (case HandleInternalError (encodes E) ''jwt_parse'' c of (err, c1) \<Rightarrow>
             Done (\<lparr>p_expired = False, p_id = '''', p_username = '''', p_session = '''', p_err = err\<rparr>, c1))
      | TokenClaims expired None \<Rightarrow>
          (case HandleInternalError (encodes E) ''jwt_claims'' c of (err, c1) \<Rightarrow>
             Done (\<lparr>p_expired = expired, p_id = '''', p_username = '''', p_session = '''', p_err = err\<rparr>, c1))
      | TokenClaims expired (Some user) \<Rightarrow>
          (case (user ''id'', user ''username'', user ''session_id'') of
             (Some i, Some n, Some s) \<Rightarrow>
               Done (\<lparr>p_expired = expired, p_id = i, p_username = n, p_session = s, p_err = None\<rparr>, c)
           | _ \<Rightarrow> Panicked BadAssertion))"

subsection \<open>Refreshing tokens\<close>

text \<open>The function given to \<open>Pipelined\<close>: it returns its error, whether it set the flag, the tokens so far
  (refresh token, its expiry, access token) and the commands it queued.\<close>

record closure_result =
  cl_err :: err
  cl_redisError :: bool
  cl_refresh :: string
  cl_expire :: int
  cl_access :: string
  cl_queue :: "command list"

definition tokens_closure :: "'e auth_env_scheme \<Rightarrow> string \<Rightarrow> string \<Rightarrow> string \<Rightarrow> string \<Rightarrow> srv \<Rightarrow> closure_result \<times> srv" where
  "tokens_closure E ip userID sessionID username c =
     (let failed = (\<lambda>problem r. case HandleInternalError (encodes E) problem c of
           (err, c1) \<Rightarrow> (r\<lparr>cl_err := err, cl_redisError := True\<rparr>, c1));
          r0 = \<lparr>cl_err = None, cl_redisError = False, cl_refresh = '''', cl_expire = 0, cl_access = '''', cl_queue = []\<rparr>
      in case RandomTokenString (rand E) 40 of
           None \<Rightarrow> failed ''password'' r0
         | Some token \<Rightarrow>
             let tokenExpire = now_ms E + RefreshTokenDuration;
                 set = HSet (''refreshtokens:'' @ sessionID) [(''token'', token), (''userid'', userID), (''ip'', ip)];
                 expire = ExpireAt (''refreshtokens:'' @ sessionID) tokenExpire;
                 r1 = r0\<lparr>cl_refresh := token, cl_expire := tokenExpire, cl_queue := [set]\<rparr>;
                 r2 = r1\<lparr>cl_queue := [set, expire]\<rparr>
             in if \<not> queue_ok E 0 then failed ''set_refresh_tokens'' r1
                else if \<not> queue_ok E 1 then failed ''expire_refresh_tokens'' r2
                else (case GenerateJWT E userID username sessionID c of
                  ((token, err), c1) \<Rightarrow>
                    if token = [] then (r2\<lparr>cl_err := err, cl_redisError := True\<rparr>, c1)
                    else (r2\<lparr>cl_access := token\<rparr>, c1)))"

text \<open>\<open>Pipelined\<close> sends the queue when the function returned nil. The flag makes the whole return the
  outer \<open>err\<close>, which is nil there.\<close>

definition GenerateAndRefreshTokens :: "'e auth_env_scheme \<Rightarrow> string \<Rightarrow> string \<Rightarrow> string \<Rightarrow> string \<Rightarrow> srv \<Rightarrow> err \<times> srv" where
  "GenerateAndRefreshTokens E ip userID sessionID username c =
     (case tokens_closure E ip userID sessionID username c of (r, c1) \<Rightarrow>
      let c2 = (if cl_err r = None then c1\<lparr>commands := commands c1 @ cl_queue r\<rparr> else c1);
          err = (if cl_err r \<noteq> None then cl_err r else if pipeline_ok E then None else Some ''pipeline'')
      in if err \<noteq> None then HandleInternalError (encodes E) ''pipeline'' c2
         else if cl_redisError r then (err, c2)
         else (None, c2\<lparr>resp_headers := resp_headers c2 @
           [(''x-refreshed'', ''true''), (''x-refresh-token'', cl_refresh r),
            (''x-refresh-token-expire'', format_int (word_of_int (cl_expire r))),
            (''x-access-token'', cl_access r)]\<rparr>))"

subsection \<open>Passwords\<close>

text \<open>A moment is its nanoseconds since the epoch.\<close>

definition MilisecondsToTime :: "int \<Rightarrow> int" where
  [simp]: "MilisecondsToTime milli = milli * 1000000"

text \<open>A result of the source's \<open>[]byte, error\<close> pairs.\<close>

definition DecryptRequestPasswordHash :: "'e auth_env_scheme \<Rightarrow> string \<Rightarrow> srv \<Rightarrow> ((bytes \<times> err) \<times> srv) outcome" where
  "DecryptRequestPasswordHash E encPasswordHash c =
     (let chunks = strings_split encPasswordHash ''.'';
          fail = (\<lambda>problem. case HandleInternalError (encodes E) problem c of (err, c1) \<Rightarrow> Done (([], err), c1))
      in if length chunks \<noteq> 3 then fail ''invalid_chunks''
         else case b64_decode E (chunks ! 2) of None \<Rightarrow> fail ''base64_decoding'' | Some nonce \<Rightarrow>
         case parse_int (to_str nonce) of None \<Rightarrow> fail ''string_time_to_string'' | Some numTime \<Rightarrow>
         if MilisecondsToTime numTime + 60 * 1000000000 < now_nano E
         then (case HandleBadRequestError (encodes E) ''EncPasswordHash'' ''Invalid'' c of (err, c1) \<Rightarrow> Done (([], err), c1))
         else case b64_decode E (chunks ! 0) of None \<Rightarrow> fail ''base64_decoding'' | Some encKey \<Rightarrow>
         case b64_decode E (chunks ! 1) of None \<Rightarrow> fail ''base64_decoding'' | Some encPassword \<Rightarrow>
         case rsa_decrypt E encKey of None \<Rightarrow> fail ''decrypt_oaep'' | Some key \<Rightarrow>
         if \<not> valid_key E key then fail ''new_cipher''
         else if length (chunks ! 2) < 12 then Panicked IndexOutOfRange
         else let minNonce = to_bytes (drop (length (chunks ! 2) - 12) (chunks ! 2)) in
         case gcm_open E key minNonce encPassword of
           None \<Rightarrow> fail ''decrypt_cipher_GCM''
         | Some passwordHash \<Rightarrow> Done ((passwordHash, None), c))"

subsection \<open>The middleware\<close>

text \<open>What follows the parsing of the access token: the session of the header must be the token's, and an
  expired token needs its session in Redis, refreshed when the client asks for it.\<close>

definition set_locals :: "parse_result \<Rightarrow> srv \<Rightarrow> srv" where
  "set_locals p c = c\<lparr>locals := (locals c)(''userid'' \<mapsto> p_id p, ''username'' \<mapsto> p_username p,
     ''sessionid'' \<mapsto> p_session p), passed := True\<rparr>"

definition authorize :: "'e auth_env_scheme \<Rightarrow> request \<Rightarrow> parse_result \<Rightarrow> srv \<Rightarrow> err \<times> srv" where
  "authorize E req p c =
     (let SessionID = header req ''x-session-id'' in
      if p_err p \<noteq> None then (p_err p, c)
      else if p_session p \<noteq> SessionID then HandleBadRequestError (encodes E) ''SessionID'' ''invalid'' c
      else if \<not> p_expired p then (None, set_locals p c)
      else case redis_hgetall E (''refreshtokens:'' @ SessionID) of
        RedisNil \<Rightarrow> HandleInvalidRequestError (encodes E) ''RefreshToken'' ''invalid'' c
      | RedisFails \<Rightarrow> HandleInternalError (encodes E) ''get_refresh_tokens'' c
      | Reply res \<Rightarrow>
          if p_id p \<noteq> (case res ''userid'' of None \<Rightarrow> '''' | Some u \<Rightarrow> u)
          then HandleBadRequestError (encodes E) ''UserID'' ''Invalid'' c
          else if header req ''x-refresh'' = ''true''
          then (case GenerateAndRefreshTokens E (client_ip req) (p_id p) SessionID (p_username p) c of
              (err, c2) \<Rightarrow> if err \<noteq> None then (err, c2) else (None, set_locals p c2))
          else (None, set_locals p c))"

definition Authenticate :: "'e auth_env_scheme \<Rightarrow> request \<Rightarrow> srv \<Rightarrow> (err \<times> srv) outcome" where
  "Authenticate E req c =
     (let SessionID = header req ''x-session-id'';
          RefreshToken = header req ''x-refresh-token'';
          bearerSplit = strings_split (header req ''Authorization'') ''Bearer ''
      in case parse_int (header req ''x-refresh-token-expire'') of
           None \<Rightarrow> Done (HandleBadRequestError (encodes E) ''Auth'' ''empty'' c)
         | Some expireAt \<Rightarrow>
             if SessionID = [] \<or> RefreshToken = [] then Done (HandleBadRequestError (encodes E) ''Auth'' ''empty'' c)
             else if length bearerSplit \<noteq> 2 then Done (HandleBadRequestError (encodes E) ''AccessToken'' ''invalid'' c)
             else if expireAt * 1000000 < now_nano E
             then Done (HandleBadRequestError (encodes E) ''RefreshToken'' ''expired'' c)
             else and_then (ParseJWT E (bearerSplit ! 1) c) (\<lambda>(p, c1). Done (authorize E req p c1)))"

end
