(* ===== verification/Auth_Props.thy ===== *)
theory Auth_Props imports Auth begin

text \<open>
  Who gets through the middleware although the error helpers return nil, what it does not check, when
  refreshed tokens are missing, and when an encrypted password is accepted.
\<close>

subsection \<open>Who is let through\<close>

text \<open>The access token of a request, its claims, and whether they name the session of the header.\<close>

definition bearer_token :: "request \<Rightarrow> string option" where
  "bearer_token req = (case strings_split (header req ''Authorization'') ''Bearer '' of [_, t] \<Rightarrow> Some t | _ \<Rightarrow> None)"

definition claims_session :: "'e auth_env_scheme \<Rightarrow> request \<Rightarrow> bool \<Rightarrow> string \<Rightarrow> string \<Rightarrow> bool" where
  "claims_session E req expired uid name \<longleftrightarrow>
     (\<exists>tok user. bearer_token req = Some tok \<and> jwt E tok = TokenClaims expired (Some user)
       \<and> user ''id'' = Some uid \<and> user ''username'' = Some name \<and> user ''session_id'' = Some (header req ''x-session-id''))"

lemma bearer_two: "length (strings_split a b) = 2 \<longleftrightarrow> (\<exists>x y. strings_split a b = [x, y])"
  by (auto simp: length_Suc_conv numeral_2_eq_2)

lemma tokens_frame:
  "passed (snd (GenerateAndRefreshTokens E ip u s n c)) = passed c"
  "locals (snd (GenerateAndRefreshTokens E ip u s n c)) = locals c"
  by (simp_all add: GenerateAndRefreshTokens_def tokens_closure_def GenerateJWT_def Let_def case_prod_beta
      split: option.split)

lemma ParseJWT_session:
  assumes "ParseJWT E tok c = Done (p, c1)" and "p_session p \<noteq> []"
  shows "c1 = c \<and> p_err p = None \<and> (\<exists>user. jwt E tok = TokenClaims (p_expired p) (Some user)
    \<and> user ''id'' = Some (p_id p) \<and> user ''username'' = Some (p_username p) \<and> user ''session_id'' = Some (p_session p))"
  using assms by (auto simp: ParseJWT_def case_prod_beta split: parsed_jwt.splits option.splits)

lemma ParseJWT_passed: "ParseJWT E tok c = Done (p, c1) \<Longrightarrow> passed c1 = passed c"
  by (auto simp: ParseJWT_def case_prod_beta split: parsed_jwt.splits option.splits)

lemma authorize_passes:
  assumes "authorize E req p c = (err, c')" and "passed c'" and "\<not> passed c"
  shows "p_err p = None \<and> p_session p = header req ''x-session-id''
    \<and> (p_expired p \<longrightarrow> (\<exists>res. redis_hgetall E (''refreshtokens:'' @ header req ''x-session-id'') = Reply res
         \<and> p_id p = (case res ''userid'' of None \<Rightarrow> '''' | Some u \<Rightarrow> u)))
    \<and> (\<exists>c1. locals c1 = locals c \<and> locals c' = locals (set_locals p c1))"
  using assms tokens_frame [of E "client_ip req" "p_id p" "header req ''x-session-id''" "p_username p" c]
  by (auto simp: authorize_def Let_def dest!: helpers_pair split: if_splits redis_reply.splits prod.splits)

lemma Authenticate_passes:
  assumes "Authenticate E req c = Done (err, c')" and "passed c'" and "\<not> passed c"
  obtains tok p c1 where "bearer_token req = Some tok" "ParseJWT E tok c = Done (p, c1)"
    "authorize E req p c1 = (err, c')" "header req ''x-session-id'' \<noteq> []"
  using assms
  by (auto simp: Authenticate_def Let_def bearer_token_def bearer_two outcome_simps dest!: helpers_pair
      split: option.splits if_splits)

lemma authenticate_through:
  assumes "Authenticate E req c = Done (err, c')" and "passed c'" and "\<not> passed c"
  shows "\<exists>expired uid name. claims_session E req expired uid name \<and> header req ''x-session-id'' \<noteq> []
    \<and> (expired \<longrightarrow> (\<exists>res. redis_hgetall E (''refreshtokens:'' @ header req ''x-session-id'') = Reply res
         \<and> uid = (case res ''userid'' of None \<Rightarrow> '''' | Some u \<Rightarrow> u)))
    \<and> locals c' = (locals c)(''userid'' \<mapsto> uid, ''username'' \<mapsto> name, ''sessionid'' \<mapsto> header req ''x-session-id'')"
proof -
  from assms obtain tok p c1 where tok: "bearer_token req = Some tok" and p: "ParseJWT E tok c = Done (p, c1)"
    and auth: "authorize E req p c1 = (err, c')" and sid: "header req ''x-session-id'' \<noteq> []"
    by (rule Authenticate_passes)
  have "\<not> passed c1" using ParseJWT_passed [OF p] assms(3) by simp
  note passes = authorize_passes [OF auth assms(2) this]
  with sid have "p_session p \<noteq> []" by simp
  from ParseJWT_session [OF p this] passes tok sid show ?thesis
    by (intro exI [of _ "p_expired p"] exI [of _ "p_id p"] exI [of _ "p_username p"])
      (auto simp: claims_session_def set_locals_def)
qed

text \<open>The middleware lets a request through only for the session its token names. Although the helper
  returns nil for a token it could not parse, a request passes only with a non-empty session id, a
  bearer token that parses (valid, or its only fault being that it has expired) and claims exactly this
  session; for an expired token the session must be stored in Redis for the token's user. The handlers
  behind it then see the user, name and session of the token.\<close>

theorem authenticate_sound:
  assumes "Authenticate E req c = Done (err, c')" and "passed c'" and "\<not> passed c"
  shows "\<exists>expired uid name. claims_session E req expired uid name \<and> header req ''x-session-id'' \<noteq> []
    \<and> (expired \<longrightarrow> (\<exists>res. redis_hgetall E (''refreshtokens:'' @ header req ''x-session-id'') = Reply res
         \<and> uid = (case res ''userid'' of None \<Rightarrow> '''' | Some u \<Rightarrow> u)))
    \<and> locals c' = (locals c)(''userid'' \<mapsto> uid, ''username'' \<mapsto> name, ''sessionid'' \<mapsto> header req ''x-session-id'')"
  using assms by (rule authenticate_through)


definition demo_auth :: "unit auth_env_scheme" where
  "demo_auth = \<lparr>encodes = (\<lambda>_. True),
     jwt = (\<lambda>t. if t = ''tok'' \<or> t = ''old'' then TokenClaims (t = ''old'')
       (Some [''id'' \<mapsto> ''u1'', ''username'' \<mapsto> ''ann'', ''session_id'' \<mapsto> ''s1'']) else TokenBad),
     sign_jwt = (\<lambda>_ _. Some ''new''), now_nano = 0, rand = (\<lambda>n. Some (replicate n 0)),
     redis_hgetall = (\<lambda>_. Reply [''userid'' \<mapsto> ''u1'']), queue_ok = (\<lambda>_. True), pipeline_ok = True,
     b64_decode = (\<lambda>t. Some (take (length t div 4 * 3) (to_bytes t))), rsa_decrypt = (\<lambda>k. Some k),
     gcm_open = (\<lambda>_ _ p. Some p), valid_key = (\<lambda>_. True)\<rparr>"

definition demo_request :: "string \<Rightarrow> string \<Rightarrow> request" where
  "demo_request tok refresh = \<lparr>header = (\<lambda>k. if k = ''Authorization'' then ''Bearer '' @ tok
       else if k = ''x-session-id'' then ''s1'' else if k = ''x-refresh-token'' then refresh
       else if k = ''x-refresh-token-expire'' then ''5'' else ''''),
     path_param = (\<lambda>_. ''''), query_arg = (\<lambda>_. ''''), client_ip = ''10.0.0.1''\<rparr>"

lemma demo_split: "strings_split ''Bearer tok'' ''Bearer '' = ['''', ''tok'']"
  by (simp add: strings_split_def)

lemma demo_five: "parse_int ''5'' = Some 5"
  by code_simp

theorem authenticate_sound_witness:
  "\<exists>c' expired uid name. Authenticate demo_auth (demo_request ''tok'' ''r'') new_srv = Done (None, c') \<and> passed c'
     \<and> claims_session demo_auth (demo_request ''tok'' ''r'') expired uid name"
proof -
  have "\<exists>c'. Authenticate demo_auth (demo_request ''tok'' ''r'') new_srv = Done (None, c') \<and> passed c'"
    by (simp add: Authenticate_def demo_request_def demo_split demo_five demo_auth_def ParseJWT_def authorize_def
        set_locals_def Let_def)
  then obtain c' where "Authenticate demo_auth (demo_request ''tok'' ''r'') new_srv = Done (None, c')" "passed c'"
    by blast
  with authenticate_sound [OF this] show ?thesis by (auto simp: new_srv_def)
qed

lemma authorize_other_header:
  "authorize E (req\<lparr>header := (header req)(''x-refresh-token'' := t)\<rparr>) p c = authorize E req p c"
  by (simp add: authorize_def Let_def split: redis_reply.split)

text \<open>C40: the refresh token is never checked. Two requests that differ in nothing but the value of their
  refresh token, as long as neither is empty, get the same answer and the same effects: also an expired
  access token is accepted, and exchanged for new tokens, with any refresh token at all.\<close>

theorem refresh_token_never_checked:
  assumes "header req ''x-refresh-token'' \<noteq> []" and "t \<noteq> []"
  shows "Authenticate E (req\<lparr>header := (header req)(''x-refresh-token'' := t)\<rparr>) c = Authenticate E req c"
  using assms by (simp add: Authenticate_def authorize_other_header Let_def split: option.split)

theorem refresh_token_never_checked_witness:
  "Authenticate demo_auth ((demo_request ''old'' ''right'')\<lparr>header := (header (demo_request ''old'' ''right''))(''x-refresh-token'' := ''wrong'')\<rparr>) new_srv
     = Authenticate demo_auth (demo_request ''old'' ''right'') new_srv"
  by (rule refresh_token_never_checked) (simp_all add: demo_request_def)

subsection \<open>Refreshing\<close>

text \<open>Refreshing tokens works or fails silently. With the encoder and the pipeline working, the helper
  always returns nil. When randomness, the queue and signing work, the session is stored under the new
  token with a life of 60 days, and the four headers carry the tokens; when the token cannot be signed,
  the answer is turned into a status 500 and no header is added, but the caller is told nothing.\<close>

theorem refresh_succeeds_or_is_silent:
  assumes "\<And>r. encodes E r" and "pipeline_ok E" and "\<And>n. queue_ok E n" and "rand E 40 = Some rnd"
  shows "\<exists>c'. GenerateAndRefreshTokens E ip u s n c = (None, c')
    \<and> commands c' = commands c @ [HSet (''refreshtokens:'' @ s) [(''token'', hex_encode rnd), (''userid'', u), (''ip'', ip)],
        ExpireAt (''refreshtokens:'' @ s) (now_ms E + 5184000000)]
    \<and> (case sign_jwt E [(''id'', u), (''username'', n), (''session_id'', s)] ((now_nano E + 3600000000000) div 1000000000) of
        Some (x # tok) \<Rightarrow> status c' = status c \<and> body c' = body c \<and> resp_headers c' = resp_headers c
          @ [(''x-refreshed'', ''true''), (''x-refresh-token'', hex_encode rnd),
             (''x-refresh-token-expire'', format_int (word_of_int (now_ms E + 5184000000))), (''x-access-token'', x # tok)]
      | None \<Rightarrow> status c' = 500 \<and> resp_headers c' = resp_headers c
      | Some [] \<Rightarrow> resp_headers c' = resp_headers c)"
  using assms
  by (simp add: GenerateAndRefreshTokens_def tokens_closure_def GenerateJWT_def RandomTokenString_def
      RefreshTokenDuration_def HandleInternalError_def c_json_def Let_def split: option.split list.split)

theorem refresh_succeeds_or_is_silent_witness:
  "\<exists>c'. GenerateAndRefreshTokens demo_auth ''ip'' ''u'' ''s'' ''n'' new_srv = (None, c') \<and> resp_headers c' \<noteq> []"
proof -
  have e: "encodes demo_auth r" "pipeline_ok demo_auth" "queue_ok demo_auth k" "rand demo_auth 40 = Some (replicate 40 0)" for r k
    by (simp_all add: demo_auth_def)
  have s: "sign_jwt demo_auth x y = Some (CHR ''n'' # ''ew'')" for x y by (simp add: demo_auth_def)
  show ?thesis
    using refresh_succeeds_or_is_silent [of demo_auth, OF e, where ip = "''ip''" and u = "''u''" and s = "''s''" and n = "''n''" and c = new_srv] unfolding s by auto
qed


subsection \<open>Passwords\<close>

lemma three_chunks: "length xs = 3 \<longleftrightarrow> (\<exists>a b c. xs = [a, b, c])"
  by (auto simp: length_Suc_conv numeral_3_eq_3)

lemma short_nonce_is_old:
  assumes "\<And>t b. b64_decode E t = Some b \<Longrightarrow> 4 * length b \<le> 3 * length t"
    and "100060000000000 \<le> now_nano E" and "b64_decode E k = Some n" and "parse_int (to_str n) = Some t"
    and "length k < 12"
  shows "(t + 60 * 1000) * 1000000 < now_nano E"
proof -
  have "length n \<le> 8" using assms(1) [OF assms(3)] assms(5) by simp
  then have "(10 :: int) ^ length (to_str n) \<le> 10 ^ 8" by (intro power_increasing) auto
  then have "t < 10 ^ 8" using parse_int_bound [OF assms(4)] by linarith
  then show ?thesis using assms(2) by simp
qed

text \<open>A password is decrypted only when it is fresh, and decrypting never panics. After 1970-01-02 and
  with a decoder that keeps base64's ratio of 4 to 3, the slice of the last 12 characters of the third
  chunk is always in range once the time check has passed; and the result is non-empty only when there
  are three chunks, the third encodes a time at most 60 seconds old, and RSA and AES-GCM open the first
  two with that nonce.\<close>

theorem decrypted_password_is_fresh:
  assumes "\<And>t b. b64_decode E t = Some b \<Longrightarrow> 4 * length b \<le> 3 * length t"
    and "100060000000000 \<le> now_nano E"
  shows "\<exists>pw err c'. DecryptRequestPasswordHash E enc c = Done ((pw, err), c')
    \<and> (pw \<noteq> [] \<longrightarrow> err = None \<and> c' = c \<and> (\<exists>k0 k1 k2 n t ek ep key. strings_split enc ''.'' = [k0, k1, k2]
        \<and> b64_decode E k2 = Some n \<and> parse_int (to_str n) = Some t \<and> now_nano E \<le> (t + 60000) * 1000000
        \<and> b64_decode E k0 = Some ek \<and> b64_decode E k1 = Some ep \<and> rsa_decrypt E ek = Some key
        \<and> gcm_open E key (to_bytes (drop (length k2 - 12) k2)) ep = Some pw))"
proof (cases "\<exists>k0 k1 k2. strings_split enc ''.'' = [k0, k1, k2]")
  case False
  then show ?thesis by (simp add: DecryptRequestPasswordHash_def three_chunks case_prod_beta Let_def)
next
  case True
  then obtain k0 k1 k2 where "strings_split enc ''.'' = [k0, k1, k2]" by blast
  then show ?thesis
    using short_nonce_is_old [OF assms, of k2]
    by (auto simp: DecryptRequestPasswordHash_def case_prod_beta Let_def not_less split: option.split)
qed

theorem decrypted_password_is_fresh_witness:
  "\<exists>pw err c'. DecryptRequestPasswordHash (demo_auth\<lparr>now_nano := 100060000000000\<rparr>) ''a.b.c'' new_srv = Done ((pw, err), c')"
proof -
  have "4 * length b \<le> 3 * length t" if "b64_decode (demo_auth\<lparr>now_nano := 100060000000000\<rparr>) t = Some b" for t b
  proof -
    have "4 * (length t div 4 * 3) \<le> 3 * length t" by (metis mult.commute mult.left_commute mult_le_mono2 times_div_less_eq_dividend)
    then show ?thesis using that by (auto simp: demo_auth_def)
  qed
  from decrypted_password_is_fresh [OF this] show ?thesis by fastforce
qed

end
