(* ===== verification/Messaging.thy ===== *)
theory Messaging imports Auth begin

text \<open>
  The messages the API server sends to a user through the router (\<open>messages/message.go\<close>,
  \<open>message_func.go\<close>, \<open>message_data_template.go\<close>), and the environment of the handlers that send them.
\<close>

subsection \<open>Messages\<close>

datatype message_data =
    NoMessageData
  | FriendRequestData string string
  | FriendAcceptData uuid int
  | AudioMessageData uuid uuid int int int bool string int

record api_message =
  am_Op :: int
  am_OriginID :: string
  am_TargetID :: string
  am_Timestamp :: int
  am_Signature :: string
  am_Atomic :: bool
  am_Data :: message_data

definition api_construct_ws_message ::
  "int \<Rightarrow> string \<Rightarrow> string \<Rightarrow> int \<Rightarrow> string \<Rightarrow> bool \<Rightarrow> message_data \<Rightarrow> api_message" where
  "api_construct_ws_message op originID targetID timestamp signature atomic data =
     \<lparr>am_Op = op, am_OriginID = originID, am_TargetID = targetID, am_Timestamp = timestamp,
      am_Signature = signature, am_Atomic = atomic, am_Data = data\<rparr>"

subsection \<open>The environment of the handlers\<close>

text \<open>What a single-row query gives: no row, another error, or the row.\<close>

datatype 'a query = NotFound | QueryFails | Row 'a

text \<open>A row of \<open>user_relations\<close> as \<open>MapScan\<close> delivers it; \<open>None\<close> as relation id stands for a value that
  is not a UUID.\<close>

record relation_row =
  rr_relation_id :: "uuid option"
  rr_active :: bool
  rr_friend :: bool
  rr_requested :: bool
  rr_username :: string
  rr_chain_id :: uuid
  rr_created :: int
  rr_last_seen :: int
  rr_last_recv :: int

record server_env = auth_env +
  exec_ok :: "nat \<Rightarrow> bool"
  router_ok :: "nat \<Rightarrow> bool"
  nanoid4 :: "string option"
  marshal_message :: "api_message \<Rightarrow> bytes option"
  parse_uuid :: "string \<Rightarrow> uuid option"
  time_uuid :: uuid
  uuid_ms :: "uuid \<Rightarrow> int"
  uuid_zero_time :: "uuid \<Rightarrow> bool"
  username_by_id :: "uuid \<Rightarrow> string query"
  chain_of :: "uuid \<Rightarrow> uuid \<Rightarrow> uuid query"
  relations_of :: "uuid \<Rightarrow> relation_row list"
  users_of_chain :: "uuid \<Rightarrow> uuid option list"

subsection \<open>Sending\<close>

text \<open>\<open>api_write_message\<close> on operation 100: the payload and its three parameters go to the router.\<close>

definition write_router :: "'e server_env_scheme \<Rightarrow> bytes \<Rightarrow> string list \<Rightarrow> srv \<Rightarrow> bool \<times> srv" where
  "write_router E payload params c =
     (router_ok E (length (outbox c)), c\<lparr>outbox := outbox c @ [(100, Some payload, params)]\<rparr>)"

definition send_payload :: "'e server_env_scheme \<Rightarrow> int \<Rightarrow> uuid \<Rightarrow> bool \<Rightarrow> message_data \<Rightarrow> srv \<Rightarrow> (err \<times> srv) outcome" where
  "send_payload E op targetID atomic data c =
     (case nanoid4 E of
        None \<Rightarrow> Done (Some ''nanoid'', c)
      | Some signature \<Rightarrow>
          and_then (local_string ''userid'' c) (\<lambda>userID.
            case marshal_message E (api_construct_ws_message op userID targetID (now_ms E) signature atomic data) of
              None \<Rightarrow> Done (HandleInternalError (encodes E) ''jsoniter_marshal'' c)
            | Some json_string \<Rightarrow>
                and_then (local_string ''sessionid'' c) (\<lambda>sessionID.
                  case write_router E json_string [sessionID, userID, targetID] c of
                    (ok, c1) \<Rightarrow>
                      if ok then Done (None, c1)
                      else Done (HandleInternalError (encodes E) ''api_write_message'' c1))))"

definition FriendRequest :: "'e server_env_scheme \<Rightarrow> uuid \<Rightarrow> string \<Rightarrow> srv \<Rightarrow> (err \<times> srv) outcome" where
  "FriendRequest E targetID destinationUsername c =
     and_then (local_string ''username'' c) (\<lambda>username.
       send_payload E 200 targetID False (FriendRequestData username destinationUsername) c)"

definition FriendAccepted :: "'e server_env_scheme \<Rightarrow> uuid \<Rightarrow> uuid \<Rightarrow> int \<Rightarrow> srv \<Rightarrow> (err \<times> srv) outcome" where
  "FriendAccepted E targetID chainID created c = send_payload E 201 targetID False (FriendAcceptData chainID created) c"

definition RelationRemove :: "'e server_env_scheme \<Rightarrow> uuid \<Rightarrow> srv \<Rightarrow> (err \<times> srv) outcome" where
  "RelationRemove E targetID c = send_payload E 202 targetID False NoMessageData c"

definition SendMessage ::
  "'e server_env_scheme \<Rightarrow> uuid \<Rightarrow> uuid \<Rightarrow> uuid \<Rightarrow> int \<Rightarrow> int \<Rightarrow> int \<Rightarrow> string \<Rightarrow> int \<Rightarrow> srv \<Rightarrow> (err \<times> srv) outcome" where
  "SendMessage E targetID chainID messageID created expires typeCode display duration c =
     send_payload E 300 targetID True
       (AudioMessageData chainID messageID created expires typeCode False display duration) c"

subsection \<open>A request of a signed-in user on working services\<close>

text \<open>The locals the middleware sets, and services that do what they are asked.\<close>

definition signed_in :: "uuid \<Rightarrow> string \<Rightarrow> string \<Rightarrow> srv \<Rightarrow> bool" where
  "signed_in uid name sid c \<longleftrightarrow>
     locals c ''userid'' = Some uid \<and> locals c ''username'' = Some name \<and> locals c ''sessionid'' = Some sid"

definition services_work :: "'e server_env_scheme \<Rightarrow> bool" where
  "services_work E \<longleftrightarrow> (\<forall>r. encodes E r) \<and> (\<forall>n. exec_ok E n) \<and> (\<forall>n. router_ok E n) \<and> (\<exists>s. nanoid4 E = Some s)
     \<and> (\<forall>m. \<exists>b. marshal_message E m = Some b)"

definition message_text :: "'e server_env_scheme \<Rightarrow> int \<Rightarrow> uuid \<Rightarrow> uuid \<Rightarrow> bool \<Rightarrow> message_data \<Rightarrow> bytes" where
  "message_text E op uid target atomic data = the (marshal_message E
     (api_construct_ws_message op uid target (now_ms E) (the (nanoid4 E)) atomic data))"

lemma send_payload_works:
  assumes "services_work E" and "signed_in uid name sid c"
  shows "send_payload E op target atomic data c = Done (None,
    c\<lparr>outbox := outbox c @ [(100, Some (message_text E op uid target atomic data), [sid, uid, target])]\<rparr>)"
proof -
  obtain s where s: "nanoid4 E = Some s" using assms(1) by (auto simp: services_work_def)
  obtain b where b: "marshal_message E (api_construct_ws_message op uid target (now_ms E) s atomic data) = Some b"
    using assms(1) unfolding services_work_def by blast
  show ?thesis
    using assms by (simp add: send_payload_def s b services_work_def signed_in_def local_string_def
        write_router_def message_text_def)
qed

lemma exec_works: "services_work E \<Longrightarrow> exec (exec_ok E) cmd c = (True, c\<lparr>commands := commands c @ [cmd]\<rparr>)"
  by (simp add: services_work_def exec_def)

lemma json_works: "services_work E \<Longrightarrow> c_json (encodes E) r c = (None, c\<lparr>body := Some r\<rparr>)"
  by (simp add: services_work_def c_json_def)

lemma signed_in_frame [simp]:
  "signed_in uid name sid (c\<lparr>commands := x\<rparr>) = signed_in uid name sid c"
  "signed_in uid name sid (c\<lparr>outbox := y\<rparr>) = signed_in uid name sid c"
  "signed_in uid name sid (c\<lparr>body := z\<rparr>) = signed_in uid name sid c"
  "signed_in uid name sid (c\<lparr>status := k\<rparr>) = signed_in uid name sid c"
  "signed_in uid name sid (c\<lparr>monitor_log := l\<rparr>) = signed_in uid name sid c"
  "signed_in uid name sid (c\<lparr>internal_log := l\<rparr>) = signed_in uid name sid c"
  by (simp_all add: signed_in_def)

lemma signed_in_locals:
  "signed_in uid name sid c \<Longrightarrow> local_string ''userid'' c = Done uid"
  "signed_in uid name sid c \<Longrightarrow> local_string ''username'' c = Done name"
  "signed_in uid name sid c \<Longrightarrow> local_string ''sessionid'' c = Done sid"
  by (simp_all add: signed_in_def local_string_def)

end
