(* ===== verification/Relations.thy ===== *)
theory Relations imports Messaging begin

text \<open>
  Relations between users (\<open>services/relation.services.go\<close>, \<open>helpers/relation.helpers.go\<close>,
  \<open>helpers/user.helpers.go\<close>, \<open>helpers.InsertChainsUsers\<close>): a request writes one row for each side, an
  acceptance turns both into a friendship with one chain, a removal clears both.
\<close>

subsection \<open>Users\<close>

definition GetUsernameByID :: "'e server_env_scheme \<Rightarrow> uuid \<Rightarrow> srv \<Rightarrow> (string \<times> err) \<times> srv" where
  "GetUsernameByID E userid c =
     (case username_by_id E userid of
        NotFound \<Rightarrow> (case HandleBadRequestError (encodes E) ''UserID'' ''invalid'' c of (err, c1) \<Rightarrow> (('''', err), c1))
      | QueryFails \<Rightarrow> (case HandleInternalError (encodes E) ''users_private'' c of (err, c1) \<Rightarrow> (('''', err), c1))
      | Row reqUsername \<Rightarrow> ((reqUsername, None), c))"

text \<open>\<open>CheckUser\<close> over what its count query leaves in \<open>existCount\<close> and returns.\<close>

definition CheckUser :: "int \<times> err \<Rightarrow> bool \<times> err" where
  "CheckUser res = (case res of (existCount, err) \<Rightarrow> if existCount = 0 then (False, err) else (True, err))"

subsection \<open>Requests\<close>

definition request_update :: "int \<Rightarrow> string \<Rightarrow> bool \<Rightarrow> relation_update" where
  "request_update created username requested =
     \<lparr>u_created = Col created, u_chain_id = Unset, u_relation_username = Col username, u_last_recv = Unset,
      u_last_seen = Unset, u_friend = Unset, u_requested = Col requested, u_active = Col True\<rparr>"

definition RequestRelation :: "'e server_env_scheme \<Rightarrow> request \<Rightarrow> srv \<Rightarrow> (err \<times> srv) outcome" where
  "RequestRelation E req c =
     and_then (local_string ''userid'' c) (\<lambda>userID.
     and_then (local_string ''username'' c) (\<lambda>username.
       let relationID = path_param req ''relationID'' in
       case GetUsernameByID E relationID c of ((relationUsername, err), c1) \<Rightarrow>
       if err \<noteq> None then Done (err, c1)
       else let created = now_ms E in
       case exec (exec_ok E) (UpdateRelation (request_update created relationUsername True) userID relationID) c1 of (ok, c2) \<Rightarrow>
       if \<not> ok then Done (HandleInternalError (encodes E) ''user_relations'' c2)
       else case exec (exec_ok E) (UpdateRelation (request_update created username False) relationID userID) c2 of (ok, c3) \<Rightarrow>
       if \<not> ok then Done (HandleInternalError (encodes E) ''user_relations'' c3)
       else and_then (FriendRequest E relationID relationUsername c3) (\<lambda>(err, c4).
         if err \<noteq> None then Done (err, c4)
         else Done (c_json (encodes E) (UsernameBody relationUsername) c4))))"

subsection \<open>Acceptance\<close>

definition nil_uuid :: uuid where
  "nil_uuid = ''00000000-0000-0000-0000-000000000000''"

definition CheckExistingRelationChain :: "'e server_env_scheme \<Rightarrow> uuid \<Rightarrow> uuid \<Rightarrow> srv \<Rightarrow> (uuid \<times> bool \<times> err) \<times> srv" where
  "CheckExistingRelationChain E userID relationID c =
     (case chain_of E userID relationID of
        NotFound \<Rightarrow> ((nil_uuid, False, None), c)
      | QueryFails \<Rightarrow> (case HandleInternalError (encodes E) ''users_relations'' c of (err, c1) \<Rightarrow> ((nil_uuid, False, err), c1))
      | Row chain_id \<Rightarrow> if uuid_zero_time E chain_id then ((nil_uuid, False, None), c) else ((chain_id, True, None), c))"

definition InsertChainsUsers :: "'e server_env_scheme \<Rightarrow> uuid \<Rightarrow> uuid list \<Rightarrow> srv \<Rightarrow> err \<times> srv" where
  "InsertChainsUsers E chainID users c =
     (case exec (exec_ok E) (InsertChainUsers chainID users (now_ms E)) c of
        (ok, c1) \<Rightarrow> if \<not> ok then HandleInternalError (encodes E) ''chains_users'' c1 else (None, c1))"

definition accept_update :: "uuid \<Rightarrow> int \<Rightarrow> relation_update" where
  "accept_update chainID curTime =
     no_update\<lparr>u_chain_id := Col chainID, u_last_recv := Col curTime, u_last_seen := Col curTime, u_friend := Col True\<rparr>"

text \<open>The second half of the acceptance, once a chain is chosen.\<close>

definition accept_with_chain :: "'e server_env_scheme \<Rightarrow> uuid \<Rightarrow> uuid \<Rightarrow> uuid \<Rightarrow> srv \<Rightarrow> (err \<times> srv) outcome" where
  "accept_with_chain E chainID userID relationID c =
     (let curTime = now_ms E in
      case exec (exec_ok E) (UpdateRelation (accept_update chainID curTime) userID relationID) c of (ok, c1) \<Rightarrow>
      if \<not> ok then Done (HandleInternalError (encodes E) ''user_relations'' c1)
      else case exec (exec_ok E) (UpdateRelation (accept_update chainID curTime) relationID userID) c1 of (ok, c2) \<Rightarrow>
      if \<not> ok then Done (HandleInternalError (encodes E) ''user_relations'' c2)
      else and_then (FriendAccepted E relationID chainID curTime c2) (\<lambda>(err, c3).
        if err \<noteq> None then Done (err, c3)
        else Done (c_json (encodes E) (AcceptedBody chainID curTime) c3)))"

definition AcceptRelation :: "'e server_env_scheme \<Rightarrow> request \<Rightarrow> srv \<Rightarrow> (err \<times> srv) outcome" where
  "AcceptRelation E req c =
     and_then (local_string ''userid'' c) (\<lambda>userID.
       let relationID = path_param req ''relationID'' in
       case CheckExistingRelationChain E userID relationID c of ((chainID, valid, err), c1) \<Rightarrow>
       if err \<noteq> None then Done (err, c1)
       else if \<not> valid then
         let chainID = time_uuid E in
         (case InsertChainsUsers E chainID [userID, relationID] c1 of (err, c2) \<Rightarrow>
          if err \<noteq> None then Done (err, c2) else accept_with_chain E chainID userID relationID c2)
       else accept_with_chain E chainID userID relationID c1)"

subsection \<open>Removal\<close>

definition remove_update :: relation_update where
  "remove_update = no_update\<lparr>u_friend := Col False, u_requested := Col False, u_active := Col False\<rparr>"

definition RemoveRelation :: "'e server_env_scheme \<Rightarrow> request \<Rightarrow> srv \<Rightarrow> (err \<times> srv) outcome" where
  "RemoveRelation E req c =
     and_then (local_string ''userid'' c) (\<lambda>userID.
       let relationID = path_param req ''relationID'' in
       case exec (exec_ok E) (UpdateRelation remove_update userID relationID) c of (ok, c1) \<Rightarrow>
       if \<not> ok then Done (HandleInternalError (encodes E) ''user_relations'' c1)
       else case exec (exec_ok E) (UpdateRelation remove_update relationID userID) c1 of (ok, c2) \<Rightarrow>
       if \<not> ok then Done (HandleInternalError (encodes E) ''user_relations'' c2)
       else and_then (RelationRemove E relationID c2) (\<lambda>(err, c3).
         if err \<noteq> None then Done (err, c3) else Done (OKResponse (encodes E) c3)))"

subsection \<open>Listing relations\<close>

definition new_relations :: relations_schema where
  "new_relations = \<lparr>Friends = [], Requests = [], Requested = []\<rparr>"

text \<open>The loop over the rows; \<open>None\<close> is the "iter error", which ends the function.\<close>

fun map_rows :: "relation_row list \<Rightarrow> relations_schema \<Rightarrow> relations_schema option" where
  "map_rows [] rs = Some rs"
| "map_rows (row # rows) rs =
     (case rr_relation_id row of
        None \<Rightarrow> None
      | Some rid \<Rightarrow>
          map_rows rows
            (if rr_active row then
               if rr_friend row then
                 rs\<lparr>Friends := Friends rs @ [\<lparr>fr_RelationID = rid, fr_Username = rr_username row, fr_ChainID = rr_chain_id row,
                   fr_Created = rr_created row, fr_LastSeen = rr_last_seen row, fr_LastRecv = rr_last_recv row, fr_Key = 0\<rparr>]\<rparr>
               else let curRequest = \<lparr>rq_Username = rr_username row, rq_RelationID = rid, rq_Created = rr_created row,
                      rq_Requested = rr_requested row\<rparr>
                 in if rq_Requested curRequest then rs\<lparr>Requested := Requested rs @ [curRequest]\<rparr>
                    else rs\<lparr>Requests := Requests rs @ [curRequest]\<rparr>
             else rs))"

text \<open>\<open>sort.SliceStable\<close> with a "less" that compares a number: a stable sort by that number.\<close>

definition RelationsMapper :: "'e server_env_scheme \<Rightarrow> relations_schema \<Rightarrow> uuid \<Rightarrow> relations_schema option" where
  "RelationsMapper E relations userID =
     map_option (\<lambda>rs. rs\<lparr>Requested := sort_key rq_Created (Requested rs),
         Requests := sort_key (\<lambda>r. - rq_Created r) (Requests rs),
         Friends := sort_key (\<lambda>f. - fr_LastRecv f) (Friends rs)\<rparr>)
       (map_rows (relations_of E userID) relations)"

definition GetAllRelations :: "'e server_env_scheme \<Rightarrow> srv \<Rightarrow> (err \<times> srv) outcome" where
  "GetAllRelations E c =
     and_then (local_string ''userid'' c) (\<lambda>userID.
       case RelationsMapper E new_relations userID of
         None \<Rightarrow> Done (HandleInternalError (encodes E) ''user_relations'' c)
       | Some relations \<Rightarrow> Done (c_json (encodes E) (RelationsBody relations) c))"

end
