(* ===== verification/Chains.thy ===== *)
theory Chains imports Relations begin

text \<open>
  Chains of audio messages (\<open>middlewares/chain.middlewares.go\<close>, \<open>helpers/chain.helpers.go\<close>,
  \<open>services/chain.services.go\<close>, \<open>services/chain_messages.services.go\<close>): who may use a chain, how a
  page of it is put together, and what happens to an uploaded message.
\<close>

subsection \<open>The environment\<close>

text \<open>A row of \<open>chains\<close> as \<open>MapScan\<close> delivers it, and the three queries for them.\<close>

record chain_row =
  cr_message_id :: "uuid option"
  cr_created :: int
  cr_user_id :: uuid
  cr_expires :: int
  cr_type :: int
  cr_seen :: bool
  cr_display :: string
  cr_duration :: int

datatype chain_query = SelectAfter uuid int int | SelectBefore uuid int int | SelectUpTo uuid int int

record chain_env = server_env +
  query_chain :: "chain_query \<Rightarrow> chain_row list"
  days_later :: "int \<Rightarrow> int"
  object_found :: "string \<Rightarrow> bool"

subsection \<open>Who may use a chain\<close>

definition ParseParamChainUUID :: "'e server_env_scheme \<Rightarrow> request \<Rightarrow> srv \<Rightarrow> (uuid \<times> err) \<times> srv" where
  "ParseParamChainUUID E req c =
     (case parse_uuid E (path_param req ''chainID'') of
        None \<Rightarrow> (case HandleBadRequestError (encodes E) ''ChainID'' ''invalid'' c of (err, c1) \<Rightarrow> ((nil_uuid, err), c1))
      | Some chainID \<Rightarrow> ((chainID, None), c))"

definition ParseParamMessageUUID :: "'e server_env_scheme \<Rightarrow> request \<Rightarrow> srv \<Rightarrow> (uuid \<times> err) \<times> srv" where
  "ParseParamMessageUUID E req c =
     (case parse_uuid E (path_param req ''messageID'') of
        None \<Rightarrow> (case HandleBadRequestError (encodes E) ''MessageID'' ''invalid'' c of (err, c1) \<Rightarrow> ((nil_uuid, err), c1))
      | Some messageID \<Rightarrow> ((messageID, None), c))"

text \<open>The users of a chain; \<open>None\<close> is the "iter error".\<close>

fun scan_users :: "uuid option list \<Rightarrow> uuid list \<Rightarrow> uuid list option" where
  "scan_users [] users = Some users"
| "scan_users (None # rows) users = None"
| "scan_users (Some u # rows) users = scan_users rows (users @ [u])"

definition GetChainsUsers :: "'e server_env_scheme \<Rightarrow> uuid \<Rightarrow> uuid list option" where
  "GetChainsUsers E chainID = scan_users (users_of_chain E chainID) []"

definition ChainRequestMiddleware :: "'e server_env_scheme \<Rightarrow> request \<Rightarrow> srv \<Rightarrow> (err \<times> srv) outcome" where
  "ChainRequestMiddleware E req c =
     (case ParseParamChainUUID E req c of ((chainID, err), c1) \<Rightarrow>
      if err \<noteq> None then Done (err, c1)
      else case GetChainsUsers E chainID of
        None \<Rightarrow> Done (Some ''iter error'', c1)
      | Some users \<Rightarrow>
          if length users \<noteq> 2 then Done (HandleBadRequestError (encodes E) ''ChainID'' ''invalid'' c1)
          else and_then (local_string ''userid'' c1) (\<lambda>userID.
            let next = (\<lambda>requestID. Done (None, c1\<lparr>locals := (locals c1)(''requestid'' \<mapsto> requestID, ''chainid'' \<mapsto> chainID),
                  passed := True\<rparr>))
            in if users ! 0 = userID then next (users ! 1)
               else if users ! 1 = userID then next (users ! 0)
               else Done (HandleBadRequestError (encodes E) ''ChainID'' ''unauthorized'' c1)))"

subsection \<open>Pages of a chain\<close>

definition message_of :: "'e server_env_scheme \<Rightarrow> chain_row \<Rightarrow> uuid \<Rightarrow> message_schema" where
  "message_of E row messageID =
     \<lparr>ms_MessageID = messageID, ms_UserID = cr_user_id row, ms_Created = uuid_ms E messageID, ms_Expires = cr_expires row,
      ms_Type = cr_type row, ms_Seen = cr_seen row, ms_Display = cr_display row, ms_Duration = cr_duration row\<rparr>"

fun scan_chain :: "'e server_env_scheme \<Rightarrow> chain_row list \<Rightarrow> message_schema list \<Rightarrow> message_schema list option" where
  "scan_chain E [] chain = Some chain"
| "scan_chain E (row # rows) chain =
     (case cr_message_id row of
        None \<Rightarrow> None
      | Some messageID \<Rightarrow> scan_chain E rows (chain @ [message_of E row messageID]))"

text \<open>The loop that swaps the ends of the slice in place.\<close>

function swap_loop :: "'a list \<Rightarrow> nat \<Rightarrow> 'a list" where
  "swap_loop chain i =
     (if i < length chain div 2 then
        let j = length chain - i - 1 in swap_loop (chain[i := chain ! j, j := chain ! i]) (i + 1)
      else chain)"
  by pat_completeness auto
termination
  by (relation "measure (\<lambda>(chain, i). length chain div 2 - i)") (auto simp: Let_def)

declare swap_loop.simps [simp del]

definition chain_page :: "'e chain_env_scheme \<Rightarrow> uuid \<Rightarrow> int \<Rightarrow> bool \<Rightarrow> bool \<Rightarrow> int \<Rightarrow> message_schema list option" where
  "chain_page E chainID reqTime asc new limit =
     (if limit \<le> 0 then Some []
      else let limit = (if limit > 10 then 10 else limit);
               rows = query_chain E
                 (if \<not> new then if asc then SelectAfter chainID reqTime limit else SelectBefore chainID reqTime limit
                  else SelectUpTo chainID reqTime limit)
           in map_option (\<lambda>chain. if \<not> asc then swap_loop chain 0 else chain) (scan_chain E rows []))"

definition GetChain :: "'e chain_env_scheme \<Rightarrow> request \<Rightarrow> srv \<Rightarrow> (err \<times> srv) outcome" where
  "GetChain E req c =
     and_then (local_string ''chainid'' c) (\<lambda>chainID.
       case parse_int (query_arg req ''requestTime'') of
         None \<Rightarrow> Done (HandleInternalError (encodes E) ''parse_request_time'' c)
       | Some request \<Rightarrow>
           let asc = query_arg req ''asc''; desc = query_arg req ''desc'' in
           case parse_int (if query_arg req ''limit'' = [] then ''50'' else query_arg req ''limit'') of
             None \<Rightarrow> Done (HandleInternalError (encodes E) ''parse_limit'' c)
           | Some limit \<Rightarrow>
               if asc \<noteq> ''true'' \<and> desc \<noteq> ''true'' then
                 (case chain_page E chainID request False True limit of
                    None \<Rightarrow> Done (HandleInternalError (encodes E) ''helpers_get_chain'' c)
                  | Some newChain \<Rightarrow> Done (c_json (encodes E) (MessagesBody newChain) c))
               else
                 (case (if asc = ''true'' then chain_page E chainID request True False limit else Some []) of
                    None \<Rightarrow> Done (HandleInternalError (encodes E) ''helpers_get_chain'' c)
                  | Some ascChain \<Rightarrow>
                 (case (if desc = ''true'' then chain_page E chainID request False False limit else Some []) of
                    None \<Rightarrow> Done (HandleInternalError (encodes E) ''helpers_get_chain'' c)
                  | Some descChain \<Rightarrow> Done (c_json (encodes E) (MessagesBody (descChain @ ascChain)) c))))"

subsection \<open>Audio messages\<close>

text \<open>The multipart form: the values of a field (none when it is missing), and the audio parts by their
  size and whether they can be opened.\<close>

record audio_form =
  form_display :: "string list"
  form_duration :: "string list"
  form_expireDays :: "string list"
  form_audio :: "(int \<times> bool) list"

definition first_value :: "'a list \<Rightarrow> 'a outcome" where
  "first_value xs = (case xs of [] \<Rightarrow> Panicked IndexOutOfRange | x # _ \<Rightarrow> Done x)"

text \<open>What is done with an accepted upload: the object, the row, both sides' times, the message.\<close>

definition store_audio ::
  "'e chain_env_scheme \<Rightarrow> uuid \<Rightarrow> uuid \<Rightarrow> uuid \<Rightarrow> string \<Rightarrow> int \<Rightarrow> int \<Rightarrow> srv \<Rightarrow> (err \<times> srv) outcome" where
  "store_audio E userID chainID requestID display duration expires c =
     (let messageID = time_uuid E; created = uuid_ms E messageID in
      case exec (exec_ok E) (PutObject ''audio-expire'' (chainID @ ''_'' @ messageID)) c of (ok, c1) \<Rightarrow>
      if \<not> ok then Done (HandleInternalError (encodes E) ''minio_put'' c1)
      else case exec (exec_ok E) (InsertMessage chainID created messageID userID expires 0 display duration) c1 of (ok, c2) \<Rightarrow>
      if \<not> ok then Done (HandleInternalError (encodes E) ''chains'' c2)
      else case exec (exec_ok E) (UpdateRelation (no_update\<lparr>u_last_recv := Col created\<rparr>) requestID userID) c2 of (ok, c3) \<Rightarrow>
      if \<not> ok then Done (HandleInternalError (encodes E) ''user_relations'' c3)
      else case exec (exec_ok E) (UpdateRelation (no_update\<lparr>u_last_seen := Col created\<rparr>) userID requestID) c3 of (ok, c4) \<Rightarrow>
      if \<not> ok then Done (HandleInternalError (encodes E) ''user_relations'' c4)
      else and_then (SendMessage E requestID chainID messageID created expires 0 display duration c4) (\<lambda>(err, c5).
        if err \<noteq> None then Done (err, c5)
        else Done (c_json (encodes E) (MessageBody messageID created) c5)))"

definition AddAudioMessage :: "'e chain_env_scheme \<Rightarrow> audio_form option \<Rightarrow> srv \<Rightarrow> (err \<times> srv) outcome" where
  "AddAudioMessage E form_read c =
     and_then (local_string ''userid'' c) (\<lambda>userID.
     and_then (local_string ''chainid'' c) (\<lambda>chainID.
     and_then (local_string ''requestid'' c) (\<lambda>requestID.
       case form_read of
         None \<Rightarrow> Done (HandleBadRequestError (encodes E) ''Multipart'' ''invalid'' c)
       | Some form \<Rightarrow>
           and_then (first_value (form_display form)) (\<lambda>display.
           and_then (first_value (form_duration form)) (\<lambda>d.
             case parse_int d of
               None \<Rightarrow> Done (HandleInternalError (encodes E) ''parse_duration'' c)
             | Some duration \<Rightarrow>
                 if duration > 5 * 60000 + 30 then Done (HandleBadRequestError (encodes E) ''Duration'' ''too long'' c)
                 else and_then (first_value (form_expireDays form)) (\<lambda>x.
                   case parse_int x of
                     None \<Rightarrow> Done (HandleInternalError (encodes E) ''parse_expires'' c)
                   | Some expireDays \<Rightarrow>
                       let expires = days_later E (if expireDays > 0 \<and> expireDays < 60 then expireDays else 60)
                       in and_then (first_value (form_audio form)) (\<lambda>(audio_size, opens).
                         if audio_size > 2000000 then Done (HandleBadRequestError (encodes E) ''Audio'' ''exceeding length'' c)
                         else if \<not> opens then Done (HandleBadRequestError (encodes E) ''Audio'' ''invalid'' c)
                         else store_audio E userID chainID requestID display duration expires c)))))))"

text \<open>The goroutine started for an unseen message runs to its end here; its errors are only logged.\<close>

definition mark_seen :: "'e chain_env_scheme \<Rightarrow> uuid \<Rightarrow> uuid \<Rightarrow> uuid \<Rightarrow> srv \<Rightarrow> srv" where
  "mark_seen E userID chainID messageID c =
     (case exec (exec_ok E) (SetSeen chainID (uuid_ms E messageID)) c of (ok, c1) \<Rightarrow>
      if \<not> ok then snd (HandleComplexError ''chains'' ''ScyllaDB'' c1)
      else case exec (exec_ok E) (UpdateLastSeenIf userID chainID (uuid_ms E messageID)) c1 of (ok, c2) \<Rightarrow>
      if \<not> ok then snd (HandleComplexError ''user_relations'' ''ScyllaDB'' c2) else c2)"

definition GetAudioMessage :: "'e chain_env_scheme \<Rightarrow> request \<Rightarrow> srv \<Rightarrow> (err \<times> srv) outcome" where
  "GetAudioMessage E req c =
     and_then (local_string ''userid'' c) (\<lambda>userID.
     and_then (local_string ''chainid'' c) (\<lambda>chainID.
       case ParseParamMessageUUID E req c of ((messageID, err), c1) \<Rightarrow>
       if err \<noteq> None then Done (err, c1)
       else let object = chainID @ ''_'' @ messageID in
         if \<not> object_found E object then Done (HandleInvalidRequestError (encodes E) ''Message'' ''expired'' c1)
         else let c2 = (if query_arg req ''seen'' = ''false'' then mark_seen E userID chainID messageID c1 else c1)
              in Done (None, c2\<lparr>body := Some (StreamBody object)\<rparr>)))"

end
