(* ===== verification/Relations_Props.thy ===== *)
theory Relations_Props imports Relations begin

text \<open>
  What the relation handlers do to the table of relations, read as CQL's \<open>UPDATE\<close> defines it: a
  statement writes the columns it binds to a value, creates the row when there is none, and leaves
  unset columns alone.
\<close>

subsection \<open>The table of relations\<close>

record relation =
  r_created :: "int option"
  r_chain_id :: "uuid option"
  r_username :: "string option"
  r_last_recv :: "int option"
  r_last_seen :: "int option"
  r_friend :: "bool option"
  r_requested :: "bool option"
  r_active :: "bool option"

type_synonym relation_table = "uuid \<times> uuid \<Rightarrow> relation"

definition empty_relations :: relation_table where
  "empty_relations = (\<lambda>_. \<lparr>r_created = None, r_chain_id = None, r_username = None, r_last_recv = None,
     r_last_seen = None, r_friend = None, r_requested = None, r_active = None\<rparr>)"

definition set_col :: "'v col \<Rightarrow> 'v option \<Rightarrow> 'v option" where
  "set_col col old = (case col of Unset \<Rightarrow> old | Col v \<Rightarrow> Some v)"

lemma set_col_simps [simp]: "set_col Unset old = old" "set_col (Col v) old = Some v"
  by (simp_all add: set_col_def)

definition update_relation :: "relation_update \<Rightarrow> relation \<Rightarrow> relation" where
  "update_relation u r =
     \<lparr>r_created = set_col (u_created u) (r_created r), r_chain_id = set_col (u_chain_id u) (r_chain_id r),
      r_username = set_col (u_relation_username u) (r_username r),
      r_last_recv = set_col (u_last_recv u) (r_last_recv r), r_last_seen = set_col (u_last_seen u) (r_last_seen r),
      r_friend = set_col (u_friend u) (r_friend r), r_requested = set_col (u_requested u) (r_requested r),
      r_active = set_col (u_active u) (r_active r)\<rparr>"

fun run_command :: "command \<Rightarrow> relation_table \<Rightarrow> relation_table" where
  "run_command (UpdateRelation u user rel) T = T((user, rel) := update_relation u (T (user, rel)))"
| "run_command _ T = T"

definition relation_table :: "srv \<Rightarrow> relation_table \<Rightarrow> relation_table" where
  "relation_table c T = fold run_command (commands c) T"

lemma relation_table_simps [simp]:
  "relation_table (c\<lparr>commands := commands c @ cmds\<rparr>) T = fold run_command cmds (relation_table c T)"
  "relation_table (c\<lparr>outbox := y\<rparr>) T = relation_table c T" "relation_table (c\<lparr>body := z\<rparr>) T = relation_table c T"
  "relation_table (c\<lparr>status := k\<rparr>) T = relation_table c T"
  by (simp_all add: relation_table_def)

subsection \<open>What the handlers do on working services\<close>

definition sends :: "'e server_env_scheme \<Rightarrow> int \<Rightarrow> uuid \<Rightarrow> string \<Rightarrow> uuid \<Rightarrow> message_data
    \<Rightarrow> byte \<times> byte slice \<times> string list" where
  "sends E op uid sid target data = (100, Some (message_text E op uid target False data), [sid, uid, target])"

lemma request_works:
  assumes "services_work E" and "signed_in uid name sid c"
    and "GetUsernameByID E rel c = ((other, None), c1)" and "signed_in uid name sid c1"
    and "rel = path_param req ''relationID''"
  shows "RequestRelation E req c = Done (None, c1\<lparr>
    commands := commands c1 @ [UpdateRelation (request_update (now_ms E) other True) uid rel,
      UpdateRelation (request_update (now_ms E) name False) rel uid],
    outbox := outbox c1 @ [sends E 200 uid sid rel (FriendRequestData name other)],
    body := Some (UsernameBody other)\<rparr>)"
  using assms send_payload_works [OF assms(1), of uid name sid]
  by (simp add: RequestRelation_def signed_in_locals exec_works FriendRequest_def json_works sends_def Let_def)

lemma accept_works:
  assumes "services_work E" and "signed_in uid name sid c"
  shows "accept_with_chain E chain uid rel c = Done (None, c\<lparr>
    commands := commands c @ [UpdateRelation (accept_update chain (now_ms E)) uid rel,
      UpdateRelation (accept_update chain (now_ms E)) rel uid],
    outbox := outbox c @ [sends E 201 uid sid rel (FriendAcceptData chain (now_ms E))],
    body := Some (AcceptedBody chain (now_ms E))\<rparr>)"
  using assms send_payload_works [OF assms(1), of uid name sid]
  by (simp add: accept_with_chain_def exec_works FriendAccepted_def json_works sends_def Let_def)

lemma remove_works:
  assumes "services_work E" and "signed_in uid name sid c" and "rel = path_param req ''relationID''"
  shows "RemoveRelation E req c = Done (None, c\<lparr>
    commands := commands c @ [UpdateRelation remove_update uid rel, UpdateRelation remove_update rel uid],
    outbox := outbox c @ [sends E 202 uid sid rel NoMessageData], status := 200,
    body := Some (ErrorBody \<lparr>er_Error = False, er_Problem = '''', er_Description = ''''\<rparr>)\<rparr>)"
  using assms send_payload_works [OF assms(1), of uid name sid]
  by (simp add: RemoveRelation_def signed_in_locals exec_works RelationRemove_def OKResponse_def json_works
      sends_def Let_def)


subsection \<open>Properties\<close>

lemma known_user: "username_by_id E rel = Row other \<Longrightarrow> GetUsernameByID E rel c = ((other, None), c)"
  by (simp add: GetUsernameByID_def)

lemma unknown_user:
  "services_work E \<Longrightarrow> username_by_id E rel = NotFound \<Longrightarrow> \<exists>c1. GetUsernameByID E rel c = (('''', None), c1)
     \<and> status c1 = 400 \<and> locals c1 = locals c \<and> commands c1 = commands c \<and> outbox c1 = outbox c"
  by (simp add: GetUsernameByID_def HandleBadRequestError_def c_json_def services_work_def)

lemma insert_chain_works:
  "services_work E \<Longrightarrow> InsertChainsUsers E chain users c
     = (None, c\<lparr>commands := commands c @ [InsertChainUsers chain users (now_ms E)]\<rparr>)"
  by (simp add: InsertChainsUsers_def exec_works)

lemma accept_new_chain:
  assumes "services_work E" and "signed_in uid name sid c" and "rel = path_param req ''relationID''"
    and "CheckExistingRelationChain E uid rel c = ((x, False, None), c1)" and "signed_in uid name sid c1"
  shows "AcceptRelation E req c = Done (None, c1\<lparr>
    commands := commands c1 @ [InsertChainUsers (time_uuid E) [uid, rel] (now_ms E),
      UpdateRelation (accept_update (time_uuid E) (now_ms E)) uid rel,
      UpdateRelation (accept_update (time_uuid E) (now_ms E)) rel uid],
    outbox := outbox c1 @ [sends E 201 uid sid rel (FriendAcceptData (time_uuid E) (now_ms E))],
    body := Some (AcceptedBody (time_uuid E) (now_ms E))\<rparr>)"
  using assms by (simp add: AcceptRelation_def signed_in_locals insert_chain_works accept_works [OF assms(1)] Let_def)

text \<open>A request that is accepted makes a mutual friendship. When a user requests another one, who then
  accepts, both rows are active friendships with the same new chain and the same times, each names the
  other user, the requester's row alone is marked as requested, the chain is entered for both users,
  both are told by one message each, and no other row is touched.\<close>

theorem accepted_request_is_mutual:
  assumes "services_work E" and "services_work E'" and "a \<noteq> b"
    and "signed_in a na sa ca" and "commands ca = []" and "path_param req ''relationID'' = b" and "username_by_id E b = Row nb"
    and "signed_in b nb sb cb" and "commands cb = []" and "path_param req' ''relationID'' = a" and "chain_of E' b a = NotFound"
  shows "\<exists>ca' cb' T'. RequestRelation E req ca = Done (None, ca') \<and> AcceptRelation E' req' cb = Done (None, cb')
    \<and> T' = relation_table cb' (relation_table ca' T)
    \<and> (\<forall>(u, v, n) \<in> {(a, b, nb), (b, a, na)}. r_friend (T' (u, v)) = Some True \<and> r_active (T' (u, v)) = Some True
        \<and> r_chain_id (T' (u, v)) = Some (time_uuid E') \<and> r_last_recv (T' (u, v)) = Some (now_ms E')
        \<and> r_username (T' (u, v)) = Some n \<and> r_requested (T' (u, v)) = Some (u = a))
    \<and> (\<forall>p. p \<noteq> (a, b) \<and> p \<noteq> (b, a) \<longrightarrow> T' p = T p)
    \<and> InsertChainUsers (time_uuid E') [b, a] (now_ms E') \<in> set (commands cb')
    \<and> length (outbox ca') = length (outbox ca) + 1 \<and> length (outbox cb') = length (outbox cb) + 1"
proof -
  have chk: "CheckExistingRelationChain E' b a cb = ((nil_uuid, False, None), cb)"
    using assms(11) by (simp add: CheckExistingRelationChain_def)
  show ?thesis
    using assms(3,5,9) request_works [OF assms(1,4) known_user [OF assms(7)] assms(4) assms(6) [symmetric]]
      accept_new_chain [OF assms(2,8) assms(10) [symmetric] chk assms(8)]
    by (auto simp: update_relation_def request_update_def accept_update_def no_update_def relation_table_def)
qed


definition demo_server :: server_env where
  "demo_server = \<lparr>encodes = (\<lambda>_. True), jwt = (\<lambda>_. TokenBad), sign_jwt = (\<lambda>_ _. None), now_nano = 7000000,
     rand = (\<lambda>n. Some (replicate n 0)), redis_hgetall = (\<lambda>_. RedisNil), queue_ok = (\<lambda>_. True), pipeline_ok = True,
     b64_decode = (\<lambda>_. None), rsa_decrypt = (\<lambda>_. None), gcm_open = (\<lambda>_ _ _. None), valid_key = (\<lambda>_. True),
     exec_ok = (\<lambda>_. True), router_ok = (\<lambda>_. True), nanoid4 = Some ''abcd'', marshal_message = (\<lambda>_. Some [123]),
     parse_uuid = (\<lambda>s. Some s), time_uuid = ''t1'', uuid_ms = (\<lambda>_. 7), uuid_zero_time = (\<lambda>_. False),
     username_by_id = (\<lambda>u. if u = ''b'' then Row ''bob'' else NotFound), chain_of = (\<lambda>_ _. NotFound),
     relations_of = (\<lambda>_. []), users_of_chain = (\<lambda>_. [Some ''a'', Some ''b''])\<rparr>"

definition demo_user :: "uuid \<Rightarrow> string \<Rightarrow> srv" where
  "demo_user uid name = new_srv\<lparr>locals := [''userid'' \<mapsto> uid, ''username'' \<mapsto> name, ''sessionid'' \<mapsto> ''s'']\<rparr>"

definition relation_request :: "uuid \<Rightarrow> request" where
  "relation_request rel = \<lparr>header = (\<lambda>_. ''''), path_param = (\<lambda>_. rel), query_arg = (\<lambda>_. ''''), client_ip = ''''\<rparr>"

lemma demo_server_works: "services_work demo_server"
  by (simp add: services_work_def demo_server_def)

lemma demo_user_simps [simp]:
  "signed_in uid name ''s'' (demo_user uid name)" "commands (demo_user uid name) = []"
  "path_param (relation_request rel) k = rel"
  by (simp_all add: demo_user_def new_srv_def signed_in_def relation_request_def)

theorem accepted_request_is_mutual_witness:
  "\<exists>ca' cb' T'. RequestRelation demo_server (relation_request ''b'') (demo_user ''a'' ''ann'') = Done (None, ca')
    \<and> AcceptRelation demo_server (relation_request ''a'') (demo_user ''b'' ''bob'') = Done (None, cb')
    \<and> T' = relation_table cb' (relation_table ca' empty_relations) \<and> r_friend (T' (''b'', ''a'')) = Some True"
proof -
  have q: "username_by_id demo_server ''b'' = Row ''bob''" "chain_of demo_server ''b'' ''a'' = NotFound"
    by (simp_all add: demo_server_def)
  show ?thesis
    using accepted_request_is_mutual [OF demo_server_works demo_server_works, where a = "''a''" and b = "''b''"
        and na = "''ann''" and nb = "''bob''" and sa = "''s''" and sb = "''s''" and ca = "demo_user ''a'' ''ann''"
        and cb = "demo_user ''b'' ''bob''" and req = "relation_request ''b''" and req' = "relation_request ''a''" and T = empty_relations] q
    by simp blast
qed

text \<open>A request to nobody is carried out. When no user has the requested id, the helper answers 400 but
  returns nil, and the handler goes on: both rows are written, the one for the missing user with an
  empty name on the other side, a message is sent to the missing user, and the body of the answer is
  replaced by the empty name under the status 400.\<close>

theorem request_to_unknown_user_goes_on:
  assumes "services_work E" and "signed_in uid name sid c" and "username_by_id E (path_param req ''relationID'') = NotFound"
  shows "\<exists>c'. RequestRelation E req c = Done (None, c') \<and> status c' = 400 \<and> body c' = Some (UsernameBody '''')
    \<and> commands c' = commands c @ [UpdateRelation (request_update (now_ms E) '''' True) uid (path_param req ''relationID''),
        UpdateRelation (request_update (now_ms E) name False) (path_param req ''relationID'') uid]
    \<and> outbox c' = outbox c @ [sends E 200 uid sid (path_param req ''relationID'') (FriendRequestData name '''')]"
proof -
  obtain c1 where c1: "GetUsernameByID E (path_param req ''relationID'') c = (('''', None), c1)"
    and same: "status c1 = 400" "locals c1 = locals c" "commands c1 = commands c" "outbox c1 = outbox c"
    using unknown_user [OF assms(1,3)] by blast
  then have "signed_in uid name sid c1" using assms(2) by (simp add: signed_in_def)
  from request_works [OF assms(1,2) c1 this refl] show ?thesis by (simp add: same)
qed

theorem request_to_unknown_user_goes_on_witness:
  "\<exists>c'. RequestRelation demo_server (relation_request ''zz'') (demo_user ''a'' ''ann'') = Done (None, c') \<and> status c' = 400
    \<and> length (commands c') = 2"
  using request_to_unknown_user_goes_on [OF demo_server_works, of "''a''" "''ann''" "''s''" "demo_user ''a'' ''ann''"
      "relation_request ''zz''"] by (force simp: demo_server_def)

text \<open>Accepting needs no request. Whatever the table of relations holds, as long as the pair has no chain
  (or the query for it fails, which only turns the status into 500), any user can accept any other: a
  new chain is entered for both, and both rows become friendships with it.\<close>

theorem acceptance_needs_no_request:
  assumes "services_work E" and "signed_in uid name sid c"
    and "chain_of E uid (path_param req ''relationID'') \<in> {NotFound, QueryFails}"
  shows "\<exists>c'. AcceptRelation E req c = Done (None, c')
    \<and> status c' = (if chain_of E uid (path_param req ''relationID'') = QueryFails then 500 else status c)
    \<and> body c' = Some (AcceptedBody (time_uuid E) (now_ms E))
    \<and> commands c' = commands c @ [InsertChainUsers (time_uuid E) [uid, path_param req ''relationID''] (now_ms E),
        UpdateRelation (accept_update (time_uuid E) (now_ms E)) uid (path_param req ''relationID''),
        UpdateRelation (accept_update (time_uuid E) (now_ms E)) (path_param req ''relationID'') uid]"
proof -
  obtain c1 where c1: "CheckExistingRelationChain E uid (path_param req ''relationID'') c = ((nil_uuid, False, None), c1)"
    and same: "locals c1 = locals c" "commands c1 = commands c"
      "status c1 = (if chain_of E uid (path_param req ''relationID'') = QueryFails then 500 else status c)"
    using assms(1,3) by (auto simp: CheckExistingRelationChain_def HandleInternalError_def c_json_def services_work_def)
  then have "signed_in uid name sid c1" using assms(2) by (simp add: signed_in_def)
  from accept_new_chain [OF assms(1,2) refl c1 this] show ?thesis by (simp add: same)
qed

theorem acceptance_needs_no_request_witness:
  "\<exists>c'. AcceptRelation demo_server (relation_request ''zz'') (demo_user ''a'' ''ann'') = Done (None, c')
    \<and> length (commands c') = 3"
  using acceptance_needs_no_request [OF demo_server_works, of "''a''" "''ann''" "''s''" "demo_user ''a'' ''ann''"
      "relation_request ''zz''"] by (force simp: demo_server_def)


subsection \<open>The lists a user sees\<close>

definition friend_of :: "relation_row \<Rightarrow> friends_schema" where
  "friend_of row = \<lparr>fr_RelationID = the (rr_relation_id row), fr_Username = rr_username row, fr_ChainID = rr_chain_id row,
     fr_Created = rr_created row, fr_LastSeen = rr_last_seen row, fr_LastRecv = rr_last_recv row, fr_Key = 0\<rparr>"

definition request_of :: "relation_row \<Rightarrow> requests_schema" where
  "request_of row = \<lparr>rq_Username = rr_username row, rq_RelationID = the (rr_relation_id row), rq_Created = rr_created row,
     rq_Requested = rr_requested row\<rparr>"

definition is_friend :: "relation_row \<Rightarrow> bool" where
  "is_friend row \<longleftrightarrow> rr_active row \<and> rr_friend row"

definition is_request :: "bool \<Rightarrow> relation_row \<Rightarrow> bool" where
  "is_request own row \<longleftrightarrow> rr_active row \<and> \<not> rr_friend row \<and> rr_requested row = own"

lemma map_rows_lists:
  "list_all (\<lambda>r. rr_relation_id r \<noteq> None) rows \<Longrightarrow> map_rows rows rs = Some
     (rs\<lparr>Friends := Friends rs @ map friend_of (filter is_friend rows),
         Requests := Requests rs @ map request_of (filter (is_request False) rows),
         Requested := Requested rs @ map request_of (filter (is_request True) rows)\<rparr>)"
  by (induction rows rs rule: map_rows.induct)
    (auto simp: friend_of_def request_of_def is_friend_def is_request_def Let_def split: option.splits)

lemma map_rows_error: "\<not> list_all (\<lambda>r. rr_relation_id r \<noteq> None) rows \<Longrightarrow> map_rows rows rs = None"
  by (induction rows rs rule: map_rows.induct) (auto split: option.splits)

text \<open>C30: the relation lists are complete, disjoint and ordered. If every row has an id, the three lists hold
  exactly the active rows, each in one list: friends with the latest message first, requests of others
  with the latest first, own requests with the oldest first; inactive rows are left out. A row without
  an id makes the whole an internal error.\<close>

theorem relation_lists_sorted_partition:
  "case RelationsMapper E new_relations u of
     None \<Rightarrow> \<exists>r\<in>set (relations_of E u). rr_relation_id r = None
   | Some rs \<Rightarrow>
       mset (Friends rs) = mset (map friend_of (filter is_friend (relations_of E u)))
     \<and> mset (Requests rs) = mset (map request_of (filter (is_request False) (relations_of E u)))
     \<and> mset (Requested rs) = mset (map request_of (filter (is_request True) (relations_of E u)))
     \<and> sorted_wrt (\<ge>) (map fr_LastRecv (Friends rs)) \<and> sorted_wrt (\<ge>) (map rq_Created (Requests rs))
     \<and> sorted (map rq_Created (Requested rs))
     \<and> length (Friends rs) + length (Requests rs) + length (Requested rs) = length (filter rr_active (relations_of E u))"
proof (cases "list_all (\<lambda>r. rr_relation_id r \<noteq> None) (relations_of E u)")
  case False
  then show ?thesis by (auto simp: RelationsMapper_def map_rows_error list_all_iff)
next
  case True
  have desc: "sorted_wrt (\<ge>) (map f (sort_key (\<lambda>x. - f x) xs))" for f :: "'b \<Rightarrow> int" and xs
    using sorted_sort_key [of "\<lambda>x. - f x" xs] by (simp add: sorted_wrt_map sorted_map)
  have "length (filter is_friend xs) + length (filter (is_request False) xs) + length (filter (is_request True) xs)
      = length (filter rr_active xs)" for xs
    by (induction xs) (auto simp: is_friend_def is_request_def)
  then show ?thesis
    using True by (simp add: RelationsMapper_def map_rows_lists new_relations_def desc)
qed

text \<open>A removal ends the friendship on both sides and keeps the chain: both rows lose the three flags,
  so that neither user lists the other, while chain, names and times stay for a later acceptance, and no
  other row is touched.\<close>

theorem removal_clears_both_sides:
  assumes "services_work E" and "signed_in a na sa ca" and "commands ca = []" and "path_param req ''relationID'' = b"
  shows "\<exists>ca'. RemoveRelation E req ca = Done (None, ca')
    \<and> (\<forall>p\<in>{(a, b), (b, a)}. relation_table ca' T p
          = (T p)\<lparr>r_friend := Some False, r_requested := Some False, r_active := Some False\<rparr>)
    \<and> (\<forall>p. p \<notin> {(a, b), (b, a)} \<longrightarrow> relation_table ca' T p = T p)"
proof -
  have upd: "update_relation remove_update r = r\<lparr>r_friend := Some False, r_requested := Some False, r_active := Some False\<rparr>" for r
    by (simp add: update_relation_def remove_update_def no_update_def)
  let ?cmds = "[UpdateRelation remove_update a b, UpdateRelation remove_update b a]"
  obtain ca' where run: "RemoveRelation E req ca = Done (None, ca')" and cmds: "commands ca' = ?cmds"
    using remove_works [OF assms(1,2) assms(4) [symmetric]] assms(3) by simp
  have both: "relation_table ca' T p = (T p)\<lparr>r_friend := Some False, r_requested := Some False, r_active := Some False\<rparr>"
    if "p \<in> {(a, b), (b, a)}" for p
    using that by (cases "a = b") (auto simp: relation_table_def cmds upd)
  have other: "relation_table ca' T p = T p" if "p \<notin> {(a, b), (b, a)}" for p
    using that by (simp add: relation_table_def cmds)
  show ?thesis using run both other by blast
qed

theorem removal_clears_both_sides_witness:
  "\<exists>ca'. RemoveRelation demo_server (relation_request ''b'') (demo_user ''a'' ''ann'') = Done (None, ca')
     \<and> r_active (relation_table ca' empty_relations (''b'', ''a'')) = Some False"
  using removal_clears_both_sides [OF demo_server_works, of "''a''" "''ann''" "''s''" "demo_user ''a'' ''ann''"
      "relation_request ''b''" "''b''" empty_relations] by auto

end
