(* ===== verification/Chains_Props.thy ===== *)
theory Chains_Props imports Chains Relations_Props begin

text \<open>
  Who gets into a chain, that the swapping loop of a page reverses it, and which uploads are stored.
\<close>

subsection \<open>The middleware\<close>

lemma scan_users_spec:
  "scan_users rows us = (if None \<in> set rows then None else Some (us @ map the rows))"
  by (induction rows us rule: scan_users.induct) auto

definition requested_chain :: "'e server_env_scheme \<Rightarrow> request \<Rightarrow> uuid" where
  "requested_chain E req = (case parse_uuid E (path_param req ''chainID'') of None \<Rightarrow> nil_uuid | Some u \<Rightarrow> u)"

lemma parse_chain:
  assumes "\<And>r. encodes E r"
  shows "\<exists>c1. ParseParamChainUUID E req c = ((requested_chain E req, None), c1) \<and> locals c1 = locals c \<and> passed c1 = passed c"
  using assms by (auto simp: ParseParamChainUUID_def requested_chain_def HandleBadRequestError_def c_json_def split: option.split)

text \<open>A chain is open to its two users only. A signed-in request passes exactly when the chain named in
  the path (the nil UUID when it does not parse, for the helper's error comes back as nil) has two users
  and the caller is one of them; the handlers then see that chain and the other user.\<close>

theorem chain_middleware_exact:
  assumes "\<And>r. encodes E r" and "signed_in uid name sid c" and "\<not> passed c"
  shows "\<exists>err c'. ChainRequestMiddleware E req c = Done (err, c')
    \<and> (passed c' \<longleftrightarrow> (\<exists>x y. users_of_chain E (requested_chain E req) = [Some x, Some y] \<and> uid \<in> {x, y}))
    \<and> (\<forall>x y. users_of_chain E (requested_chain E req) = [Some x, Some y] \<and> uid \<in> {x, y} \<longrightarrow>
        locals c' ''chainid'' = Some (requested_chain E req)
        \<and> locals c' ''requestid'' = Some (if uid = x then y else x) \<and> locals c' ''userid'' = Some uid)"
proof -
  obtain c1 where c1: "ParseParamChainUUID E req c = ((requested_chain E req, None), c1)"
    and same: "locals c1 = locals c" "passed c1 = passed c" using parse_chain [OF assms(1)] by blast
  let ?rows = "users_of_chain E (requested_chain E req)"
  have user: "local_string ''userid'' c1 = Done uid" "locals c1 ''userid'' = Some uid"
    using assms(2) same by (simp_all add: signed_in_def local_string_def)
  consider (two) x y where "?rows = [Some x, Some y]" | (err) "None \<in> set ?rows"
    | (other) "None \<notin> set ?rows" "length ?rows \<noteq> 2"
  proof (cases "length ?rows = 2")
    case True
    then obtain a b where "?rows = [a, b]" by (auto simp: length_Suc_conv numeral_2_eq_2)
    then show ?thesis using that(1,2) by (cases a; cases b) auto
  qed (use that in auto)
  then show ?thesis
  proof cases
    case two
    then show ?thesis
      using assms(3) user same by (auto simp: ChainRequestMiddleware_def c1 GetChainsUsers_def scan_users_spec prod_eq_iff Let_def)
  next
    case err
    then show ?thesis
      using assms(3) same by (auto simp: ChainRequestMiddleware_def c1 GetChainsUsers_def scan_users_spec)
  next
    case other
    then show ?thesis
      using assms(3) same by (auto simp: ChainRequestMiddleware_def c1 GetChainsUsers_def scan_users_spec prod_eq_iff)
  qed
qed

theorem chain_middleware_exact_witness:
  "\<exists>err c'. ChainRequestMiddleware demo_server (relation_request ''ch'') (demo_user ''b'' ''bob'') = Done (err, c')
     \<and> passed c' \<and> locals c' ''requestid'' = Some ''a''"
proof -
  have "encodes demo_server r" for r by (simp add: demo_server_def)
  note exact = chain_middleware_exact [OF this, of "''b''" "''bob''" "''s''" "demo_user ''b'' ''bob''" "relation_request ''ch''"]
  have "users_of_chain demo_server k = [Some ''a'', Some ''b'']" for k by (simp add: demo_server_def)
  then show ?thesis using exact by (auto simp: demo_user_def new_srv_def signed_in_def)
qed

subsection \<open>The order of a page\<close>

text \<open>The loop that swaps the ends reverses the slice: after \<open>i\<close> turns the outer \<open>i\<close> elements of both
  ends are in place.\<close>

lemma swap_loop_nth:
  "i \<le> length xs div 2 \<Longrightarrow> k < length xs \<Longrightarrow> length (swap_loop xs i) = length xs \<and>
     swap_loop xs i ! k = (if i \<le> k \<and> k < length xs - i then xs ! (length xs - 1 - k) else xs ! k)"
proof (induction xs i rule: swap_loop.induct)
  case (1 xs i)
  let ?j = "length xs - i - 1"
  let ?xs = "xs[i := xs ! ?j, ?j := xs ! i]"
  show ?case
  proof (cases "i < length xs div 2")
    case False
    then have "i = length xs div 2" using "1.prems" by simp
    moreover have "swap_loop xs i = xs" using False by (subst swap_loop.simps) simp
    moreover have "length xs - 1 - k = k" if "i \<le> k" "k < length xs - i" using that \<open>i = length xs div 2\<close> by linarith
    ultimately show ?thesis by simp
  next
    case True
    then have "swap_loop xs i = swap_loop ?xs (i + 1)" by (subst swap_loop.simps) (simp add: Let_def)
    moreover have "length (swap_loop ?xs (i + 1)) = length xs \<and> swap_loop ?xs (i + 1) ! k
        = (if i + 1 \<le> k \<and> k < length xs - (i + 1) then ?xs ! (length xs - 1 - k) else ?xs ! k)"
      using "1.IH" [OF True refl] "1.prems" True by simp
    ultimately show ?thesis using True "1.prems" by (auto simp: nth_list_update)
  qed
qed

lemma swap_loop_rev: "swap_loop xs 0 = rev xs"
proof (rule nth_equalityI)
  have "length (swap_loop xs 0) = length xs"
    using swap_loop_nth [of 0 xs 0] by (cases "xs = []") (subst swap_loop.simps, auto)
  then show "length (swap_loop xs 0) = length (rev xs)" by simp
  fix k
  assume "k < length (swap_loop xs 0)"
  with \<open>length (swap_loop xs 0) = length xs\<close> show "swap_loop xs 0 ! k = rev xs ! k"
    using swap_loop_nth [of 0 xs k] by (simp add: rev_nth)
qed

lemma scan_chain_rows:
  "(\<And>r. r \<in> set rows \<Longrightarrow> \<exists>m. cr_message_id r = Some m) \<Longrightarrow>
     scan_chain E rows ch = Some (ch @ map (\<lambda>r. message_of E r (the (cr_message_id r))) rows)"
  by (induction E rows ch rule: scan_chain.induct) (fastforce split: option.split)+

definition demo_chain :: chain_env where
  "demo_chain = server_env.extend demo_server \<lparr>query_chain = (\<lambda>_. []), days_later = (\<lambda>d. d * 86400000), object_found = (\<lambda>_. True)\<rparr>"

lemma demo_chain_works: "services_work demo_chain"
  by (simp add: services_work_def demo_chain_def server_env.extend_def demo_server_def)

definition chain_user :: srv where
  "chain_user = (demo_user ''a'' ''ann'')\<lparr>locals := [''userid'' \<mapsto> ''a'', ''username'' \<mapsto> ''ann'', ''sessionid'' \<mapsto> ''s'',
     ''chainid'' \<mapsto> ''ch'', ''requestid'' \<mapsto> ''b'']\<rparr>"

lemma parse_small: "parse_int ''5'' = Some 5" "parse_int ''50'' = Some 50"
  by code_simp+

subsection \<open>Uploads\<close>

text \<open>C21: which uploads are stored, and what is done with them. On working services a complete form is stored
  exactly when it lasts at most 300030 ms, is at most 2000000 bytes long and can be opened: then the
  object, the row, the receiver's and the sender's times are written in this order, the message goes to
  the other user, and it expires after the requested days, or after 60 when these are not 1 to 59. Any
  other complete form is answered with 400 and leaves no trace.\<close>

theorem audio_upload:
  assumes "services_work E" and "signed_in uid name sid c" and "locals c ''chainid'' = Some ch" and "locals c ''requestid'' = Some other"
    and "form_display form = display # xs" and "form_duration form = d # ys" and "parse_int d = Some duration"
    and "form_expireDays form = e # zs" and "parse_int e = Some days" and "form_audio form = (n, opens) # fs"
  shows "\<exists>c'. AddAudioMessage E (Some form) c = Done (None, c')
    \<and> (let expires = days_later E (if 1 \<le> days \<and> days \<le> 59 then days else 60);
           m = time_uuid E; t = uuid_ms E m
       in if duration \<le> 300030 \<and> n \<le> 2000000 \<and> opens
          then commands c' = commands c @ [PutObject ''audio-expire'' (ch @ ''_'' @ m),
                 InsertMessage ch t m uid expires 0 display duration,
                 UpdateRelation (no_update\<lparr>u_last_recv := Col t\<rparr>) other uid,
                 UpdateRelation (no_update\<lparr>u_last_seen := Col t\<rparr>) uid other]
            \<and> outbox c' = outbox c @ [(100, Some (message_text E 300 uid other True
                 (AudioMessageData ch m t expires 0 False display duration)), [sid, uid, other])]
            \<and> body c' = Some (MessageBody m t)
          else status c' = 400 \<and> commands c' = commands c \<and> outbox c' = outbox c)"
proof -
  have days: "(if days > 0 \<and> days < 60 then days else 60) = (if 1 \<le> days \<and> days \<le> 59 then days else 60)" by auto
  have l: "local_string ''chainid'' c = Done ch" "local_string ''requestid'' c = Done other"
    using assms(3,4) by (simp_all add: local_string_def)
  have bad: "\<exists>c'. HandleBadRequestError (encodes E) p x c = (None, c') \<and> status c' = 400
      \<and> commands c' = commands c \<and> outbox c' = outbox c" for p x
    using assms(1) by (simp add: HandleBadRequestError_def c_json_def services_work_def)
  have store: "store_audio E uid ch other display duration expires c = Done (None, c\<lparr>commands := commands c @
      [PutObject ''audio-expire'' (ch @ ''_'' @ time_uuid E),
       InsertMessage ch (uuid_ms E (time_uuid E)) (time_uuid E) uid expires 0 display duration,
       UpdateRelation (no_update\<lparr>u_last_recv := Col (uuid_ms E (time_uuid E))\<rparr>) other uid,
       UpdateRelation (no_update\<lparr>u_last_seen := Col (uuid_ms E (time_uuid E))\<rparr>) uid other],
      outbox := outbox c @ [(100, Some (message_text E 300 uid other True
         (AudioMessageData ch (time_uuid E) (uuid_ms E (time_uuid E)) expires 0 False display duration)), [sid, uid, other])],
      body := Some (MessageBody (time_uuid E) (uuid_ms E (time_uuid E)))\<rparr>)" for expires
    using assms(1,2) send_payload_works [OF assms(1), of uid name sid]
    by (simp add: store_audio_def exec_works SendMessage_def json_works Let_def)
  consider "duration > 300030" | "duration \<le> 300030" "n > 2000000" | "duration \<le> 300030" "n \<le> 2000000" "\<not> opens"
    | "duration \<le> 300030" "n \<le> 2000000" opens by linarith
  then show ?thesis
    by cases (use assms(5-10) bad in \<open>simp_all add: AddAudioMessage_def signed_in_locals [OF assms(2)] l first_value_def
      store days Let_def\<close>)
qed

theorem audio_upload_witness:
  "\<exists>c'. AddAudioMessage demo_chain (Some \<lparr>form_display = [''hi''], form_duration = [''50''], form_expireDays = [''5''],
      form_audio = [(1000, True)]\<rparr>) chain_user = Done (None, c') \<and> length (commands c') = 4"
  using audio_upload [OF demo_chain_works, of "''a''" "''ann''" "''s''" chain_user "''ch''" "''b''"
      "\<lparr>form_display = [''hi''], form_duration = [''50''], form_expireDays = [''5''], form_audio = [(1000, True)]\<rparr>"
      "''hi''" "[]" "''50''" "[]" 50 "''5''" "[]" 5 1000 True "[]"]
  by (auto simp: chain_user_def demo_user_def new_srv_def signed_in_def parse_small Let_def)

end
