(* ===== verification/Relations_System.thy ===== *)
theory Relations_System imports Chains_Props begin

text \<open>
  The table of relations under any sequence of requests of any users, with any state of the router, the
  encoders and the other tables: what the handlers that write it keep in common between the two rows of
  a pair, and how two of them running at once break it. As ScyllaDB defines it, the statement of
  \<open>GetAudioMessage\<close> on this table is invalid (its condition does not name the whole key), so it is not
  among the writers.
\<close>

subsection \<open>Pairs of updates\<close>

text \<open>Two updates of the two rows of a pair that agree on the shared columns.\<close>

definition agreeing :: "relation_update \<Rightarrow> relation_update \<Rightarrow> bool" where
  "agreeing u v \<longleftrightarrow> u_friend v = u_friend u \<and> u_chain_id v = u_chain_id u \<and> u_active v = u_active u \<and> u_created v = u_created u
     \<and> (u_friend u = Col True \<longrightarrow> u_chain_id u \<noteq> Unset)
     \<and> (u_requested u, u_requested v) \<in> {(Unset, Unset), (Col True, Col False), (Col False, Col False)}"

definition mirrored :: "relation_table \<Rightarrow> bool" where
  "mirrored T \<longleftrightarrow> (\<forall>a b. r_friend (T (a, b)) = r_friend (T (b, a)) \<and> r_chain_id (T (a, b)) = r_chain_id (T (b, a))
     \<and> r_active (T (a, b)) = r_active (T (b, a)) \<and> r_created (T (a, b)) = r_created (T (b, a))
     \<and> (r_friend (T (a, b)) = Some True \<longrightarrow> r_chain_id (T (a, b)) \<noteq> None)
     \<and> (a \<noteq> b \<and> r_requested (T (a, b)) = Some True \<longrightarrow> r_requested (T (b, a)) = Some False))"

lemma mirroredD:
  assumes "mirrored T"
  shows "r_friend (T (a, b)) = r_friend (T (b, a))" "r_chain_id (T (a, b)) = r_chain_id (T (b, a))"
    "r_active (T (a, b)) = r_active (T (b, a))" "r_created (T (a, b)) = r_created (T (b, a))"
    "r_friend (T (a, b)) = Some True \<Longrightarrow> r_chain_id (T (a, b)) \<noteq> None"
    "a \<noteq> b \<Longrightarrow> r_requested (T (a, b)) = Some True \<Longrightarrow> r_requested (T (b, a)) = Some False"
  using assms unfolding mirrored_def by blast+

lemma update_relation_sel [simp]:
  "r_friend (update_relation u r) = set_col (u_friend u) (r_friend r)" "r_chain_id (update_relation u r) = set_col (u_chain_id u) (r_chain_id r)"
  "r_active (update_relation u r) = set_col (u_active u) (r_active r)" "r_created (update_relation u r) = set_col (u_created u) (r_created r)"
  "r_requested (update_relation u r) = set_col (u_requested u) (r_requested r)"
  by (simp_all add: update_relation_def)

lemma set_col_twice [simp]: "set_col x (set_col x r) = set_col x r"
  by (cases x) simp_all

lemma set_col_friend_chain:
  "(set_col f r = Some True \<longrightarrow> set_col h k \<noteq> None)" if "f = Col True \<longrightarrow> h \<noteq> Unset" "r = Some True \<longrightarrow> k \<noteq> None"
  using that by (cases f; cases h) auto

lemma mirrored_pair:
  assumes T: "mirrored T" and uv: "agreeing u v"
  shows "mirrored (fold run_command [UpdateRelation u a b, UpdateRelation v b a] T)"
proof -
  define T' where "T' = fold run_command [UpdateRelation u a b, UpdateRelation v b a] T"
  have eq: "u_friend v = u_friend u" "u_chain_id v = u_chain_id u" "u_active v = u_active u" "u_created v = u_created u"
    and friend: "u_friend u = Col True \<longrightarrow> u_chain_id u \<noteq> Unset"
    and req: "(u_requested u, u_requested v) \<in> {(Unset, Unset), (Col True, Col False), (Col False, Col False)}"
    using uv by (simp_all add: agreeing_def)
  note chain = set_col_friend_chain [OF friend, of "r_friend (T p)" "r_chain_id (T p)" for p]
  have same: "r_friend (T' p) = set_col (u_friend u) (r_friend (T p)) \<and> r_chain_id (T' p) = set_col (u_chain_id u) (r_chain_id (T p))
      \<and> r_active (T' p) = set_col (u_active u) (r_active (T p)) \<and> r_created (T' p) = set_col (u_created u) (r_created (T p))"
    if "p = (a, b) \<or> p = (b, a)" for p
    using that unfolding T'_def by (cases "a = b") (auto simp: eq)
  have other: "T' p = T p" if "p \<noteq> (a, b)" "p \<noteq> (b, a)" for p using that unfolding T'_def by simp
  have "r_friend (T' (x, y)) = r_friend (T' (y, x)) \<and> r_chain_id (T' (x, y)) = r_chain_id (T' (y, x))
      \<and> r_active (T' (x, y)) = r_active (T' (y, x)) \<and> r_created (T' (x, y)) = r_created (T' (y, x))
      \<and> (r_friend (T' (x, y)) = Some True \<longrightarrow> r_chain_id (T' (x, y)) \<noteq> None)" for x y
  proof (cases "(x, y) = (a, b) \<or> (x, y) = (b, a)")
    case True
    then have "(y, x) = (a, b) \<or> (y, x) = (b, a)" by auto
    with True show ?thesis
      using same [of "(x, y)"] same [of "(y, x)"] mirroredD(1-5) [OF T, of x y] chain [of "(x, y)"] by auto
  next
    case False
    then have "(y, x) \<noteq> (a, b)" "(y, x) \<noteq> (b, a)" by auto
    with False show ?thesis using other [of "(x, y)"] other [of "(y, x)"] mirroredD(1-5) [OF T, of x y] by simp
  qed
  moreover have "r_requested (T' (y, x)) = Some False" if "x \<noteq> y" "r_requested (T' (x, y)) = Some True" for x y
  proof (cases "(x, y) = (a, b) \<or> (x, y) = (b, a)")
    case True
    with that(1) have "a \<noteq> b" by auto
    then have "r_requested (T' (a, b)) = set_col (u_requested u) (r_requested (T (a, b)))"
      "r_requested (T' (b, a)) = set_col (u_requested v) (r_requested (T (b, a)))" by (simp_all add: T'_def)
    moreover consider "u_requested u = Unset" "u_requested v = Unset" | "u_requested v = Col False" using req by auto
    ultimately show ?thesis
      using that True req mirroredD(6) [OF T, of x y] by cases (elim disjE; simp)+
  next
    case False
    then have "(y, x) \<noteq> (a, b)" "(y, x) \<noteq> (b, a)" by auto
    with False show ?thesis using other [of "(x, y)"] other [of "(y, x)"] mirroredD(6) [OF T that(1)] that(2) by simp
  qed
  ultimately show ?thesis unfolding mirrored_def T'_def by blast
qed

subsection \<open>What the handlers issue\<close>

text \<open>Commands that add no update but whole pairs of agreeing ones.\<close>

definition adds_pairs :: "srv \<Rightarrow> srv \<Rightarrow> bool" where
  "adds_pairs c c' \<longleftrightarrow> (\<exists>cmds. commands c' = commands c @ cmds \<and> (\<forall>T. mirrored T \<longrightarrow> mirrored (fold run_command cmds T)))"

lemma adds_pairs_same: "commands c' = commands c \<Longrightarrow> adds_pairs c c'"
  by (simp add: adds_pairs_def)

lemma adds_pairs_pair:
  assumes "agreeing u v" and "commands c' = commands c @ pre @ [UpdateRelation u a b, UpdateRelation v b a]"
    and "\<And>T. fold run_command pre T = T"
  shows "adds_pairs c c'"
  using assms mirrored_pair [OF _ assms(1), of _ a b] unfolding adds_pairs_def by (auto simp del: run_command.simps fold_simps)

lemma helper_commands:
  "HandleInternalError enc p c = (e, c') \<Longrightarrow> commands (c' :: srv) = commands c"
  "HandleBadRequestError enc p d c = (e, c') \<Longrightarrow> commands (c' :: srv) = commands c"
  "HandleInvalidRequestError enc p d c = (e, c') \<Longrightarrow> commands (c' :: srv) = commands c"
  "c_json enc r c = (e, c') \<Longrightarrow> commands (c' :: srv) = commands c"
  "OKResponse enc c = (e, c') \<Longrightarrow> commands (c' :: srv) = commands c"
  by (auto simp: http_helpers split: if_splits)

lemma send_payload_commands: "send_payload E op t atomic d c = Done (err, c') \<Longrightarrow> commands c' = commands c"
  by (auto simp: send_payload_def write_router_def local_string_def outcome_simps Let_def dest: helper_commands
      split: option.splits if_splits)

lemma send_commands:
  "FriendRequest E t n c = Done (err, c') \<Longrightarrow> commands c' = commands c"
  "FriendAccepted E t ch cr c = Done (err, c') \<Longrightarrow> commands c' = commands c"
  "RelationRemove E t c = Done (err, c') \<Longrightarrow> commands c' = commands c"
  "SendMessage E t ch m cr x ty d du c = Done (err, c') \<Longrightarrow> commands c' = commands c"
  by (auto simp: FriendRequest_def FriendAccepted_def RelationRemove_def SendMessage_def local_string_def outcome_simps
      dest: send_payload_commands split: option.splits)

lemma and_then_Done_iff: "and_then m f = Done r \<longleftrightarrow> (\<exists>x. m = Done x \<and> f x = Done r)"
  by (cases m) auto

lemma exec_all: "(\<And>n. ok n) \<Longrightarrow> exec ok cmd c = (True, c\<lparr>commands := commands c @ [cmd]\<rparr>)"
  by (simp add: exec_def)

lemma GetUsernameByID_commands: "GetUsernameByID E r c = (x, c') \<Longrightarrow> commands c' = commands c"
  by (auto simp: GetUsernameByID_def case_prod_beta dest: helper_commands split: query.splits)

lemma CheckExistingRelationChain_commands: "CheckExistingRelationChain E u r c = (x, c') \<Longrightarrow> commands c' = commands c"
  by (auto simp: CheckExistingRelationChain_def case_prod_beta dest: helper_commands split: query.splits if_splits)

lemma request_pairs:
  assumes "\<And>n. exec_ok E n" and "RequestRelation E req c = Done (err, c')"
  shows "adds_pairs c c'"
proof -
  obtain name e c1 where g: "GetUsernameByID E (path_param req ''relationID'') c = ((name, e), c1)"
    by (metis prod.collapse)
  obtain u n where u: "local_string ''userid'' c = Done u" "local_string ''username'' c = Done n"
    using assms(2) by (auto simp: RequestRelation_def and_then_Done_iff)
  note same = GetUsernameByID_commands [OF g]
  show ?thesis
  proof (cases e)
    case (Some x)
    then show ?thesis using assms(2) g u same by (auto simp: RequestRelation_def and_then_Done_iff intro: adds_pairs_same)
  next
    case None
    let ?cmds = "[UpdateRelation (request_update (now_ms E) name True) u (path_param req ''relationID''),
      UpdateRelation (request_update (now_ms E) n False) (path_param req ''relationID'') u]"
    have "commands c' = commands c @ [] @ ?cmds"
      using assms(2) g u same None
      by (auto simp: RequestRelation_def and_then_Done_iff exec_all [OF assms(1)] Let_def
          dest!: send_commands helper_commands split: if_splits)
    moreover have "agreeing (request_update (now_ms E) name True) (request_update (now_ms E) n False)"
      by (simp add: agreeing_def request_update_def)
    ultimately show ?thesis by (intro adds_pairs_pair) auto
  qed
qed

lemma accept_with_chain_pairs:
  assumes "\<And>n. exec_ok E n" and "accept_with_chain E ch u r c = Done (err, c')"
  shows "commands c' = commands c @ [UpdateRelation (accept_update ch (now_ms E)) u r, UpdateRelation (accept_update ch (now_ms E)) r u]"
  using assms(2) by (auto simp: accept_with_chain_def and_then_Done_iff exec_all [OF assms(1)] Let_def
      dest!: send_commands helper_commands split: if_splits)

lemma accept_pairs:
  assumes "\<And>n. exec_ok E n" and "AcceptRelation E req c = Done (err, c')"
  shows "adds_pairs c c'"
proof -
  obtain u where u: "local_string ''userid'' c = Done u"
    using assms(2) by (auto simp: AcceptRelation_def and_then_Done_iff)
  obtain ch valid e c1 where k: "CheckExistingRelationChain E u (path_param req ''relationID'') c = ((ch, valid, e), c1)"
    by (metis prod.collapse)
  note same = CheckExistingRelationChain_commands [OF k]
  let ?rel = "path_param req ''relationID''"
  have ag: "agreeing (accept_update x t) (accept_update x t)" for x t by (simp add: agreeing_def accept_update_def no_update_def)
  consider "e \<noteq> None" | "e = None" valid | "e = None" "\<not> valid" by blast
  then show ?thesis
  proof cases
    case 1
    then show ?thesis using assms(2) k u same by (auto simp: AcceptRelation_def and_then_Done_iff intro: adds_pairs_same)
  next
    case 2
    then have "accept_with_chain E ch u ?rel c1 = Done (err, c')"
      using assms(2) k u by (simp add: AcceptRelation_def outcome_simps)
    from accept_with_chain_pairs [OF assms(1) this] same show ?thesis
      by (intro adds_pairs_pair [OF ag, where pre = "[]"]) auto
  next
    case 3
    then have "accept_with_chain E (time_uuid E) u ?rel (c1\<lparr>commands := commands c1 @ [InsertChainUsers (time_uuid E) [u, ?rel] (now_ms E)]\<rparr>)
        = Done (err, c')"
      using assms(2) k u by (simp add: AcceptRelation_def outcome_simps InsertChainsUsers_def exec_all [OF assms(1)] Let_def)
    from accept_with_chain_pairs [OF assms(1) this] same show ?thesis
      by (intro adds_pairs_pair [OF ag, where pre = "[InsertChainUsers (time_uuid E) [u, ?rel] (now_ms E)]"]) auto
  qed
qed

lemma remove_pairs:
  assumes "\<And>n. exec_ok E n" and "RemoveRelation E req c = Done (err, c')"
  shows "adds_pairs c c'"
proof -
  obtain u where u: "local_string ''userid'' c = Done u" using assms(2) by (auto simp: RemoveRelation_def and_then_Done_iff)
  have "commands c' = commands c @ [] @ [UpdateRelation remove_update u (path_param req ''relationID''),
      UpdateRelation remove_update (path_param req ''relationID'') u]"
    using assms(2) u by (auto simp: RemoveRelation_def and_then_Done_iff exec_all [OF assms(1)] Let_def
        dest!: send_commands helper_commands split: if_splits)
  moreover have "agreeing remove_update remove_update" by (simp add: agreeing_def remove_update_def no_update_def)
  ultimately show ?thesis by (intro adds_pairs_pair) auto
qed

lemma store_audio_pairs:
  assumes "\<And>n. exec_ok E n" and "store_audio E u ch v d du x c = Done (err, c')"
  shows "adds_pairs c c'"
proof -
  let ?m = "time_uuid E"
  let ?t = "uuid_ms E ?m"
  have "commands c' = commands c @ [PutObject ''audio-expire'' (ch @ ''_'' @ ?m), InsertMessage ch ?t ?m u x 0 d du]
      @ [UpdateRelation (no_update\<lparr>u_last_recv := Col ?t\<rparr>) v u, UpdateRelation (no_update\<lparr>u_last_seen := Col ?t\<rparr>) u v]"
    using assms(2) by (auto simp: store_audio_def and_then_Done_iff exec_all [OF assms(1)] Let_def
        dest!: send_commands helper_commands split: if_splits)
  moreover have "agreeing (no_update\<lparr>u_last_recv := Col ?t\<rparr>) (no_update\<lparr>u_last_seen := Col ?t\<rparr>)"
    by (simp add: agreeing_def no_update_def)
  ultimately show ?thesis by (intro adds_pairs_pair) auto
qed

lemma audio_pairs:
  assumes "\<And>n. exec_ok E n" and "AddAudioMessage E form c = Done (err, c')"
  shows "adds_pairs c c'"
proof (cases "\<exists>u ch v d du x. store_audio E u ch v d du x c = Done (err, c')")
  case True
  then show ?thesis using store_audio_pairs [OF assms(1)] by blast
next
  case False
  then have "commands c' = commands c"
    using assms(2) by (auto simp: AddAudioMessage_def and_then_Done_iff Let_def dest!: helper_commands
        split: option.splits if_splits prod.splits)
  then show ?thesis by (rule adds_pairs_same)
qed

subsection \<open>The system\<close>

text \<open>One request after the other, each by any user in any environment whose statements succeed; the router,
  the encoders, the clock and what the queries find are arbitrary and may differ from request to request.\<close>

inductive relations_run :: "relation_table \<Rightarrow> bool" where
  no_relations: "relations_run empty_relations"
| requested: "relations_run T \<Longrightarrow> (\<And>n. exec_ok (E :: server_env) n) \<Longrightarrow> commands c = []
    \<Longrightarrow> RequestRelation E req c = Done (err, c') \<Longrightarrow> relations_run (relation_table c' T)"
| accepted: "relations_run T \<Longrightarrow> (\<And>n. exec_ok (E :: server_env) n) \<Longrightarrow> commands c = []
    \<Longrightarrow> AcceptRelation E req c = Done (err, c') \<Longrightarrow> relations_run (relation_table c' T)"
| removed: "relations_run T \<Longrightarrow> (\<And>n. exec_ok (E :: server_env) n) \<Longrightarrow> commands c = []
    \<Longrightarrow> RemoveRelation E req c = Done (err, c') \<Longrightarrow> relations_run (relation_table c' T)"
| uploaded: "relations_run T \<Longrightarrow> (\<And>n. exec_ok (F :: chain_env) n) \<Longrightarrow> commands c = []
    \<Longrightarrow> AddAudioMessage F form c = Done (err, c') \<Longrightarrow> relations_run (relation_table c' T)"

lemma adds_pairs_mirrored: "mirrored T \<Longrightarrow> adds_pairs c c' \<Longrightarrow> commands c = [] \<Longrightarrow> mirrored (relation_table c' T)"
  by (auto simp: adds_pairs_def relation_table_def)

lemma relations_run_mirrored: "relations_run T \<Longrightarrow> mirrored T"
proof (induction rule: relations_run.induct)
  case no_relations
  then show ?case by (simp add: mirrored_def empty_relations_def)
qed (auto intro: adds_pairs_mirrored request_pairs accept_pairs remove_pairs audio_pairs)

text \<open>C5: friendship is mutual. After any sequence of requests, acceptances, removals and uploads of any users,
  as long as the statements of the database succeed (the router, the encoders and every other query may
  fail), two users are friends for each other or for neither, have the same chain, activity and creation
  time, friends have a chain, and at most one of two users counts as the one who asked.\<close>

theorem friendship_is_mutual:
  assumes "relations_run T"
  shows "r_friend (T (a, b)) = r_friend (T (b, a)) \<and> r_chain_id (T (a, b)) = r_chain_id (T (b, a))
    \<and> r_active (T (a, b)) = r_active (T (b, a)) \<and> r_created (T (a, b)) = r_created (T (b, a))
    \<and> (r_friend (T (a, b)) = Some True \<longrightarrow> r_chain_id (T (a, b)) \<noteq> None)
    \<and> (a \<noteq> b \<and> r_requested (T (a, b)) = Some True \<longrightarrow> r_requested (T (b, a)) = Some False)"
  using relations_run_mirrored [OF assms] unfolding mirrored_def by blast

theorem friendship_is_mutual_witness:
  "\<exists>T. relations_run T \<and> r_friend (T (''a'', ''b'')) = Some True \<and> r_friend (T (''b'', ''a'')) = Some True"
proof -
  note relations_run.no_relations
  moreover have ok: "exec_ok demo_server n" for n by (simp add: demo_server_def)
  obtain c' where acc: "AcceptRelation demo_server (relation_request ''b'') (demo_user ''a'' ''ann'') = Done (None, c')"
    and cmds: "commands c' = [InsertChainUsers ''t1'' [''a'', ''b''] 7, UpdateRelation (accept_update ''t1'' 7) ''a'' ''b'',
      UpdateRelation (accept_update ''t1'' 7) ''b'' ''a'']"
    using accept_new_chain [OF demo_server_works, of "''a''" "''ann''" "''s''" "demo_user ''a'' ''ann''" "''b''" "relation_request ''b''"]
    by (simp add: CheckExistingRelationChain_def demo_server_def now_ms_def)
  ultimately have run: "relations_run (relation_table c' empty_relations)"
    by (intro relations_run.accepted [OF _ ok _ acc]) simp_all
  moreover have "r_friend (relation_table c' empty_relations (''a'', ''b'')) = Some True"
    by (simp add: relation_table_def cmds accept_update_def no_update_def)
  ultimately show ?thesis using friendship_is_mutual [OF run, of "''a''" "''b''"] by auto
qed

text \<open>Requests that overlap can leave a one-sided friendship. When a user accepts another one who removes
  the relation at the same time, the four updates can be carried out in an order after which the first
  user no longer has the friend but the friend still has the first user, both handlers answering success.\<close>

theorem overlapping_requests_break_friendship:
  assumes "services_work E" and "services_work E'" and "a \<noteq> b" and "signed_in a na sa ca" and "commands ca = []"
    and "signed_in b nb sb cb" and "commands cb = []" and "path_param req ''relationID'' = b" and "path_param req' ''relationID'' = a"
    and "chain_of E a b = Row ch" and "\<not> uuid_zero_time E ch"
  shows "\<exists>ca' cb' cmds. AcceptRelation E req ca = Done (None, ca') \<and> RemoveRelation E' req' cb = Done (None, cb')
    \<and> cmds \<in> shuffles (commands ca') (commands cb')
    \<and> r_friend (fold run_command cmds T (a, b)) = Some False \<and> r_friend (fold run_command cmds T (b, a)) = Some True"
proof -
  let ?acc = "accept_update ch (now_ms E)"
  have "AcceptRelation E req ca = accept_with_chain E ch a b ca"
    using assms(4,8,10,11) by (simp add: AcceptRelation_def signed_in_locals CheckExistingRelationChain_def Let_def)
  with accept_works [OF assms(1,4), of ch b] obtain ca' where ca': "AcceptRelation E req ca = Done (None, ca')"
    and acmds: "commands ca' = [UpdateRelation ?acc a b, UpdateRelation ?acc b a]" using assms(5) by auto
  obtain cb' where cb': "RemoveRelation E' req' cb = Done (None, cb')"
    and bcmds: "commands cb' = [UpdateRelation remove_update b a, UpdateRelation remove_update a b]"
    using remove_works [OF assms(2,6) assms(9) [symmetric]] assms(7) by auto
  let ?cmds = "[UpdateRelation ?acc a b, UpdateRelation remove_update b a, UpdateRelation remove_update a b, UpdateRelation ?acc b a]"
  have "?cmds \<in> shuffles (commands ca') (commands cb')"
    by (simp add: acmds bcmds Cons_in_shuffles_iff)
  moreover have "r_friend (fold run_command ?cmds T (a, b)) = Some False" "r_friend (fold run_command ?cmds T (b, a)) = Some True"
    using assms(3) by (simp_all add: accept_update_def remove_update_def no_update_def)
  ultimately show ?thesis using ca' cb' by blast
qed

theorem overlapping_requests_break_friendship_witness:
  "\<exists>ca' cb' cmds. AcceptRelation (demo_server\<lparr>chain_of := (\<lambda>_ _. Row ''ch'')\<rparr>) (relation_request ''b'') (demo_user ''a'' ''ann'') = Done (None, ca')
    \<and> RemoveRelation demo_server (relation_request ''a'') (demo_user ''b'' ''bob'') = Done (None, cb')
    \<and> cmds \<in> shuffles (commands ca') (commands cb') \<and> r_friend (fold run_command cmds empty_relations (''a'', ''b'')) = Some False"
proof -
  have "services_work (demo_server\<lparr>chain_of := (\<lambda>_ _. Row ''ch'')\<rparr>)" by (simp add: services_work_def demo_server_def)
  from overlapping_requests_break_friendship [OF this demo_server_works, of "''a''" "''b''" "''ann''" "''s''" "demo_user ''a'' ''ann''"
      "''bob''" "''s''" "demo_user ''b'' ''bob''" "relation_request ''b''" "relation_request ''a''" "''ch''" empty_relations]
  show ?thesis by (simp add: demo_server_def) blast
qed

end
