(* ===== verification/Accounts.thy ===== *)
theory Accounts imports Relations begin

text \<open>
  Accounts (\<open>services/auth.services.go\<close>, \<open>services/user.services.go\<close>,
  \<open>services/public.services.go\<close>): registration with a mailed code, verification, login, and what a
  user sees at the start. The body parser and the validator are parameters of each handler: the parsed
  request (\<open>None\<close> when the JSON is invalid) and the validator's complaints about it.
\<close>

subsection \<open>Requests and environment\<close>

record register_schema =
  rs_Username :: string
  rs_Email :: string
  rs_EncPasswordHash :: string

record verify_email_schema =
  ve_Email :: string
  ve_Code :: string

record login_schema =
  ls_Email :: string
  ls_EncPasswordHash :: string
  ls_DeviceToken :: string

record user_row =
  ur_user_id :: uuid
  ur_password_hash :: string
  ur_username :: string

text \<open>The configured mail account, and the calls of \<open>net/smtp\<close>: the address of the server, the plain
  authentication (identity, user, password, host), the sender, the recipients and the message.\<close>

record smtp_config =
  SMTP_Host :: string
  SMTP_Port :: int
  SMTP_User :: string
  SMTP_Password :: string

record plain_auth =
  pa_identity :: string
  pa_username :: string
  pa_password :: string
  pa_host :: string

record account_env = server_env +
  count_username :: "string \<Rightarrow> int option"
  count_email :: "string \<Rightarrow> int option"
  bcrypt_generate :: "bytes \<Rightarrow> string option"
  bcrypt_matches :: "string \<Rightarrow> bytes \<Rightarrow> bool"
  redis_hget :: "string \<Rightarrow> string \<Rightarrow> string redis_reply"
  cas_applied :: "string \<Rightarrow> bool option"
  user_by_email :: "string \<Rightarrow> user_row query"
  public_user :: "string \<Rightarrow> (string \<times> uuid \<times> string) query"
  private_user :: "uuid \<Rightarrow> (string \<times> string option) query"
  smtp :: smtp_config
  smtp_send :: "string \<Rightarrow> plain_auth \<Rightarrow> string \<Rightarrow> string list \<Rightarrow> bytes \<Rightarrow> err"
  email_from :: string

text \<open>\<open>strings.ToLower\<close> and \<open>strings.ToUpper\<close> on ASCII, and the regular expression for user names.\<close>

definition lower_char :: "char \<Rightarrow> char" where
  "lower_char c = (let n = of_char c in if 65 \<le> n \<and> n \<le> (90 :: nat) then char_of (n + 32) else c)"

definition upper_char :: "char \<Rightarrow> char" where
  "upper_char c = (let n = of_char c in if 97 \<le> n \<and> n \<le> (122 :: nat) then char_of (n - 32) else c)"

definition to_lower :: "string \<Rightarrow> string" where "to_lower s = map lower_char s"

definition to_upper :: "string \<Rightarrow> string" where "to_upper s = map upper_char s"

definition username_char :: "char \<Rightarrow> bool" where
  "username_char c \<longleftrightarrow> (let n = (of_char c :: nat) in
     (48 \<le> n \<and> n \<le> 57) \<or> (65 \<le> n \<and> n \<le> 90) \<or> n = 95 \<or> (97 \<le> n \<and> n \<le> 122))"

definition validUsername :: "string \<Rightarrow> bool" where
  "validUsername s \<longleftrightarrow> s \<noteq> [] \<and> list_all username_char s"

text \<open>The common start of the handlers with a body.\<close>

definition with_body :: "'e server_env_scheme \<Rightarrow> 'r option \<Rightarrow> ('r \<Rightarrow> (string \<times> string) list) \<Rightarrow> srv
    \<Rightarrow> ('r \<Rightarrow> (err \<times> srv) outcome) \<Rightarrow> (err \<times> srv) outcome" where
  "with_body E parsed check c handle =
     (case parsed of
        None \<Rightarrow> Done (HandleBadJsonError (encodes E) c)
      | Some req \<Rightarrow> (case check req of [] \<Rightarrow> handle req | e # es \<Rightarrow> HandleValidatorError (encodes E) (Some (e # es)) c))"

subsection \<open>Verification mails\<close>

definition mail_text :: "'e account_env_scheme \<Rightarrow> string \<Rightarrow> string" where
  "mail_text E code = ''From: '' @ email_from E @ [CHR 0x0A] @ ''Subject: Verification code'' @ [CHR 0x0A]
     @ ''MIME-version: 1.0;'' @ [CHR 0x0A] @ ''Content-Type: text/html; charset='' @ [CHR 0x22] @ ''UTF-8'' @ [CHR 0x22] @ '';''
     @ [CHR 0x0A, CHR 0x0A] @ ''<html><body><div><h1>Your code is: <b>'' @ code
     @ ''</b></h1><br><p>Please enter the code as instructed in the app within <b>24 hours</b></p></div></body></html>''"

definition sprint_int :: "int \<Rightarrow> string" where
  "sprint_int n = (if n < 0 then CHR ''-'' # decimal (nat (- n)) else decimal (nat n))"

definition EmailSender :: "'e account_env_scheme \<Rightarrow> string \<Rightarrow> string \<Rightarrow> err" where
  "EmailSender E to message =
     (let plainAuth = \<lparr>pa_identity = '''', pa_username = SMTP_User (smtp E), pa_password = SMTP_Password (smtp E),
            pa_host = SMTP_Host (smtp E)\<rparr>
      in smtp_send E (SMTP_Host (smtp E) @ '':'' @ sprint_int (SMTP_Port (smtp E))) plainAuth (SMTP_User (smtp E)) [to]
           (to_bytes message))"

definition SendVerifEmail :: "'e account_env_scheme \<Rightarrow> string \<Rightarrow> string \<Rightarrow> srv \<Rightarrow> srv" where
  "SendVerifEmail E email code c =
     (let c1 = c\<lparr>commands := commands c @ [SendMail email (mail_text E code)]\<rparr>
      in case EmailSender E email (mail_text E code) of
           None \<Rightarrow> c1
         | Some err \<Rightarrow> c1\<lparr>internal_log := internal_log c1 @ [''Email sender error: '' @ err]\<rparr>)"

text \<open>A mail that cannot be sent changes the log, not the answer.\<close>

lemma SendVerifEmail_fields [simp]:
  "commands (SendVerifEmail E email code c) = commands c @ [SendMail email (mail_text E code)]"
  "status (SendVerifEmail E email code c) = status c" "body (SendVerifEmail E email code c) = body c"
  "resp_headers (SendVerifEmail E email code c) = resp_headers c" "passed (SendVerifEmail E email code c) = passed c"
  by (simp_all add: SendVerifEmail_def Let_def split: option.split)

subsection \<open>Registration\<close>

text \<open>The pipeline that keeps a registration for a day. Its function's error is the handler's own \<open>err\<close>,
  which the result of \<open>Pipelined\<close> then replaces.\<close>

definition store_registration :: "'e account_env_scheme \<Rightarrow> string \<Rightarrow> (string \<times> string) list \<Rightarrow> srv \<Rightarrow> (bool \<times> err) \<times> srv" where
  "store_registration E email entries c =
     (let set = HSet (''verifying:'' @ email) entries;
          expire = Expire (''verifying:'' @ email) (24 * 60 * 60 * 1000)
      in case (if \<not> queue_ok E 0 then (case HandleInternalError (encodes E) ''set_verifying'' c of (err, c1) \<Rightarrow> (True, err, [set], c1))
               else if \<not> queue_ok E 1
               then (case HandleInternalError (encodes E) ''expire_verifying'' c of (err, c1) \<Rightarrow> (True, err, [set, expire], c1))
               else (False, None, [set, expire], c)) of
        (redisError, err, queue, c1) \<Rightarrow>
          if err \<noteq> None then ((redisError, err), c1)
          else ((redisError, if pipeline_ok E then None else Some ''pipeline''), c1\<lparr>commands := commands c1 @ queue\<rparr>))"

definition register_new :: "'e account_env_scheme \<Rightarrow> register_schema \<Rightarrow> srv \<Rightarrow> (err \<times> srv) outcome" where
  "register_new E req c =
     (case RandomTokenString (rand E) 3 of
        None \<Rightarrow> Done (HandleInternalError (encodes E) ''code'' c)
      | Some code \<Rightarrow>
          and_then (DecryptRequestPasswordHash E (rs_EncPasswordHash req) c) (\<lambda>((password, err), c1).
            if password = [] then Done (err, c1)
            else case bcrypt_generate E password of
              None \<Rightarrow> Done (HandleInternalError (encodes E) ''password'' c1)
            | Some passwordHash \<Rightarrow>
                let email = to_lower (rs_Email req); code = to_upper code in
                case store_registration E email
                  [(''code'', code), (''username'', rs_Username req), (''passwordhash'', passwordHash)] c1 of
                  ((redisError, err), c2) \<Rightarrow>
                    if err \<noteq> None then Done (HandleInternalError (encodes E) ''pipeline'' c2)
                    else if redisError then Done (err, c2)
                    else Done (OKResponse (encodes E) (SendVerifEmail E email code c2))))"

definition Register :: "'e account_env_scheme \<Rightarrow> register_schema option \<Rightarrow> (register_schema \<Rightarrow> (string \<times> string) list)
    \<Rightarrow> srv \<Rightarrow> (err \<times> srv) outcome" where
  "Register E parsed check c = with_body E parsed check c (\<lambda>req.
     if \<not> validUsername (rs_Username req) then Done (HandleBadRequestError (encodes E) ''Username'' ''regex'' c)
     else case count_username E (rs_Username req) of
       None \<Rightarrow> Done (HandleInternalError (encodes E) ''users_public'' c)
     | Some existCount \<Rightarrow>
         if existCount \<noteq> 0 then Done (HandleInvalidRequestError (encodes E) ''Username'' ''exists'' c)
         else case count_email E (rs_Email req) of
           None \<Rightarrow> Done (HandleInternalError (encodes E) ''users'' c)
         | Some existCount \<Rightarrow>
             if existCount \<noteq> 0 then Done (HandleInvalidRequestError (encodes E) ''Email'' ''exists'' c)
             else register_new E req c)"

definition ResendVerification :: "'e account_env_scheme \<Rightarrow> string option \<Rightarrow> (string \<Rightarrow> (string \<times> string) list)
    \<Rightarrow> srv \<Rightarrow> (err \<times> srv) outcome" where
  "ResendVerification E parsed check c = with_body E parsed check c (\<lambda>email.
     let email = to_lower email in
     case redis_hget E (''verifying:'' @ email) ''code'' of
       RedisNil \<Rightarrow> Done (HandleBadRequestError (encodes E) ''Email'' ''invalid'' c)
     | RedisFails \<Rightarrow> Done (HandleInternalError (encodes E) ''get_verifying'' c)
     | Reply code \<Rightarrow> Done (OKResponse (encodes E) (SendVerifEmail E email code c)))"

subsection \<open>Verification\<close>

text \<open>A missing field of a Redis hash reads as the empty text.\<close>

definition field :: "(string \<rightharpoonup> string) \<Rightarrow> string \<Rightarrow> string" where
  "field res k = (case res k of None \<Rightarrow> '''' | Some v \<Rightarrow> v)"

definition VerifyEmail :: "'e account_env_scheme \<Rightarrow> verify_email_schema option
    \<Rightarrow> (verify_email_schema \<Rightarrow> (string \<times> string) list) \<Rightarrow> srv \<Rightarrow> (err \<times> srv) outcome" where
  "VerifyEmail E parsed check c = with_body E parsed check c (\<lambda>req.
     let email = to_lower (ve_Email req) in
     case redis_hgetall E (''verifying:'' @ email) of
       RedisNil \<Rightarrow> Done (HandleBadRequestError (encodes E) ''Email'' ''invalid'' c)
     | RedisFails \<Rightarrow> Done (HandleInternalError (encodes E) ''getall_verifying'' c)
     | Reply res \<Rightarrow>
         if field res ''code'' \<noteq> ve_Code req then Done (HandleInvalidRequestError (encodes E) ''Code'' ''invalid'' c)
         else let userID = time_uuid E; username = field res ''username'';
                  c1 = c\<lparr>commands := commands c @ [InsertUserPublic username userID]\<rparr>
              in case cas_applied E username of
                None \<Rightarrow> Done (HandleInternalError (encodes E) ''users_public'' c1)
              | Some applied \<Rightarrow>
                  if \<not> applied then Done (HandleBadRequestError (encodes E) ''Username'' ''exists'' c1)
                  else case exec (exec_ok E) (InsertUser email userID (field res ''passwordhash'') (now_ms E) username) c1 of (ok, c2) \<Rightarrow>
                  if \<not> ok then Done (HandleInternalError (encodes E) ''users'' c2)
                  else case exec (exec_ok E) (InsertUserPrivate userID username) c2 of (ok, c3) \<Rightarrow>
                  if \<not> ok then Done (HandleInternalError (encodes E) ''users_private'' c3)
                  else Done (OKResponse (encodes E) c3))"

subsection \<open>Login\<close>

definition Login :: "'e account_env_scheme \<Rightarrow> string \<Rightarrow> login_schema option \<Rightarrow> (login_schema \<Rightarrow> (string \<times> string) list)
    \<Rightarrow> srv \<Rightarrow> (err \<times> srv) outcome" where
  "Login E ip parsed check c = with_body E parsed check c (\<lambda>req.
     case user_by_email E (to_lower (ls_Email req)) of
       NotFound \<Rightarrow> Done (HandleInvalidRequestError (encodes E) ''Email'' ''invalid'' c)
     | QueryFails \<Rightarrow> Done (HandleInternalError (encodes E) ''users'' c)
     | Row user \<Rightarrow>
         and_then (DecryptRequestPasswordHash E (ls_EncPasswordHash req) c) (\<lambda>((password, err), c1).
           if password = [] then Done (err, c1)
           else if \<not> bcrypt_matches E (ur_password_hash user) password
           then Done (HandleInvalidRequestError (encodes E) ''Password'' ''invalid'' c1)
           else case RandomTokenString (rand E) 20 of
             None \<Rightarrow> Done (Some ''rand'', c1)
           | Some sessionID \<Rightarrow>
               (case GenerateAndRefreshTokens E ip (ur_user_id user) sessionID (ur_username user) c1 of (err, c2) \<Rightarrow>
                if err \<noteq> None then Done (err, c2)
                else Done (c_json (encodes E) (SessionBody sessionID) c2))))"

definition Test_handler :: "'e account_env_scheme \<Rightarrow> login_schema option \<Rightarrow> (login_schema \<Rightarrow> (string \<times> string) list)
    \<Rightarrow> srv \<Rightarrow> (err \<times> srv) outcome" where
  "Test_handler E parsed check c = with_body E parsed check c (\<lambda>req. Done (OKResponse (encodes E) c))"

subsection \<open>Reading users\<close>

definition UserByUsername :: "'e account_env_scheme \<Rightarrow> request \<Rightarrow> srv \<Rightarrow> err \<times> srv" where
  "UserByUsername E req c =
     (let username = query_arg req ''username'' in
      if username = [] \<or> length username > 30 then HandleInvalidRequestError (encodes E) ''Username'' ''invalid'' c
      else case public_user E username of
        NotFound \<Rightarrow> HandleInvalidRequestError (encodes E) ''Username'' ''invalid'' c
      | QueryFails \<Rightarrow> HandleInternalError (encodes E) ''users_public'' c
      | Row (name, userid, statement) \<Rightarrow> c_json (encodes E) (PublicUserBody name userid statement) c)"

definition Initialize :: "'e account_env_scheme \<Rightarrow> srv \<Rightarrow> (err \<times> srv) outcome" where
  "Initialize E c =
     and_then (local_string ''userid'' c) (\<lambda>userID.
       case private_user E userID of
         NotFound \<Rightarrow> Done (HandleInternalError (encodes E) ''users_private'' c)
       | QueryFails \<Rightarrow> Done (HandleInternalError (encodes E) ''users_private'' c)
       | Row (name, statement) \<Rightarrow>
           (case RelationsMapper E new_relations userID of
              None \<Rightarrow> Done (HandleInternalError (encodes E) ''user_relations'' c)
            | Some relations \<Rightarrow>
                Done (c_json (encodes E) (UserInfoBody userID name (case statement of None \<Rightarrow> '''' | Some s \<Rightarrow> s) relations) c)))"

end
