(* ===== verification/Accounts_Props.thy ===== *)
theory Accounts_Props imports Accounts Auth_Props Relations_Props begin

text \<open>
  When a session is handed out, what makes an account, and what a registration checks and stores.
\<close>

subsection \<open>Answers that are errors\<close>

text \<open>The helpers leave the body or replace it by an error.\<close>

definition error_or_same :: "srv \<Rightarrow> srv \<Rightarrow> bool" where
  "error_or_same c c' \<longleftrightarrow> body c' = body c \<or> (\<exists>r. body c' = Some (ErrorBody r))"

lemma error_or_same_helpers [simp]:
  "error_or_same c c" "error_or_same c (snd (HandleInternalError enc p c))"
  "error_or_same c (snd (HandleBadRequestError enc p d c))" "error_or_same c (snd (HandleInvalidRequestError enc p d c))"
  by (simp_all add: error_or_same_def http_helpers)

lemma error_or_same_pairs:
  "HandleInternalError enc p c = (e, c') \<Longrightarrow> error_or_same c c'"
  "HandleBadRequestError enc p d c = (e, c') \<Longrightarrow> error_or_same c c'"
  "HandleInvalidRequestError enc p d c = (e, c') \<Longrightarrow> error_or_same c c'"
  by (metis error_or_same_helpers snd_conv)+

lemma error_or_same_trans: "error_or_same a b \<Longrightarrow> error_or_same b c \<Longrightarrow> error_or_same a c"
  by (auto simp: error_or_same_def)

lemma decrypt_cases:
  assumes "\<And>p. P (Done (([], fst (HandleInternalError (encodes E) p c)), snd (HandleInternalError (encodes E) p c)))"
    and "\<And>p d. P (Done (([], fst (HandleBadRequestError (encodes E) p d c)), snd (HandleBadRequestError (encodes E) p d c)))"
    and "P (Panicked IndexOutOfRange)" and "\<And>pw. P (Done ((pw, None), c))"
  shows "P (DecryptRequestPasswordHash E enc c)"
  unfolding DecryptRequestPasswordHash_def Let_def by (simp add: case_prod_beta assms split: option.split)

lemma decrypt_body: "DecryptRequestPasswordHash E enc c = Done ((pw, err), c') \<Longrightarrow>
    error_or_same c c' \<and> (pw \<noteq> [] \<longrightarrow> c' = c \<and> err = None)"
  by (rule decrypt_cases [of "\<lambda>r. r = Done ((pw, err), c') \<longrightarrow> error_or_same c c' \<and> (pw \<noteq> [] \<longrightarrow> c' = c \<and> err = None)",
        THEN mp]) auto

lemma closure_body: "error_or_same c (snd (tokens_closure E ip u s n c))"
  unfolding tokens_closure_def Let_def
  by (cases "RandomTokenString (rand E) 40"; cases "sign_jwt E [(''id'', u), (''username'', n), (''session_id'', s)]
      ((now_nano E + 60 * 60 * 1000000000) div 1000000000)")
    (simp_all add: GenerateJWT_def case_prod_beta)

lemma tokens_body: "error_or_same c (snd (GenerateAndRefreshTokens E ip u s n c))"
proof -
  obtain r c1 where r: "tokens_closure E ip u s n c = (r, c1)" by fastforce
  then have "error_or_same c c1" using closure_body [of c E ip u s n] by simp
  then show ?thesis
    by (auto simp: GenerateAndRefreshTokens_def r Let_def error_or_same_def HandleInternalError_def c_json_def)
qed

subsection \<open>Login\<close>

lemma with_body_cases:
  assumes "with_body E parsed check c h = Done (err, c')" and "\<not> error_or_same c c'"
  obtains req where "parsed = Some req" "check req = []" "h req = Done (err, c')"
proof -
  have no: False if "snd p = c'" "error_or_same c (snd p)" for p :: "err \<times> srv" using that assms(2) by simp
  show ?thesis
    using assms(1) that no [of "HandleBadJsonError (encodes E) c"] no [of "HandleBadRequestError (encodes E) _ _ c"]
    by (auto simp: with_body_def HandleValidatorError_def HandleBadJsonError_def split: option.splits list.splits prod.splits)
      (metis error_or_same_helpers(3) snd_conv)+
qed

lemma with_body_Some: "check req = [] \<Longrightarrow> with_body E (Some req) check c h = h req"
  by (simp add: with_body_def)

lemma login_session:
  assumes login: "Login E ip parsed check c = Done (err, c')" and new: "\<not> error_or_same c c'"
  shows "\<exists>req user pw rnd. parsed = Some req \<and> check req = [] \<and> user_by_email E (to_lower (ls_Email req)) = Row user
    \<and> DecryptRequestPasswordHash E (ls_EncPasswordHash req) c = Done ((pw, None), c) \<and> pw \<noteq> []
    \<and> bcrypt_matches E (ur_password_hash user) pw \<and> rand E 20 = Some rnd
    \<and> c_json (encodes E) (SessionBody (hex_encode rnd))
        (snd (GenerateAndRefreshTokens E ip (ur_user_id user) (hex_encode rnd) (ur_username user) c)) = (err, c')"
proof -
  have no: False if "Done p = Done (err, c')" "error_or_same c (snd p)" for p using that new by simp
  from login obtain req where req: "parsed = Some req" "check req = []" and h:
    "(case user_by_email E (to_lower (ls_Email req)) of
       NotFound \<Rightarrow> Done (HandleInvalidRequestError (encodes E) ''Email'' ''invalid'' c)
     | QueryFails \<Rightarrow> Done (HandleInternalError (encodes E) ''users'' c)
     | Row user \<Rightarrow>
         and_then (DecryptRequestPasswordHash E (ls_EncPasswordHash req) c) (\<lambda>((password, err), c1).
           if password = [] then Done (err, c1)
           else if \<not> bcrypt_matches E (ur_password_hash user) password
           then Done (HandleInvalidRequestError (encodes E) ''Password'' ''invalid'' c1)
           else case RandomTokenString (rand E) 20 of
             None \<Rightarrow> Done (Some ''rand'', c1)
           | Some sessionID \<Rightarrow>
               (case GenerateAndRefreshTokens E ip (ur_user_id user) sessionID (ur_username user) c1 of (err, c2) \<Rightarrow>
                if err \<noteq> None then Done (err, c2)
                else Done (c_json (encodes E) (SessionBody sessionID) c2)))) = Done (err, c')"
    unfolding Login_def using new by (rule with_body_cases) simp
  obtain user where user: "user_by_email E (to_lower (ls_Email req)) = Row user"
    using h no by (cases "user_by_email E (to_lower (ls_Email req))") (auto dest: error_or_same_pairs)
  obtain pw e c1 where d: "DecryptRequestPasswordHash E (ls_EncPasswordHash req) c = Done ((pw, e), c1)"
    using h user by (cases "DecryptRequestPasswordHash E (ls_EncPasswordHash req) c") (auto simp: outcome_simps)
  have pw: "pw \<noteq> []" using h user d decrypt_body [OF d] no [of "(e, c1)"] by (auto simp: outcome_simps)
  with decrypt_body [OF d] have eq: "c1 = c" "e = None" by auto
  have match: "bcrypt_matches E (ur_password_hash user) pw"
    using h user d pw eq no by (auto simp: outcome_simps dest: error_or_same_pairs split: if_splits)
  obtain rnd where rnd: "rand E 20 = Some rnd"
    using h user d pw match eq no [of "(Some ''rand'', c)"] by (cases "rand E 20") (auto simp: outcome_simps RandomTokenString_def)
  obtain e2 c2 where t: "GenerateAndRefreshTokens E ip (ur_user_id user) (hex_encode rnd) (ur_username user) c = (e2, c2)"
    by fastforce
  have "e2 = None"
    using h user d pw match eq rnd t no [of "(e2, c2)"] tokens_body [of c E ip "ur_user_id user" "hex_encode rnd" "ur_username user"]
    by (auto simp: outcome_simps RandomTokenString_def split: if_splits)
  then have "c_json (encodes E) (SessionBody (hex_encode rnd)) c2 = (err, c')"
    using h user d pw match eq rnd t by (simp add: outcome_simps RandomTokenString_def)
  then show ?thesis using req user d eq pw match rnd t by auto
qed

text \<open>A password that was decrypted came with a time at most 60 seconds old.\<close>

definition fresh_password :: "'e auth_env_scheme \<Rightarrow> string \<Rightarrow> bool" where
  "fresh_password E enc \<longleftrightarrow> (\<exists>k0 k1 k2 n t. strings_split enc ''.'' = [k0, k1, k2] \<and> b64_decode E k2 = Some n
     \<and> parse_int (to_str n) = Some t \<and> now_nano E \<le> (t + 60000) * 1000000)"

lemma decrypt_fresh:
  assumes "DecryptRequestPasswordHash E enc c = Done ((pw, err), c')" and "pw \<noteq> []"
  shows "fresh_password E enc"
proof -
  obtain k0 k1 k2 where ks: "strings_split enc ''.'' = [k0, k1, k2]"
    using assms by (auto simp: DecryptRequestPasswordHash_def three_chunks Let_def case_prod_beta split: if_splits)
  obtain n t where "b64_decode E k2 = Some n" "parse_int (to_str n) = Some t" "\<not> (t + 60 * 1000) * 1000000 < now_nano E"
    using assms by (auto simp: DecryptRequestPasswordHash_def ks Let_def case_prod_beta split: option.splits if_splits)
  then show ?thesis using ks unfolding fresh_password_def by auto
qed

text \<open>C9: a session is given only for the right password. If \<open>Login\<close> answers with a session id, the request was
  complete, the lower-cased address has an account, the encrypted password was at most 60 seconds old and
  decrypted to something non-empty, bcrypt accepted it for that account, and the id is the hexadecimal
  form of 20 fresh random bytes: 40 characters.\<close>

theorem session_needs_password:
  assumes "Login E ip parsed check c = Done (err, c')" and "body c' = Some (SessionBody s)"
    and "body c = None" and "\<And>b. rand E 20 = Some b \<Longrightarrow> length b = 20"
  shows "\<exists>req user pw rnd. parsed = Some req \<and> check req = [] \<and> user_by_email E (to_lower (ls_Email req)) = Row user
    \<and> fresh_password E (ls_EncPasswordHash req) \<and> pw \<noteq> []
    \<and> DecryptRequestPasswordHash E (ls_EncPasswordHash req) c = Done ((pw, None), c)
    \<and> bcrypt_matches E (ur_password_hash user) pw \<and> rand E 20 = Some rnd \<and> s = hex_encode rnd \<and> length s = 40"
proof -
  have "\<not> error_or_same c c'" using assms(2,3) by (simp add: error_or_same_def)
  from login_session [OF assms(1) this] obtain req user pw rnd where
    found: "parsed = Some req" "check req = []" "user_by_email E (to_lower (ls_Email req)) = Row user"
      "DecryptRequestPasswordHash E (ls_EncPasswordHash req) c = Done ((pw, None), c)" "pw \<noteq> []"
      "bcrypt_matches E (ur_password_hash user) pw" "rand E 20 = Some rnd"
    and last: "c_json (encodes E) (SessionBody (hex_encode rnd))
        (snd (GenerateAndRefreshTokens E ip (ur_user_id user) (hex_encode rnd) (ur_username user) c)) = (err, c')"
    by blast
  have "s = hex_encode rnd"
    using last assms(2,3) tokens_body [of c E ip "ur_user_id user" "hex_encode rnd" "ur_username user"]
    by (auto simp: c_json_def error_or_same_def split: if_splits)
  moreover have "length (hex_encode rnd) = 40" using assms(4) [OF found(7)] by simp
  ultimately show ?thesis using found decrypt_fresh [OF found(4,5)] by blast
qed

definition demo_accounts :: account_env where
  "demo_accounts = server_env.extend (demo_server\<lparr>b64_decode := (\<lambda>t. Some (to_bytes t)), rsa_decrypt := (\<lambda>k. Some k),
      gcm_open := (\<lambda>_ _ p. Some p)\<rparr>)
     \<lparr>count_username = (\<lambda>_. Some 0), count_email = (\<lambda>_. Some 0), bcrypt_generate = (\<lambda>p. Some (to_str p)),
      bcrypt_matches = (\<lambda>h p. h = to_str p), redis_hget = (\<lambda>_ _. RedisNil), cas_applied = (\<lambda>_. Some True),
      user_by_email = (\<lambda>e. if e = ''ann@x'' then Row \<lparr>ur_user_id = ''a'', ur_password_hash = ''pw'', ur_username = ''ann''\<rparr> else NotFound),
      public_user = (\<lambda>_. NotFound), private_user = (\<lambda>_. NotFound), smtp = \<lparr>SMTP_Host = ''smtp'', SMTP_Port = 587,
      SMTP_User = ''u'', SMTP_Password = ''p''\<rparr>, smtp_send = (\<lambda>_ _ _ _ _. None), email_from = ''h@x''\<rparr>"

lemma demo_chunks: "strings_split ''k.pw.000000000005'' ''.'' = [''k'', ''pw'', ''000000000005'']" "parse_int ''000000000005'' = Some 5"
proof -
  show "strings_split ''k.pw.000000000005'' ''.'' = [''k'', ''pw'', ''000000000005'']" by (simp add: strings_split_def)
  show "parse_int ''000000000005'' = Some 5" by code_simp
qed

lemma demo_decrypt: "DecryptRequestPasswordHash demo_accounts ''k.pw.000000000005'' c = Done ((to_bytes ''pw'', None), c)"
  by (simp add: DecryptRequestPasswordHash_def demo_accounts_def server_env.extend_def demo_server_def demo_chunks Let_def
      del: to_bytes_simps)

definition demo_login :: login_schema where
  "demo_login = \<lparr>ls_Email = ''Ann@X'', ls_EncPasswordHash = ''k.pw.000000000005'', ls_DeviceToken = ''''\<rparr>"

lemma demo_lower: "to_lower ''Ann@X'' = ''ann@x''"
  by code_simp

theorem session_needs_password_witness:
  "\<exists>c' s. Login demo_accounts ''ip'' (Some demo_login) (\<lambda>_. []) new_srv = Done (None, c') \<and> body c' = Some (SessionBody s)
     \<and> fresh_password demo_accounts ''k.pw.000000000005'' \<and> length s = 40"
proof -
  have facts: "encodes demo_accounts r" "rand demo_accounts n = Some (replicate n 0)" "queue_ok demo_accounts n"
    "pipeline_ok demo_accounts" "bcrypt_matches demo_accounts h p = (h = to_str p)" for r n h p
    by (simp_all add: demo_accounts_def server_env.extend_def demo_server_def)
  have "user_by_email demo_accounts ''ann@x'' = Row \<lparr>ur_user_id = ''a'', ur_password_hash = ''pw'', ur_username = ''ann''\<rparr>"
    by (simp add: demo_accounts_def server_env.extend_def)
  moreover have "fst (GenerateAndRefreshTokens demo_accounts ip u s n new_srv) = None" for ip u s n
    using refresh_succeeds_or_is_silent [of demo_accounts "replicate 40 0" ip u s n new_srv] facts by auto
  ultimately obtain c' where login: "Login demo_accounts ''ip'' (Some demo_login) (\<lambda>_. []) new_srv = Done (None, c')"
    and body: "body c' = Some (SessionBody (hex_encode (replicate 20 0)))"
    by (simp add: Login_def with_body_def demo_login_def demo_lower demo_decrypt outcome_simps facts RandomTokenString_def
        c_json_def case_prod_beta)
  have "body new_srv = None" by (simp add: new_srv_def)
  moreover have "length b = 20" if "rand demo_accounts 20 = Some b" for b using that facts(2) [of 20] by auto
  ultimately show ?thesis using session_needs_password [OF login body] login body by (auto simp: demo_login_def)
qed

subsection \<open>Registration and verification\<close>

lemma verification_steps:
  assumes "check req = []" and "redis_hgetall E (''verifying:'' @ to_lower (ve_Email req)) = Reply res"
  shows "\<exists>err d' k. VerifyEmail E (Some req) check d = Done (err, d')
    \<and> commands d' = commands d @ take k [InsertUserPublic (field res ''username'') (time_uuid E),
        InsertUser (to_lower (ve_Email req)) (time_uuid E) (field res ''passwordhash'') (now_ms E) (field res ''username''),
        InsertUserPrivate (time_uuid E) (field res ''username'')]
    \<and> k = (if field res ''code'' \<noteq> ve_Code req then 0 else if cas_applied E (field res ''username'') \<noteq> Some True then 1
           else if \<not> exec_ok E (length (commands d) + 1) then 2 else 3)
    \<and> status d' = (if field res ''code'' \<noteq> ve_Code req then 202
        else case cas_applied E (field res ''username'') of None \<Rightarrow> 500 | Some False \<Rightarrow> 400
        | Some True \<Rightarrow> if exec_ok E (length (commands d) + 1) \<and> exec_ok E (length (commands d) + 2) then 200 else 500)"
proof -
  consider "field res ''code'' \<noteq> ve_Code req" | "field res ''code'' = ve_Code req" "cas_applied E (field res ''username'') = None"
    | "field res ''code'' = ve_Code req" "cas_applied E (field res ''username'') = Some False"
    | "field res ''code'' = ve_Code req" "cas_applied E (field res ''username'') = Some True"
    by (cases "cas_applied E (field res ''username'')") auto
  then show ?thesis
    by cases (use assms in \<open>simp_all add: VerifyEmail_def with_body_Some Let_def exec_def case_prod_beta http_helpers
      prod_eq_iff eval_nat_numeral split: option.split\<close>)
qed

text \<open>C32: what a verification makes of a registration. With a stored registration the three rows are inserted
  in the order public user, account, private user, each only when all before it succeeded, and none at all
  for a wrong code; the answer is 202 for a wrong code, 400 for a user name taken meanwhile, 500 for a
  failed statement and 200 when all three rows are in. A failure after the first row leaves the name
  taken by no account, so that repeating the verification answers 400.\<close>

theorem verification_exact:
  assumes "check req = []" and "redis_hgetall E (''verifying:'' @ to_lower (ve_Email req)) = Reply res"
  shows "\<exists>err c' k. VerifyEmail E (Some req) check c = Done (err, c')
    \<and> commands c' = commands c @ take k [InsertUserPublic (field res ''username'') (time_uuid E),
        InsertUser (to_lower (ve_Email req)) (time_uuid E) (field res ''passwordhash'') (now_ms E) (field res ''username''),
        InsertUserPrivate (time_uuid E) (field res ''username'')]
    \<and> k = (if field res ''code'' \<noteq> ve_Code req then 0 else if cas_applied E (field res ''username'') \<noteq> Some True then 1
           else if \<not> exec_ok E (length (commands c) + 1) then 2 else 3)
    \<and> status c' = (if field res ''code'' \<noteq> ve_Code req then 202
        else case cas_applied E (field res ''username'') of None \<Rightarrow> 500 | Some False \<Rightarrow> 400
        | Some True \<Rightarrow> if exec_ok E (length (commands c) + 1) \<and> exec_ok E (length (commands c) + 2) then 200 else 500)"
  using assms by (rule verification_steps)

text \<open>A registration whose checks pass, on working services.\<close>

definition registers :: "'e account_env_scheme \<Rightarrow> register_schema \<Rightarrow> bytes \<Rightarrow> string \<Rightarrow> bool" where
  "registers E req pw h \<longleftrightarrow> validUsername (rs_Username req) \<and> count_username E (rs_Username req) = Some 0
     \<and> count_email E (rs_Email req) = Some 0 \<and> pw \<noteq> [] \<and> bcrypt_generate E pw = Some h
     \<and> (\<forall>r. encodes E r) \<and> (\<forall>n. queue_ok E n) \<and> pipeline_ok E"

definition stored_registration :: "register_schema \<Rightarrow> string \<Rightarrow> string \<Rightarrow> (string \<times> string) list" where
  "stored_registration req code h = [(''code'', code), (''username'', rs_Username req), (''passwordhash'', h)]"

lemma register_works:
  assumes "registers E req pw h" and "check req = []" and "rand E 3 = Some rnd"
    and "DecryptRequestPasswordHash E (rs_EncPasswordHash req) c = Done ((pw, None), c)"
  shows "\<exists>c'. Register E (Some req) check c = Done (None, c') \<and> status c' = 200
    \<and> commands c' = commands c @ [HSet (''verifying:'' @ to_lower (rs_Email req)) (stored_registration req (to_upper (hex_encode rnd)) h),
        Expire (''verifying:'' @ to_lower (rs_Email req)) 86400000,
        SendMail (to_lower (rs_Email req)) (mail_text E (to_upper (hex_encode rnd)))]"
  using assms
  by (simp add: registers_def Register_def with_body_Some register_new_def RandomTokenString_def outcome_simps
      store_registration_def OKResponse_def c_json_def stored_registration_def Let_def)

text \<open>What Redis holds after some commands: \<open>HSET\<close> sets the given fields of a hash.\<close>

fun redis_after :: "command list \<Rightarrow> (string \<Rightarrow> string \<rightharpoonup> string) \<Rightarrow> string \<Rightarrow> string \<rightharpoonup> string" where
  "redis_after [] H = H"
| "redis_after (HSet k entries # cmds) H = redis_after cmds (H(k := H k ++ map_of entries))"
| "redis_after (_ # cmds) H = redis_after cmds H"

lemma stored_fields [simp]:
  "field (m ++ map_of (stored_registration req code h)) ''code'' = code"
  "field (m ++ map_of (stored_registration req code h)) ''username'' = rs_Username req"
  "field (m ++ map_of (stored_registration req code h)) ''passwordhash'' = h"
  by (simp_all add: field_def stored_registration_def)

text \<open>C11: a registration can be verified with the mailed code, from any spelling of the address. On working
  services a registration whose checks pass mails one code to the lower-cased address; while Redis holds
  what the registration stored, over whatever it held before, verifying with that code inserts the
  account with exactly that address, name and password hash. The address was found free in the spelling
  of the registration only: nothing is required of the lower-cased address, whose account, if there is
  one, is then overwritten.\<close>

theorem registration_can_be_verified:
  assumes "registers E req pw h" and "check req = []" and "rand E 3 = Some rnd"
    and "DecryptRequestPasswordHash E (rs_EncPasswordHash req) c = Done ((pw, None), c)" and "commands c = []"
  shows "\<exists>c' code. Register E (Some req) check c = Done (None, c')
    \<and> [x \<leftarrow> commands c'. case x of SendMail _ _ \<Rightarrow> True | _ \<Rightarrow> False] = [SendMail (to_lower (rs_Email req)) (mail_text E code)]
    \<and> (\<forall>E' H check' req' d. (\<forall>key. redis_hgetall E' key = Reply (redis_after (commands c') H key))
         \<and> (\<forall>n. exec_ok E' n) \<and> cas_applied E' (rs_Username req) = Some True
         \<and> check' req' = [] \<and> to_lower (ve_Email req') = to_lower (rs_Email req) \<and> ve_Code req' = code
         \<longrightarrow> (\<exists>err d'. VerifyEmail (E' :: 'f account_env_scheme) (Some req') check' d = Done (err, d') \<and> status d' = 200
               \<and> commands d' = commands d @ [InsertUserPublic (rs_Username req) (time_uuid E'),
                   InsertUser (to_lower (rs_Email req)) (time_uuid E') h (now_ms E') (rs_Username req),
                   InsertUserPrivate (time_uuid E') (rs_Username req)]))"
proof -
  let ?code = "to_upper (hex_encode rnd)"
  obtain c' where c': "Register E (Some req) check c = Done (None, c')" and
    cmds: "commands c' = [HSet (''verifying:'' @ to_lower (rs_Email req)) (stored_registration req ?code h),
        Expire (''verifying:'' @ to_lower (rs_Email req)) 86400000, SendMail (to_lower (rs_Email req)) (mail_text E ?code)]"
    using register_works [where check = check, OF assms(1-4)] assms(5) by auto
  have step: "\<exists>err d'. VerifyEmail E' (Some req') check' d = Done (err, d') \<and> status d' = 200
      \<and> commands d' = commands d @ [InsertUserPublic (rs_Username req) (time_uuid E'),
          InsertUser (to_lower (rs_Email req)) (time_uuid E') h (now_ms E') (rs_Username req),
          InsertUserPrivate (time_uuid E') (rs_Username req)]"
    if "\<forall>key. redis_hgetall E' key = Reply (redis_after (commands c') H key)" "\<forall>n. exec_ok E' n"
      "cas_applied E' (rs_Username req) = Some True" "check' req' = []"
      "to_lower (ve_Email req') = to_lower (rs_Email req)" "ve_Code req' = ?code"
    for E' :: "'f account_env_scheme" and H check' req' d
    using verification_steps [where check = check' and d = d, OF that(4), where E = E'] that by (auto simp: cmds)
  show ?thesis
  proof (intro exI [of _ c'] exI [of _ ?code] conjI allI impI)
    show "[x \<leftarrow> commands c'. case x of SendMail _ _ \<Rightarrow> True | _ \<Rightarrow> False] = [SendMail (to_lower (rs_Email req)) (mail_text E ?code)]"
      by (simp add: cmds)
  qed (rule c', elim conjE, rule step)
qed

lemma demo_registers: "registers demo_accounts \<lparr>rs_Username = ''bob'', rs_Email = ''B@X'', rs_EncPasswordHash = ''k.pw.000000000005''\<rparr>
    (to_bytes ''pw'') ''pw''"
proof -
  have "validUsername ''bob''" by code_simp
  then show ?thesis by (simp add: registers_def demo_accounts_def server_env.extend_def demo_server_def)
qed

definition demo_registration :: register_schema where
  "demo_registration = \<lparr>rs_Username = ''bob'', rs_Email = ''B@X'', rs_EncPasswordHash = ''k.pw.000000000005''\<rparr>"

theorem registration_can_be_verified_witness:
  "\<exists>c' code. Register demo_accounts (Some demo_registration) (\<lambda>_. []) new_srv = Done (None, c')
     \<and> (\<exists>err d'. VerifyEmail (demo_accounts\<lparr>redis_hgetall := (\<lambda>key. Reply (redis_after (commands c') (\<lambda>_ _. None) key))\<rparr>)
          (Some \<lparr>ve_Email = ''b@x'', ve_Code = code\<rparr>) (\<lambda>_. []) new_srv = Done (err, d') \<and> status d' = 200)"
proof -
  let ?E = "\<lambda>c'. demo_accounts\<lparr>redis_hgetall := (\<lambda>key. Reply (redis_after (commands c') (\<lambda>_ _. None) key))\<rparr>"
  have rand: "rand demo_accounts 3 = Some (replicate 3 0)" by (simp add: demo_accounts_def server_env.extend_def demo_server_def)
  have dec: "DecryptRequestPasswordHash demo_accounts (rs_EncPasswordHash demo_registration) new_srv = Done ((to_bytes ''pw'', None), new_srv)"
    unfolding demo_registration_def by (simp only: register_schema.simps demo_decrypt)
  have new: "commands new_srv = []" by (simp add: new_srv_def)
  have low: "to_lower ''b@x'' = to_lower (rs_Email demo_registration)" unfolding demo_registration_def by code_simp
  have env: "\<forall>n. exec_ok (?E c') n" "cas_applied (?E c') u = Some True" for c' u
    by (simp_all add: demo_accounts_def server_env.extend_def demo_server_def)
  note r = registration_can_be_verified [where 'f = unit and check = "\<lambda>_. []",
      OF demo_registers [folded demo_registration_def] refl rand dec new]
  from r show ?thesis
  proof (elim exE conjE, goal_cases)
    case (1 c' code)
    show ?case
      using 1(1) 1(3) [rule_format, of "?E c'" "\<lambda>_ _. None" "\<lambda>_. []" "\<lparr>ve_Email = ''b@x'', ve_Code = code\<rparr>" new_srv] env low
      by auto
  qed
qed

theorem verification_exact_witness:
  "\<exists>err c'. VerifyEmail (demo_accounts\<lparr>redis_hgetall := (\<lambda>_. Reply [''code'' \<mapsto> ''77''])\<rparr>)
     (Some \<lparr>ve_Email = ''b@x'', ve_Code = ''78''\<rparr>) (\<lambda>_. []) new_srv = Done (err, c') \<and> status c' = 202"
  using verification_exact [of "\<lambda>_. []" "\<lparr>ve_Email = ''b@x'', ve_Code = ''78''\<rparr>"
      "demo_accounts\<lparr>redis_hgetall := (\<lambda>_. Reply [''code'' \<mapsto> ''77''])\<rparr>" "[''code'' \<mapsto> ''77'']" new_srv]
  by (auto simp: field_def)

end
