(* ===== verification/Session_Tokens.thy ===== *)
theory Session_Tokens imports Accounts_Props begin

text \<open>
  From the login to the next request: what the client is told in the headers is what the middleware
  takes, whether or not the access token has expired meanwhile.
\<close>

subsection \<open>Numbers and bearer tokens\<close>

lemma digit_is_digit: "d < 10 \<Longrightarrow> is_digit (digit d)"
  by (simp add: is_digit_def of_char_digit)

lemma decimal_digits: "list_all is_digit (decimal n)"
proof (induction n rule: decimal.induct)
  case (1 n)
  then show ?case by (subst decimal.simps) (simp add: digit_is_digit)
qed

lemma not_digit: "\<not> is_digit CHR ''-''" "\<not> is_digit CHR ''+''"
  by (simp_all add: is_digit_def)

lemma parse_decimal:
  assumes "int n < 2 ^ 63"
  shows "parse_int (decimal n) = Some (int n)"
proof -
  obtain x xs where d: "decimal n = x # xs" by (cases "decimal n") auto
  then have "x \<noteq> CHR ''-'' \<and> x \<noteq> CHR ''+''" using decimal_digits [of n] not_digit by auto
  moreover have "undecimal (x # xs) = n" using d by (metis undecimal_decimal)
  ultimately show ?thesis using assms decimal_digits [of n] by (simp add: parse_int_def d)
qed

lemma parse_format_int:
  assumes "0 \<le> v" and "v < 2 ^ 63"
  shows "parse_int (format_int (word_of_int v)) = Some v"
proof -
  have "sint (word_of_int v :: 64 word) = v"
    using assms by (simp add: signed_of_int signed_take_bit_int_eq_self)
  then show ?thesis using assms parse_decimal [of "nat v"] by (simp add: format_int_def)
qed

lemma cut_None: "c \<in> set sep \<Longrightarrow> c \<notin> set s \<Longrightarrow> cut sep s = None"
proof (induction s)
  case (Cons x s)
  have "take (length sep) (x # s) \<noteq> sep" using Cons.prems by (metis in_set_takeD)
  then show ?case using Cons by simp
qed simp

lemma split_bearer:
  assumes "CHR '' '' \<notin> set tok"
  shows "strings_split (''Bearer '' @ tok) ''Bearer '' = ['''', tok]"
proof -
  have none: "cut ''Bearer '' tok = None" by (rule cut_None [of "CHR '' ''"]) (use assms in simp_all)
  then show ?thesis by (simp add: strings_split_def none)
qed

lemma redis_after_append: "redis_after (a @ b) H = redis_after b (redis_after a H)"
  by (induction a H rule: redis_after.induct) (simp_all del: fun_upd_apply)

subsection \<open>From the login to the next request\<close>

text \<open>What the headers of a login say, and a request that repeats them.\<close>

definition login_headers :: "string \<Rightarrow> int \<Rightarrow> string \<Rightarrow> (string \<times> string) list" where
  "login_headers t expire a = [(''x-refreshed'', ''true''), (''x-refresh-token'', t),
     (''x-refresh-token-expire'', format_int (word_of_int expire)), (''x-access-token'', a)]"

definition carries :: "request \<Rightarrow> string \<Rightarrow> (string \<times> string) list \<Rightarrow> bool" where
  "carries r s hs \<longleftrightarrow> header r ''x-session-id'' = s \<and> (\<forall>k\<in>{''x-refresh-token'', ''x-refresh-token-expire''}.
       Some (header r k) = map_of hs k)
     \<and> (\<exists>a. map_of hs ''x-access-token'' = Some a \<and> header r ''Authorization'' = ''Bearer '' @ a) \<and> header r ''x-refresh'' \<noteq> ''true''"

text \<open>The claims of an account's session, and a JWT library that reads them back from any token signed for
  them, whatever it says of the expiry.\<close>

definition session_claims :: "user_row \<Rightarrow> string \<Rightarrow> (string \<times> string) list" where
  "session_claims user s = [(''id'', ur_user_id user), (''username'', ur_username user), (''session_id'', s)]"

definition jwt_reads :: "'e auth_env_scheme \<Rightarrow> 'f auth_env_scheme \<Rightarrow> (string \<times> string) list \<Rightarrow> bool" where
  "jwt_reads E E' claims \<longleftrightarrow> (\<forall>x tok. sign_jwt E claims x = Some tok \<longrightarrow> tok \<noteq> [] \<and> CHR '' '' \<notin> set tok
     \<and> (\<exists>expired. jwt E' tok = TokenClaims expired (Some (map_of claims))))"

lemma tokens_made:
  assumes "\<And>r. encodes E r" and "pipeline_ok E" and "\<And>n. queue_ok E n" and "rand E 40 = Some rt"
    and "sign_jwt E [(''id'', u), (''username'', n), (''session_id'', s)] ((now_nano E + 3600000000000) div 1000000000) = Some tok"
    and "tok \<noteq> []"
  shows "\<exists>c'. GenerateAndRefreshTokens E ip u s n c = (None, c') \<and> body c' = body c \<and> status c' = status c
    \<and> commands c' = commands c @ [HSet (''refreshtokens:'' @ s) [(''token'', hex_encode rt), (''userid'', u), (''ip'', ip)],
        ExpireAt (''refreshtokens:'' @ s) (now_ms E + RefreshTokenDuration)]
    \<and> resp_headers c' = resp_headers c @ login_headers (hex_encode rt) (now_ms E + RefreshTokenDuration) tok"
  using assms
  by (simp add: GenerateAndRefreshTokens_def tokens_closure_def GenerateJWT_def RandomTokenString_def
      RefreshTokenDuration_def login_headers_def Let_def)

lemma authorized_passes:
  assumes "jwt E tok = TokenClaims expired (Some (map_of [(''id'', u), (''username'', n), (''session_id'', s)]))"
    and "bearer_token r = Some tok" and "header r ''x-session-id'' = s" and "s \<noteq> []" and "header r ''x-refresh-token'' \<noteq> []"
    and "parse_int (header r ''x-refresh-token-expire'') = Some x" and "now_nano E \<le> x * 1000000"
    and "header r ''x-refresh'' \<noteq> ''true''"
    and "redis_hgetall E (''refreshtokens:'' @ s) = Reply res" and "res ''userid'' = Some u"
  shows "\<exists>d'. Authenticate E r d = Done (None, d') \<and> passed d' \<and> commands d' = commands d
    \<and> locals d' = (locals d)(''userid'' \<mapsto> u, ''username'' \<mapsto> n, ''sessionid'' \<mapsto> s)"
proof -
  obtain x0 where split: "strings_split (header r ''Authorization'') ''Bearer '' = [x0, tok]"
    using assms(2) by (auto simp: bearer_token_def split: list.splits)
  show ?thesis
    using assms by (simp add: Authenticate_def Let_def split ParseJWT_def authorize_def set_locals_def)
qed

text \<open>Services on which a login can be completed.\<close>

definition login_works :: "'e account_env_scheme \<Rightarrow> bool" where
  "login_works E \<longleftrightarrow> (\<forall>r. encodes E r) \<and> pipeline_ok E \<and> (\<forall>n. queue_ok E n) \<and> (\<forall>n. \<exists>b. rand E n = Some b \<and> length b = n)
     \<and> (\<forall>claims x. \<exists>tok. sign_jwt E claims x = Some tok) \<and> 0 \<le> now_ms E + RefreshTokenDuration
     \<and> now_ms E + RefreshTokenDuration < 2 ^ 63"

lemma login_result:
  assumes "login_works E" and "Login E ip parsed check c = Done (err, c')" and "body c' = Some (SessionBody s)" and "body c = None"
    and "resp_headers c = []"
  shows "\<exists>req user tok rt. parsed = Some req \<and> user_by_email E (to_lower (ls_Email req)) = Row user \<and> err = None \<and> length s = 40
    \<and> (\<exists>x. sign_jwt E [(''id'', ur_user_id user), (''username'', ur_username user), (''session_id'', s)] x = Some tok)
    \<and> (tok \<noteq> [] \<longrightarrow> rt \<noteq> [] \<and> resp_headers c' = login_headers rt (now_ms E + RefreshTokenDuration) tok
        \<and> commands c' = commands c @ [HSet (''refreshtokens:'' @ s) [(''token'', rt), (''userid'', ur_user_id user), (''ip'', ip)],
            ExpireAt (''refreshtokens:'' @ s) (now_ms E + RefreshTokenDuration)])"
proof -
  have "\<not> error_or_same c c'" using assms(3,4) by (simp add: error_or_same_def)
  from login_session [OF assms(2) this] obtain req user rnd where req: "parsed = Some req"
    and user: "user_by_email E (to_lower (ls_Email req)) = Row user" and rnd: "rand E 20 = Some rnd"
    and last: "c_json (encodes E) (SessionBody (hex_encode rnd))
        (snd (GenerateAndRefreshTokens E ip (ur_user_id user) (hex_encode rnd) (ur_username user) c)) = (err, c')" by blast
  have s: "s = hex_encode rnd" and err: "err = None"
    using last assms(1,3,4) by (auto simp: c_json_def login_works_def)
  obtain rt where rt: "rand E 40 = Some rt" "length rt = 40" using assms(1) unfolding login_works_def by blast
  have len: "length s = 40" using assms(1) rnd s unfolding login_works_def by (metis length_hex_encode mult_2 numeral_Bit0 option.inject)
  obtain tok where tok: "sign_jwt E [(''id'', ur_user_id user), (''username'', ur_username user), (''session_id'', s)]
      ((now_nano E + 3600000000000) div 1000000000) = Some tok" using assms(1) unfolding login_works_def by blast
  have "resp_headers c' = login_headers (hex_encode rt) (now_ms E + RefreshTokenDuration) tok
      \<and> commands c' = commands c @ [HSet (''refreshtokens:'' @ s) [(''token'', hex_encode rt), (''userid'', ur_user_id user), (''ip'', ip)],
          ExpireAt (''refreshtokens:'' @ s) (now_ms E + RefreshTokenDuration)]" if "tok \<noteq> []"
    using tokens_made [of E rt "ur_user_id user" "ur_username user" s tok ip c] that assms(1,5) rt tok last
    by (auto simp: login_works_def c_json_def s)
  moreover have "hex_encode rt \<noteq> []" using rt(2) by (metis length_hex_encode length_0_conv mult_eq_0_iff zero_neq_numeral)
  ultimately show ?thesis using req user err len tok by blast
qed

lemma login_lets_through:
  assumes "login_works E" and "Login E ip parsed check c = Done (err, c')" and "body c' = Some (SessionBody s)" and "body c = None"
    and "resp_headers c = []" and "\<And>req user. parsed = Some req \<Longrightarrow> user_by_email E (to_lower (ls_Email req)) = Row user \<Longrightarrow> jwt_reads E E' (session_claims user s)"
    and "carries r s (resp_headers c')"
    and "\<And>key. redis_hgetall E' key = Reply (redis_after (commands c') H key)"
    and "now_nano E' \<le> (now_ms E + RefreshTokenDuration) * 1000000"
  shows "\<exists>req user d'. parsed = Some req \<and> user_by_email E (to_lower (ls_Email req)) = Row user
    \<and> Authenticate E' r d = Done (None, d') \<and> passed d' \<and> commands d' = commands d
    \<and> locals d' = (locals d)(''userid'' \<mapsto> ur_user_id user, ''username'' \<mapsto> ur_username user, ''sessionid'' \<mapsto> s)"
proof -
  obtain req user tok rt x where req: "parsed = Some req" and user: "user_by_email E (to_lower (ls_Email req)) = Row user"
    and len: "length s = 40"
    and sign: "sign_jwt E [(''id'', ur_user_id user), (''username'', ur_username user), (''session_id'', s)] x = Some tok"
    and made: "tok \<noteq> [] \<longrightarrow> rt \<noteq> [] \<and> resp_headers c' = login_headers rt (now_ms E + RefreshTokenDuration) tok
        \<and> commands c' = commands c @ [HSet (''refreshtokens:'' @ s) [(''token'', rt), (''userid'', ur_user_id user), (''ip'', ip)],
            ExpireAt (''refreshtokens:'' @ s) (now_ms E + RefreshTokenDuration)]"
    using login_result [OF assms(1-5)] by blast
  obtain expired where tok: "tok \<noteq> []" "CHR '' '' \<notin> set tok" and jwt: "jwt E' tok = TokenClaims expired
      (Some (map_of [(''id'', ur_user_id user), (''username'', ur_username user), (''session_id'', s)]))"
    using assms(6) [OF req user] sign unfolding jwt_reads_def session_claims_def by blast
  from made tok(1) have heads: "resp_headers c' = login_headers rt (now_ms E + RefreshTokenDuration) tok" and rt: "rt \<noteq> []"
    and cmds: "commands c' = commands c @ [HSet (''refreshtokens:'' @ s) [(''token'', rt), (''userid'', ur_user_id user), (''ip'', ip)],
        ExpireAt (''refreshtokens:'' @ s) (now_ms E + RefreshTokenDuration)]" by auto
  have hdr: "header r ''x-session-id'' = s" "header r ''x-refresh-token'' = rt" "header r ''Authorization'' = ''Bearer '' @ tok"
    "header r ''x-refresh-token-expire'' = format_int (word_of_int (now_ms E + RefreshTokenDuration))" "header r ''x-refresh'' \<noteq> ''true''"
    using assms(7) by (auto simp: carries_def heads login_headers_def)
  have bearer: "bearer_token r = Some tok" using split_bearer [OF tok(2)] by (simp add: bearer_token_def hdr(3))
  have expire: "parse_int (header r ''x-refresh-token-expire'') = Some (now_ms E + RefreshTokenDuration)"
    unfolding hdr(4) using assms(1) by (intro parse_format_int) (auto simp: login_works_def)
  obtain res where res: "redis_hgetall E' (''refreshtokens:'' @ s) = Reply res" "res ''userid'' = Some (ur_user_id user)"
    using assms(8) [of "''refreshtokens:'' @ s"] by (simp add: cmds redis_after_append)
  have "s \<noteq> []" using len by auto
  from authorized_passes [OF jwt bearer hdr(1) this _ expire assms(9) hdr(5) res] rt hdr(2) req user show ?thesis by auto
qed

text \<open>C12: a login opens its session. When a login answers with a session id, on services that complete it, then
  for 60 days each request that repeats this id and the headers of the answer is let through as the user
  of the account, under the account's name and this session, for as long as Redis holds what the login
  stored, and with the access token expired or not; letting it through issues no command.\<close>

theorem login_opens_session:
  assumes "login_works E" and "Login E ip parsed check c = Done (err, c')" and "body c' = Some (SessionBody s)" and "body c = None"
    and "resp_headers c = []" and "\<And>req user. parsed = Some req \<Longrightarrow> user_by_email E (to_lower (ls_Email req)) = Row user \<Longrightarrow> jwt_reads E E' (session_claims user s)"
    and "carries r s (resp_headers c')"
    and "\<And>key. redis_hgetall E' key = Reply (redis_after (commands c') H key)"
    and "now_nano E' \<le> (now_ms E + RefreshTokenDuration) * 1000000"
  shows "\<exists>req user d'. parsed = Some req \<and> user_by_email E (to_lower (ls_Email req)) = Row user
    \<and> Authenticate E' r d = Done (None, d') \<and> passed d' \<and> commands d' = commands d
    \<and> locals d' = (locals d)(''userid'' \<mapsto> ur_user_id user, ''username'' \<mapsto> ur_username user, ''sessionid'' \<mapsto> s)"
  using assms by (rule login_lets_through)

definition token_accounts :: account_env where
  "token_accounts = demo_accounts\<lparr>sign_jwt := (\<lambda>_ _. Some ''tok'')\<rparr>"

definition token_server :: "command list \<Rightarrow> account_env" where
  "token_server cmds = demo_accounts\<lparr>jwt := (\<lambda>_. TokenClaims True (Some (map_of [(''id'', ''a''), (''username'', ''ann''),
      (''session_id'', hex_encode (replicate 20 0))]))), redis_hgetall := (\<lambda>key. Reply (redis_after cmds (\<lambda>_ _. None) key))\<rparr>"

definition token_request :: "string \<Rightarrow> (string \<times> string) list \<Rightarrow> request" where
  "token_request s hs = \<lparr>header = (\<lambda>k. if k = ''x-session-id'' then s else if k = ''Authorization'' then ''Bearer tok''
      else if k = ''x-refresh'' then '''' else (case map_of hs k of None \<Rightarrow> '''' | Some v \<Rightarrow> v)),
     path_param = (\<lambda>_. ''''), query_arg = (\<lambda>_. ''''), client_ip = ''ip''\<rparr>"

lemma token_accounts_simps:
  "login_works token_accounts" "user_by_email token_accounts = user_by_email demo_accounts"
  "sign_jwt token_accounts cl x = Some ''tok''"
  by (simp_all add: token_accounts_def login_works_def demo_accounts_def server_env.extend_def demo_server_def now_ms_def
      RefreshTokenDuration_def)

theorem login_opens_session_witness:
  "\<exists>c' s d'. Login token_accounts ''ip'' (Some demo_login) (\<lambda>_. []) new_srv = Done (None, c') \<and> body c' = Some (SessionBody s)
     \<and> Authenticate (token_server (commands c')) (token_request s (resp_headers c')) new_srv = Done (None, d') \<and> passed d'
     \<and> locals d' ''userid'' = Some ''a''"
proof -
  have facts: "encodes token_accounts r" "rand token_accounts n = Some (replicate n 0)" "queue_ok token_accounts n"
    "pipeline_ok token_accounts" "bcrypt_matches token_accounts h p = (h = to_str p)" for r n h p
    by (simp_all add: token_accounts_def demo_accounts_def server_env.extend_def demo_server_def)
  have row: "user_by_email token_accounts ''ann@x'' = Row \<lparr>ur_user_id = ''a'', ur_password_hash = ''pw'', ur_username = ''ann''\<rparr>"
    by (simp add: token_accounts_def demo_accounts_def server_env.extend_def)
  have dec: "DecryptRequestPasswordHash token_accounts ''k.pw.000000000005'' c = Done ((to_bytes ''pw'', None), c)" for c
    by (simp add: DecryptRequestPasswordHash_def token_accounts_def demo_accounts_def server_env.extend_def demo_server_def
        demo_chunks Let_def del: to_bytes_simps)
  let ?s = "hex_encode (replicate 20 0)"
  obtain c1 where c1: "GenerateAndRefreshTokens token_accounts ''ip'' ''a'' ?s ''ann'' new_srv = (None, c1)"
    and heads: "resp_headers c1 = login_headers (hex_encode (replicate 40 0)) (now_ms token_accounts + RefreshTokenDuration) ''tok''"
    using tokens_made [of token_accounts "replicate 40 0" "''a''" "''ann''" ?s "''tok''" "''ip''" new_srv] facts
    by (auto simp: token_accounts_simps new_srv_def)
  let ?c = "c1\<lparr>body := Some (SessionBody ?s)\<rparr>"
  have login: "Login token_accounts ''ip'' (Some demo_login) (\<lambda>_. []) new_srv = Done (None, ?c)"
    by (simp add: Login_def with_body_def demo_login_def demo_lower dec row outcome_simps facts RandomTokenString_def c1 c_json_def)
  have "jwt_reads token_accounts (token_server (commands ?c)) (session_claims user ?s)"
    if "Some demo_login = Some req" "user_by_email token_accounts (to_lower (ls_Email req)) = Row user" for req user
    using that row by (auto simp: jwt_reads_def token_accounts_simps session_claims_def token_server_def demo_login_def demo_lower)
  moreover have "carries (token_request ?s (resp_headers ?c)) ?s (resp_headers ?c)"
    by (simp add: carries_def token_request_def heads login_headers_def)
  moreover have "redis_hgetall (token_server (commands ?c)) key = Reply (redis_after (commands ?c) (\<lambda>_ _. None) key)" for key
    by (simp add: token_server_def)
  moreover have "now_nano (token_server (commands ?c)) \<le> (now_ms token_accounts + RefreshTokenDuration) * 1000000"
    by (simp add: token_server_def token_accounts_def demo_accounts_def server_env.extend_def demo_server_def now_ms_def RefreshTokenDuration_def)
  ultimately obtain req user d' where "Some demo_login = Some req" "user_by_email token_accounts (to_lower (ls_Email req)) = Row user"
    "Authenticate (token_server (commands ?c)) (token_request ?s (resp_headers ?c)) new_srv = Done (None, d')" "passed d'"
    "locals d' = (locals new_srv)(''userid'' \<mapsto> ur_user_id user, ''username'' \<mapsto> ur_username user, ''sessionid'' \<mapsto> ?s)"
    using login_opens_session [OF token_accounts_simps(1) login, of ?s "token_server (commands ?c)" "token_request ?s (resp_headers ?c)"
        "\<lambda>_ _. None" new_srv] by (auto simp: new_srv_def)
  then show ?thesis using login row by (intro exI [of _ ?c] exI [of _ ?s] exI [of _ d']) (auto simp: demo_login_def demo_lower)
qed

end
