(* ===== verification/Database.thy ===== *)
theory Database imports Relations_Props Accounts Chains begin

text \<open>
  The tables of accounts, relations and chain members as a state that the commands of the requests
  change, and what it means that a command was carried out, refused or failed. A failed statement may or
  may not have been carried out: the database only did not answer.
\<close>

subsection \<open>The tables\<close>

record db =
  users :: "string \<rightharpoonup> user_row"
  users_public :: "string \<rightharpoonup> uuid"
  users_private :: "uuid \<rightharpoonup> string"
  relations :: relation_table
  chain_users :: "uuid \<Rightarrow> uuid list"

definition empty_db :: db where
  "empty_db = \<lparr>users = Map.empty, users_public = Map.empty, users_private = Map.empty, relations = empty_relations,
     chain_users = (\<lambda>_. [])\<rparr>"

text \<open>What a command makes of the tables; \<open>None\<close> when the driver cannot bind it, because a text given for a
  UUID does not parse. Commands for other tables and services change nothing here.\<close>

fun apply_command :: "(string \<Rightarrow> uuid option) \<Rightarrow> command \<Rightarrow> db \<Rightarrow> db option" where
  "apply_command parse (UpdateRelation u x y) d =
     (case (parse x, parse y) of
        (Some a, Some b) \<Rightarrow> Some (d\<lparr>relations := (relations d)((a, b) := update_relation u (relations d (a, b)))\<rparr>)
      | _ \<Rightarrow> None)"
| "apply_command parse (UpdateLastSeenIf x ch t) d = None"
| "apply_command parse (InsertChainUsers ch us t) d =
     (case those (map parse us) of
        None \<Rightarrow> None
      | Some ids \<Rightarrow> Some (d\<lparr>chain_users := (chain_users d)(ch := fold List.insert ids (chain_users d ch))\<rparr>))"
| "apply_command parse (InsertUserPublic name uid) d =
     Some (if name \<in> dom (users_public d) then d else d\<lparr>users_public := (users_public d)(name \<mapsto> uid)\<rparr>)"
| "apply_command parse (InsertUser email uid hash t name) d =
     Some (d\<lparr>users := (users d)(email \<mapsto> \<lparr>ur_user_id = uid, ur_password_hash = hash, ur_username = name\<rparr>)\<rparr>)"
| "apply_command parse (InsertUserPrivate uid name) d = Some (d\<lparr>users_private := (users_private d)(uid \<mapsto> name)\<rparr>)"
| "apply_command parse _ d = Some d"

text \<open>A command with what its request was told of it: carried out (for the conditional insertion: applied),
  not applied, or an error.\<close>

type_synonym told_command = "command \<times> bool option"

inductive takes_effect :: "(string \<Rightarrow> uuid option) \<Rightarrow> told_command \<Rightarrow> db \<Rightarrow> db \<Rightarrow> bool" for parse where
  carried_out: "apply_command parse cmd d = Some d' \<Longrightarrow> (\<And>name uid. cmd = InsertUserPublic name uid \<Longrightarrow> users_public d name = None)
    \<Longrightarrow> takes_effect parse (cmd, Some True) d d'"
| not_applied: "users_public d name = Some other \<Longrightarrow> takes_effect parse (InsertUserPublic name uid, Some False) d d"
| lost: "takes_effect parse (cmd, None) d d"
| unanswered: "apply_command parse cmd d = Some d' \<Longrightarrow> takes_effect parse (cmd, None) d d'"

inductive_cases takes_effectE: "takes_effect parse (cmd, t) d d'"

lemma takes_effect_apply: "takes_effect parse (cmd, t) d d' \<Longrightarrow> d' = d \<or> apply_command parse cmd d = Some d'"
  by (auto elim: takes_effectE)

subsection \<open>What a single command changes\<close>

lemma apply_accounts:
  assumes "apply_command parse cmd d = Some d'"
  shows "users d' = (case cmd of InsertUser e u h t n \<Rightarrow> (users d)(e \<mapsto> \<lparr>ur_user_id = u, ur_password_hash = h, ur_username = n\<rparr>)
      | _ \<Rightarrow> users d)"
    and "users_private d' = (case cmd of InsertUserPrivate u n \<Rightarrow> (users_private d)(u \<mapsto> n) | _ \<Rightarrow> users_private d)"
    and "users_public d' = (case cmd of InsertUserPublic n u \<Rightarrow>
      (if n \<in> dom (users_public d) then users_public d else (users_public d)(n \<mapsto> u)) | _ \<Rightarrow> users_public d)"
  using assms by (cases cmd; auto split: option.splits)+

lemma apply_chains:
  assumes "apply_command parse cmd d = Some d'"
  shows "chain_users d' = (case cmd of InsertChainUsers ch us t \<Rightarrow>
      (chain_users d)(ch := fold List.insert (the (those (map parse us))) (chain_users d ch)) | _ \<Rightarrow> chain_users d)"
  using assms by (cases cmd; auto split: option.splits)

lemma fold_insert_set: "set (fold List.insert xs ys) = set xs \<union> set ys"
  by (induction xs arbitrary: ys) auto

lemma fold_insert_distinct: "distinct ys \<Longrightarrow> distinct (fold List.insert xs ys)"
  by (induction xs arbitrary: ys) auto

text \<open>Every user is entered into a chain once.\<close>

interpretation members: command_store "apply_command parse" "\<lambda>d. \<forall>ch. distinct (chain_users d ch)" for parse
proof unfold_locales
  fix d cmd d'
  assume dist: "\<forall>ch. distinct (chain_users d ch)" and app: "apply_command parse cmd d = Some d'"
  from apply_chains [OF app] show "\<forall>ch. distinct (chain_users d' ch)"
    using dist by (cases cmd) (auto simp: fold_insert_distinct)
qed

end
