(* ===== verification/Account_Life.thy ===== *)
theory Account_Life imports Session_Tokens Database begin

text \<open>
  The life of an account through the tables: what a registration keeps and mails, a verification makes of
  it, the tables hold afterwards, a login finds there, and the first requests of the session show.
\<close>

text \<open>The query for an account by its address finds the row of the table.\<close>

definition reads_accounts :: "'e account_env_scheme \<Rightarrow> db \<Rightarrow> bool" where
  "reads_accounts E d \<longleftrightarrow> (\<forall>e. user_by_email E e = (case users d e of None \<Rightarrow> NotFound | Some row \<Rightarrow> Row row))"

lemma mail_text_code: "mail_text E x = mail_text E y \<longleftrightarrow> x = y"
  by (simp add: mail_text_def)

subsection \<open>Logging in\<close>

lemma login_completes:
  assumes "login_works E" and "check req = []" and "user_by_email E (to_lower (ls_Email req)) = Row user"
    and "DecryptRequestPasswordHash E (ls_EncPasswordHash req) c = Done ((pw, None), c)" and "pw \<noteq> []"
    and "bcrypt_matches E (ur_password_hash user) pw"
    and "\<And>b x tok. rand E 20 = Some b \<Longrightarrow> sign_jwt E (session_claims user (hex_encode b)) x = Some tok \<Longrightarrow> tok \<noteq> []"
  shows "\<exists>c' b. Login E ip (Some req) check c = Done (None, c') \<and> rand E 20 = Some b \<and> body c' = Some (SessionBody (hex_encode b))"
proof -
  obtain b20 b40 where b: "rand E 20 = Some b20" "rand E 40 = Some b40" using assms(1) unfolding login_works_def by blast
  let ?s = "hex_encode b20"
  obtain tok where tok: "sign_jwt E [(''id'', ur_user_id user), (''username'', ur_username user), (''session_id'', ?s)]
      ((now_nano E + 3600000000000) div 1000000000) = Some tok" using assms(1) unfolding login_works_def by blast
  then have "tok \<noteq> []" using assms(7) [OF b(1)] unfolding session_claims_def by blast
  with tokens_made [of E b40 "ur_user_id user" "ur_username user" ?s tok ip c] assms(1) b(2) tok
  obtain c1 where c1: "GenerateAndRefreshTokens E ip (ur_user_id user) ?s (ur_username user) c = (None, c1)"
    by (auto simp: login_works_def)
  have "encodes E r" for r using assms(1) by (simp add: login_works_def)
  with assms b(1) c1 have "Login E ip (Some req) check c = Done (None, c1\<lparr>body := Some (SessionBody ?s)\<rparr>)"
    by (simp add: Login_def with_body_Some outcome_simps RandomTokenString_def c_json_def)
  then show ?thesis using b(1) by auto
qed

text \<open>C13: an account lives. A registration whose checks pass, verified with the mailed code under any spelling
  of its address while its name is free, puts the account into the tables; a login that reads them, under
  any spelling and with the registered password, gives a session; and for 60 days each request that
  repeats the session's id and headers is let through as the new user under the registered name, for as
  long as Redis holds what the login stored. What is assumed of bcrypt is that it accepts the password it
  hashed, and of the JWT library that it reads back what it signed.\<close>

theorem account_lives:
  assumes "registers E1 req pw h" and "check1 req = []" and "rand E1 3 = Some rnd"
    and "DecryptRequestPasswordHash E1 (rs_EncPasswordHash req) c1 = Done ((pw, None), c1)" and "commands c1 = []"
    and "Register E1 (Some req) check1 c1 = Done (err1, c1')"
    and "SendMail (to_lower (rs_Email req)) (mail_text E1 (ve_Code vreq)) \<in> set (commands c1')"
    and "\<And>key. redis_hgetall E2 key = Reply (redis_after (commands c1') H key)" and "\<And>n. exec_ok E2 n" and "check2 vreq = []"
    and "to_lower (ve_Email vreq) = to_lower (rs_Email req)" and "users_public d (rs_Username req) = None"
    and "cas_applied E2 (rs_Username req) = Some True" and "commands c2 = []"
    and "VerifyEmail E2 (Some vreq) check2 c2 = Done (err2, c2')" and "run_all (apply_command parse) (commands c2') d = Some d'"
    and "login_works E3" and "reads_accounts E3 d'" and "check3 lreq = []" and "to_lower (ls_Email lreq) = to_lower (rs_Email req)"
    and "DecryptRequestPasswordHash E3 (ls_EncPasswordHash lreq) c3 = Done ((pw, None), c3)" and "bcrypt_matches E3 h pw"
    and "body c3 = None" and "resp_headers c3 = []" 
    and "\<And>b. rand E3 20 = Some b \<Longrightarrow> jwt_reads E3 E4 (session_claims
      \<lparr>ur_user_id = time_uuid E2, ur_password_hash = h, ur_username = rs_Username req\<rparr> (hex_encode b))"
  shows "\<exists>c3' s. Login E3 ip (Some lreq) check3 c3 = Done (None, c3') \<and> body c3' = Some (SessionBody s)
    \<and> (\<forall>r H' q. carries r s (resp_headers c3') \<and> (\<forall>key. redis_hgetall E4 key = Reply (redis_after (commands c3') H' key))
        \<and> now_nano E4 \<le> (now_ms E3 + RefreshTokenDuration) * 1000000
        \<longrightarrow> (\<exists>q'. Authenticate E4 r q = Done (None, q') \<and> passed q' \<and> commands q' = commands q
              \<and> locals q' = (locals q)(''userid'' \<mapsto> time_uuid E2, ''username'' \<mapsto> rs_Username req, ''sessionid'' \<mapsto> s)))"
proof -
  let ?email = "to_lower (rs_Email req)"
  let ?code = "to_upper (hex_encode rnd)"
  let ?user = "\<lparr>ur_user_id = time_uuid E2, ur_password_hash = h, ur_username = rs_Username req\<rparr>"
  have cmds1: "commands c1' = [HSet (''verifying:'' @ ?email) (stored_registration req ?code h),
      Expire (''verifying:'' @ ?email) 86400000, SendMail ?email (mail_text E1 ?code)]"
    using register_works [where check = check1, OF assms(1-4)] assms(5,6) by auto
  then have code: "ve_Code vreq = ?code" using assms(7) by (auto simp: mail_text_code)
  have "commands c2' = [InsertUserPublic (rs_Username req) (time_uuid E2),
      InsertUser ?email (time_uuid E2) h (now_ms E2) (rs_Username req), InsertUserPrivate (time_uuid E2) (rs_Username req)]"
    using verification_steps [where check = check2 and d = c2, OF assms(10), where E = E2] assms(8,9,11,13-15) code
    by (auto simp: cmds1)
  then have "users d' ?email = Some ?user" using assms(12,16) by (auto simp: split: if_splits)
  then have found: "user_by_email E3 (to_lower (ls_Email lreq)) = Row ?user" using assms(18,20) by (simp add: reads_accounts_def)
  have pw: "pw \<noteq> []" using assms(1) by (simp add: registers_def)
  have match: "bcrypt_matches E3 (ur_password_hash ?user) pw" using assms(22) by simp
  have tok: "tok \<noteq> []" if "rand E3 20 = Some b" "sign_jwt E3 (session_claims ?user (hex_encode b)) x = Some tok" for b x tok
    using assms(25) [OF that(1)] that(2) unfolding jwt_reads_def by blast
  have "\<exists>c' b. Login E3 ip (Some lreq) check3 c3 = Done (None, c') \<and> rand E3 20 = Some b \<and> body c' = Some (SessionBody (hex_encode b))"
    by (rule login_completes [where check = check3, OF assms(17,19) found assms(21) pw match]) (rule tok)
  then obtain c3' b where login: "Login E3 ip (Some lreq) check3 c3 = Done (None, c3')" and b: "rand E3 20 = Some b"
    and s: "body c3' = Some (SessionBody (hex_encode b))"
    by blast
  let ?s = "hex_encode b"
  have reads: "jwt_reads E3 E4 (session_claims user ?s)" if "Some lreq = Some rq" "user_by_email E3 (to_lower (ls_Email rq)) = Row user" for rq user
    using assms(25) [OF b] that found by auto
  have "\<exists>q'. Authenticate E4 r q = Done (None, q') \<and> passed q' \<and> commands q' = commands q
      \<and> locals q' = (locals q)(''userid'' \<mapsto> time_uuid E2, ''username'' \<mapsto> rs_Username req, ''sessionid'' \<mapsto> ?s)"
    if "carries r ?s (resp_headers c3')" "\<And>key. redis_hgetall E4 key = Reply (redis_after (commands c3') H' key)"
      "now_nano E4 \<le> (now_ms E3 + RefreshTokenDuration) * 1000000" for r H' q
    using login_lets_through [OF assms(17) login s assms(23,24) reads that, where d = q] found by auto
  with login s show ?thesis by blast
qed

subsection \<open>Witness\<close>

definition bob_login :: login_schema where
  "bob_login = \<lparr>ls_Email = ''B@x'', ls_EncPasswordHash = ''k.pw.000000000005'', ls_DeviceToken = ''''\<rparr>"

definition bob_db :: db where
  "bob_db = empty_db\<lparr>users_public := [''bob'' \<mapsto> ''t1''],
     users := [''b@x'' \<mapsto> \<lparr>ur_user_id = ''t1'', ur_password_hash = ''pw'', ur_username = ''bob''\<rparr>],
     users_private := [''t1'' \<mapsto> ''bob'']\<rparr>"

definition bob_tables :: account_env where
  "bob_tables = token_accounts\<lparr>user_by_email := (\<lambda>e. case users bob_db e of None \<Rightarrow> NotFound | Some row \<Rightarrow> Row row)\<rparr>"

definition bob_server :: "command list \<Rightarrow> account_env" where
  "bob_server cmds = demo_accounts\<lparr>jwt := (\<lambda>_. TokenClaims True (Some (map_of [(''id'', ''t1''), (''username'', ''bob''),
      (''session_id'', hex_encode (replicate 20 0))]))), redis_hgetall := (\<lambda>key. Reply (redis_after cmds (\<lambda>_ _. None) key))\<rparr>"

lemma bob_lower: "to_lower ''b@x'' = ''b@x''" "to_lower ''B@X'' = ''b@x''" "to_lower ''B@x'' = ''b@x''"
  by code_simp+

lemma bob_decrypt: "DecryptRequestPasswordHash bob_tables ''k.pw.000000000005'' c = Done ((to_bytes ''pw'', None), c)"
  by (simp add: DecryptRequestPasswordHash_def bob_tables_def token_accounts_def demo_accounts_def server_env.extend_def demo_server_def
      demo_chunks Let_def del: to_bytes_simps)

theorem account_lives_witness:
  "\<exists>c1' err2 c2' c3' s. Register demo_accounts (Some demo_registration) (\<lambda>_. []) new_srv = Done (None, c1')
     \<and> VerifyEmail (demo_accounts\<lparr>redis_hgetall := (\<lambda>key. Reply (redis_after (commands c1') (\<lambda>_ _. None) key))\<rparr>)
         (Some \<lparr>ve_Email = ''b@x'', ve_Code = ''000000''\<rparr>) (\<lambda>_. []) new_srv = Done (err2, c2')
     \<and> run_all (apply_command Some) (commands c2') empty_db = Some bob_db
     \<and> Login bob_tables ''ip'' (Some bob_login) (\<lambda>_. []) new_srv = Done (None, c3') \<and> body c3' = Some (SessionBody s)"
proof -
  have rand: "rand demo_accounts 3 = Some (replicate 3 0)" by (simp add: demo_accounts_def server_env.extend_def demo_server_def)
  have code: "to_upper (hex_encode (replicate 3 0)) = ''000000''" by code_simp
  have dec: "DecryptRequestPasswordHash demo_accounts (rs_EncPasswordHash demo_registration) new_srv = Done ((to_bytes ''pw'', None), new_srv)"
    unfolding demo_registration_def by (simp only: register_schema.simps demo_decrypt)
  have new: "commands new_srv = []" "body new_srv = None" "resp_headers new_srv = []" by (simp_all add: new_srv_def)
  note reg = demo_registers [folded demo_registration_def]
  have low: "to_lower (rs_Email demo_registration) = ''b@x''" by (simp add: demo_registration_def bob_lower)
  obtain c1' where c1': "Register demo_accounts (Some demo_registration) (\<lambda>_. []) new_srv = Done (None, c1')"
    and cmds1: "commands c1' = [HSet (''verifying:'' @ ''b@x'') (stored_registration demo_registration ''000000'' ''pw''),
        Expire (''verifying:'' @ ''b@x'') 86400000, SendMail ''b@x'' (mail_text demo_accounts ''000000'')]"
    using register_works [where check = "\<lambda>_. []", OF reg refl rand dec] unfolding low code new by auto
  let ?E2 = "demo_accounts\<lparr>redis_hgetall := (\<lambda>key. Reply (redis_after (commands c1') (\<lambda>_ _. None) key))\<rparr>"
  let ?v = "\<lparr>ve_Email = ''b@x'', ve_Code = ''000000''\<rparr>"
  have E2: "exec_ok ?E2 n" "cas_applied ?E2 u = Some True" "time_uuid ?E2 = ''t1''" "now_ms ?E2 = 7" "encodes ?E2 r"
    "cas_applied demo_accounts u = Some True" "exec_ok demo_accounts n" for n u r
    by (simp_all add: demo_accounts_def server_env.extend_def demo_server_def now_ms_def)
  have stored: "redis_hgetall ?E2 (''verifying:'' @ to_lower (ve_Email ?v)) = Reply (map_of (stored_registration demo_registration ''000000'' ''pw''))"
    by (simp add: cmds1 bob_lower stored_registration_def)
  have fields: "field (map_of (stored_registration demo_registration ''000000'' ''pw'')) ''code'' = ''000000''"
    "field (map_of (stored_registration demo_registration ''000000'' ''pw'')) ''username'' = ''bob''"
    "field (map_of (stored_registration demo_registration ''000000'' ''pw'')) ''passwordhash'' = ''pw''"
    by (simp_all add: field_def stored_registration_def demo_registration_def)
  obtain err2 c2' where c2': "VerifyEmail ?E2 (Some ?v) (\<lambda>_. []) new_srv = Done (err2, c2')"
    and cmds2: "commands c2' = [InsertUserPublic ''bob'' ''t1'', InsertUser ''b@x'' ''t1'' ''pw'' 7 ''bob'', InsertUserPrivate ''t1'' ''bob'']"
    using verification_steps [where check = "\<lambda>_. []" and d = new_srv, OF refl stored] by (auto simp: fields bob_lower E2 new)
  have db: "run_all (apply_command Some) (commands c2') empty_db = Some bob_db"
    by (simp add: cmds2 bob_db_def empty_db_def)
  have bob: "reads_accounts bob_tables bob_db" "login_works bob_tables" "bcrypt_matches bob_tables ''pw'' (to_bytes ''pw'')"
    "rand bob_tables 20 = Some (replicate 20 0)" "sign_jwt bob_tables cl x = Some ''tok''" for cl x
    using token_accounts_simps(1) by (simp_all add: reads_accounts_def bob_tables_def login_works_def token_accounts_def demo_accounts_def
        server_env.extend_def demo_server_def now_ms_def del: to_bytes_simps)
  have "jwt_reads bob_tables (bob_server []) (session_claims
      \<lparr>ur_user_id = time_uuid ?E2, ur_password_hash = ''pw'', ur_username = rs_Username demo_registration\<rparr> (hex_encode b))"
    if "rand bob_tables 20 = Some b" for b
    using that bob(4) by (auto simp: jwt_reads_def bob(5) bob_server_def session_claims_def E2 demo_registration_def)
  from account_lives [where ?check1.0 = "\<lambda>_. []" and ?check2.0 = "\<lambda>_. []" and ?check3.0 = "\<lambda>_. []" and ip = "''ip''" and H = "\<lambda>_ _. None"
      and vreq = ?v and lreq = bob_login and d = empty_db and d' = bob_db and ?c2.0 = new_srv and ?c3.0 = new_srv,
      OF reg refl rand dec new(1) c1' _ _ E2(1) refl _ _ E2(2) new(1) c2' db bob(2,1) refl _ _ bob(3) new(2,3) this]
  obtain c3' s where "Login bob_tables ''ip'' (Some bob_login) (\<lambda>_. []) new_srv = Done (None, c3')" "body c3' = Some (SessionBody s)"
    by (auto simp: low cmds1 bob_lower bob_login_def bob_decrypt empty_db_def)
  then show ?thesis using c1' c2' db by blast
qed

end
