(* ===== verification/Routes.thy ===== *)
theory Routes imports Chains Accounts begin

text \<open>
  The routes of the HTTP server (\<open>routes/*.go\<close>, \<open>socket/websocket_initialize.go\<close>). Routes are kept in
  the order of their registration; a request runs through those that match, each handler deciding with
  \<open>c.Next()\<close> whether the next one is called. As Fiber documents it, \<open>Use\<close> and a group with handlers
  match a prefix of the path for every method, \<open>Get\<close> and \<open>Post\<close> the whole path. The path comes split
  into segments, as Fiber's router compares them. The cors and cache middlewares, which are not code of
  the repository, are taken to pass every request on.
\<close>

subsection \<open>Requests\<close>

datatype verb = GET | POST

text \<open>A request with what the body parser makes of its body.\<close>

record full_request = request +
  http_method :: verb
  segments :: "string list"
  body_register :: "register_schema option"
  body_email :: "string option"
  body_verify :: "verify_email_schema option"
  body_login :: "login_schema option"
  body_form :: "audio_form option"

text \<open>The environment: what the handlers find, what the validator answers, the configured version, and
  whether a request asks for a websocket.\<close>

record site =
  accounts :: account_env
  chains :: chain_env
  version :: string
  check_register :: "register_schema \<Rightarrow> (string \<times> string) list"
  check_email :: "string \<Rightarrow> (string \<times> string) list"
  check_verify :: "verify_email_schema \<Rightarrow> (string \<times> string) list"
  check_login :: "login_schema \<Rightarrow> (string \<times> string) list"
  is_upgrade :: "request \<Rightarrow> bool"

definition InitializeSocket :: "encoder \<Rightarrow> bool \<Rightarrow> srv \<Rightarrow> err \<times> srv" where
  "InitializeSocket enc upgrade c =
     (if upgrade then (None, c\<lparr>passed := True\<rparr>) else HandleInternalError enc ''websocket_upgrade'' c)"

subsection \<open>The table\<close>

datatype segment = Lit string | Par string

record route =
  rt_use :: bool
  rt_method :: verb
  rt_path :: "segment list"
  rt_handler :: "full_request \<Rightarrow> srv \<Rightarrow> (err \<times> srv) outcome"

fun match_path :: "bool \<Rightarrow> segment list \<Rightarrow> string list \<Rightarrow> (string \<times> string) list option" where
  "match_path prefix [] [] = Some []"
| "match_path prefix [] (s # ss) = (if prefix then Some [] else None)"
| "match_path prefix (p # ps) [] = None"
| "match_path prefix (Lit x # ps) (s # ss) = (if x = s then match_path prefix ps ss else None)"
| "match_path prefix (Par k # ps) (s # ss) = map_option ((#) (k, s)) (match_path prefix ps ss)"

definition match_route :: "route \<Rightarrow> full_request \<Rightarrow> (string \<times> string) list option" where
  "match_route rt r = (if rt_use rt \<or> rt_method rt = http_method r then match_path (rt_use rt) (rt_path rt) (segments r) else None)"

definition use_route :: "segment list \<Rightarrow> (full_request \<Rightarrow> srv \<Rightarrow> (err \<times> srv) outcome) \<Rightarrow> route" where
  "use_route path h = \<lparr>rt_use = True, rt_method = GET, rt_path = path, rt_handler = h\<rparr>"

definition get_route :: "segment list \<Rightarrow> (full_request \<Rightarrow> srv \<Rightarrow> (err \<times> srv) outcome) \<Rightarrow> route" where
  "get_route path h = \<lparr>rt_use = False, rt_method = GET, rt_path = path, rt_handler = h\<rparr>"

definition post_route :: "segment list \<Rightarrow> (full_request \<Rightarrow> srv \<Rightarrow> (err \<times> srv) outcome) \<Rightarrow> route" where
  "post_route path h = \<lparr>rt_use = False, rt_method = POST, rt_path = path, rt_handler = h\<rparr>"

definition authRoutes :: "site \<Rightarrow> segment list \<Rightarrow> route list" where
  "authRoutes S api = (let oauth = api @ [Lit ''auth''] in
     [post_route (oauth @ [Lit ''test'']) (\<lambda>r. Test_handler (accounts S) (body_login r) (check_login S)),
      post_route (oauth @ [Lit ''register'']) (\<lambda>r. Register (accounts S) (body_register r) (check_register S)),
      post_route (oauth @ [Lit ''resend-verification'']) (\<lambda>r. ResendVerification (accounts S) (body_email r) (check_email S)),
      post_route (oauth @ [Lit ''verify-email'']) (\<lambda>r. VerifyEmail (accounts S) (body_verify r) (check_verify S)),
      post_route (oauth @ [Lit ''login'']) (\<lambda>r. Login (accounts S) (client_ip r) (body_login r) (check_login S))])"

definition userRelationRoutes :: "site \<Rightarrow> segment list \<Rightarrow> route list" where
  "userRelationRoutes S api = (let userRelation = api @ [Par ''relationID''] in
     [post_route (userRelation @ [Lit ''request'']) (\<lambda>r. RequestRelation (accounts S) (request.truncate r)),
      post_route (userRelation @ [Lit ''remove'']) (\<lambda>r. RemoveRelation (accounts S) (request.truncate r)),
      post_route (userRelation @ [Lit ''accept'']) (\<lambda>r. AcceptRelation (accounts S) (request.truncate r))])"

definition relationRoutes :: "site \<Rightarrow> segment list \<Rightarrow> route list" where
  "relationRoutes S api =
     get_route (api @ [Lit ''relation'']) (\<lambda>r. GetAllRelations (accounts S)) # userRelationRoutes S (api @ [Lit ''relation''])"

definition userChainRoutes :: "site \<Rightarrow> segment list \<Rightarrow> route list" where
  "userChainRoutes S api = (let userChain = api @ [Par ''chainID''] in
     [use_route userChain (\<lambda>r. ChainRequestMiddleware (chains S) (request.truncate r)),
      get_route (userChain @ [Lit ''get-chain'']) (\<lambda>r. GetChain (chains S) (request.truncate r)),
      post_route (userChain @ [Lit ''audio'']) (\<lambda>r. AddAudioMessage (chains S) (body_form r)),
      get_route (userChain @ [Lit ''audio'', Par ''messageID'']) (\<lambda>r. GetAudioMessage (chains S) (request.truncate r))])"

definition chainRoutes :: "site \<Rightarrow> segment list \<Rightarrow> route list" where
  "chainRoutes S api = userChainRoutes S (api @ [Lit ''chain''])"

definition userRoutes :: "site \<Rightarrow> segment list \<Rightarrow> route list" where
  "userRoutes S api = (let user = api @ [Lit ''user''] in
     [use_route user (\<lambda>r. Authenticate (accounts S) (request.truncate r)),
      get_route (user @ [Lit ''authorize'']) (\<lambda>r c. Done (OKResponse (encodes (accounts S)) c)),
      get_route (user @ [Lit ''initialize'']) (\<lambda>r. Initialize (accounts S))]
     @ relationRoutes S user @ chainRoutes S user)"

definition publicRoutes :: "site \<Rightarrow> segment list \<Rightarrow> route list" where
  "publicRoutes S api =
     [get_route (api @ [Lit ''public'', Lit ''user'']) (\<lambda>r c. Done (UserByUsername (accounts S) (request.truncate r) c))]"

text \<open>A websocket that is let through is served by \<open>ClientSocket\<close>, modelled apart from the HTTP handlers;
  here it ends the request.\<close>

definition SetRoutes :: "site \<Rightarrow> route list" where
  "SetRoutes S = (let api = [Lit ''api'', Lit (version S)] in
     [use_route [Lit ''socket''] (\<lambda>r c. Done (InitializeSocket (encodes (accounts S)) (is_upgrade S (request.truncate r)) c)),
      use_route [Lit ''socket''] (\<lambda>r c. Done (None, c))]
     @ authRoutes S api @ userRoutes S api @ publicRoutes S api)"

subsection \<open>Serving a request\<close>

text \<open>A handler sees the parameters of its own route; when no route is left the answer is Fiber's error.\<close>

definition bind_params :: "(string \<times> string) list \<Rightarrow> full_request \<Rightarrow> full_request" where
  "bind_params ps r = r\<lparr>path_param := (\<lambda>k. case map_of ps k of None \<Rightarrow> '''' | Some v \<Rightarrow> v)\<rparr>"

fun walk :: "route list \<Rightarrow> full_request \<Rightarrow> srv \<Rightarrow> (err \<times> srv) outcome" where
  "walk [] r c = Done (Some ''Not Found'', c)"
| "walk (rt # rts) r c =
     (case match_route rt r of
        None \<Rightarrow> walk rts r c
      | Some ps \<Rightarrow> and_then (rt_handler rt (bind_params ps r) (c\<lparr>passed := False\<rparr>)) (\<lambda>(err, c1).
          if passed c1 then walk rts r c1 else Done (err, c1)))"

definition serve :: "site \<Rightarrow> full_request \<Rightarrow> srv \<Rightarrow> (err \<times> srv) outcome" where
  "serve S r c = walk (SetRoutes S) r c"

end
