(* ===== verification/Routes_Props.thy ===== *)
theory Routes_Props imports Routes Accounts_Props Chains_Props begin

text \<open>
  What the order of the routes gives: nothing under \<open>/user\<close> without a valid token, nothing of a chain
  for anyone but its two users.
\<close>

subsection \<open>Requests that are refused\<close>

text \<open>A refused request has no effect but its error answer.\<close>

definition no_effect :: "srv \<Rightarrow> srv \<Rightarrow> bool" where
  "no_effect c c' \<longleftrightarrow> commands c' = commands c \<and> outbox c' = outbox c \<and> error_or_same c c'"

lemma no_effect_helpers [simp]:
  "no_effect c c" "no_effect c (snd (HandleInternalError enc p c))"
  "no_effect c (snd (HandleBadRequestError enc p d c))" "no_effect c (snd (HandleInvalidRequestError enc p d c))"
  by (simp_all add: no_effect_def)

lemma no_effect_pairs:
  "HandleInternalError enc p c = (e, c') \<Longrightarrow> no_effect c c'"
  "HandleBadRequestError enc p d c = (e, c') \<Longrightarrow> no_effect c c'"
  "HandleInvalidRequestError enc p d c = (e, c') \<Longrightarrow> no_effect c c'"
  by (metis no_effect_helpers snd_conv)+

lemma no_effect_trans: "no_effect a b \<Longrightarrow> no_effect b c \<Longrightarrow> no_effect a c"
  by (auto simp: no_effect_def intro: error_or_same_trans)

text \<open>What the routes rely on in a handler that stands before others: a request it does not permit has no
  effect and goes no further.\<close>

locale guard =
  fixes mw :: "'r \<Rightarrow> srv \<Rightarrow> (err \<times> srv) outcome" and permits :: "'r \<Rightarrow> srv \<Rightarrow> bool"
  assumes refuses: "mw r c = Done (err, c') \<Longrightarrow> \<not> passed c \<Longrightarrow> \<not> permits r c \<Longrightarrow> no_effect c c' \<and> \<not> passed c'"
begin

lemma stops:
  assumes "and_then (mw r (c\<lparr>passed := False\<rparr>)) (\<lambda>(err, c1). if passed c1 then rest c1 else Done (err, c1)) = Done (err, c')"
    and "\<not> permits r (c\<lparr>passed := False\<rparr>)"
  shows "no_effect c c'"
proof -
  obtain e c1 where mw: "mw r (c\<lparr>passed := False\<rparr>) = Done (e, c1)"
    using assms(1) by (cases "mw r (c\<lparr>passed := False\<rparr>)") auto
  have "no_effect (c\<lparr>passed := False\<rparr>) c1 \<and> \<not> passed c1" by (rule refuses [OF mw _ assms(2)]) simp
  then show ?thesis using assms(1) mw by (simp add: outcome_simps no_effect_def error_or_same_def)
qed

lemma first_step:
  assumes "and_then (mw r (c\<lparr>passed := False\<rparr>)) (\<lambda>(err, c1). if passed c1 then rest c1 else Done (err, c1)) = Done (err, c')"
  obtains e c1 where "mw r (c\<lparr>passed := False\<rparr>) = Done (e, c1)" "\<not> passed c1 \<and> c1 = c' \<or> passed c1 \<and> rest c1 = Done (err, c')"
  using assms by (cases "mw r (c\<lparr>passed := False\<rparr>)") (auto simp: outcome_simps split: if_splits)

end

lemma ParseJWT_no_effect: "ParseJWT E tok c = Done (p, c1) \<Longrightarrow> no_effect c c1"
  by (auto simp: ParseJWT_def case_prod_beta split: parsed_jwt.splits option.splits)

text \<open>The user a request may act for: named by a token of the session in the header, which is not expired,
  or stored in Redis for that user.\<close>

definition authorized :: "'e auth_env_scheme \<Rightarrow> request \<Rightarrow> uuid \<Rightarrow> bool" where
  "authorized E req uid \<longleftrightarrow> (\<exists>expired name. claims_session E req expired uid name \<and> header req ''x-session-id'' \<noteq> []
     \<and> (expired \<longrightarrow> (\<exists>res. redis_hgetall E (''refreshtokens:'' @ header req ''x-session-id'') = Reply res
         \<and> uid = (case res ''userid'' of None \<Rightarrow> '''' | Some u \<Rightarrow> u))))"

lemma Authenticate_passed:
  assumes "Authenticate E req c = Done (err, c')" and "passed c'" and "\<not> passed c"
  obtains uid where "authorized E req uid" "locals c' ''userid'' = Some uid"
proof -
  obtain expired uid name where "claims_session E req expired uid name" "header req ''x-session-id'' \<noteq> []"
    "expired \<longrightarrow> (\<exists>res. redis_hgetall E (''refreshtokens:'' @ header req ''x-session-id'') = Reply res
         \<and> uid = (case res ''userid'' of None \<Rightarrow> '''' | Some u \<Rightarrow> u))"
    and locals: "locals c' = (locals c)(''userid'' \<mapsto> uid, ''username'' \<mapsto> name, ''sessionid'' \<mapsto> header req ''x-session-id'')"
    using authenticate_through [OF assms] by blast
  then have "authorized E req uid" unfolding authorized_def by blast
  moreover have "locals c' ''userid'' = Some uid" by (simp add: locals)
  ultimately show ?thesis by (rule that)
qed

lemma Authenticate_refused:
  assumes "Authenticate E req c = Done (err, c')" and "\<not> (\<exists>uid. authorized E req uid)"
  shows "no_effect c c'"
proof (cases "\<exists>tok p c1. bearer_token req = Some tok \<and> header req ''x-session-id'' \<noteq> []
    \<and> ParseJWT E tok c = Done (p, c1) \<and> authorize E req p c1 = (err, c')")
  case False
  then show ?thesis
    using assms(1) by (auto simp: Authenticate_def Let_def bearer_token_def bearer_two outcome_simps
      dest: no_effect_pairs split: option.splits if_splits)
next
  case True
  then obtain tok p c1 where tok: "bearer_token req = Some tok" "header req ''x-session-id'' \<noteq> []"
    and p: "ParseJWT E tok c = Done (p, c1)" and auth: "authorize E req p c1 = (err, c')" by blast
  have "no_effect c1 c'"
  proof (cases "p_session p = header req ''x-session-id''")
    case False
    then show ?thesis using auth by (auto simp: authorize_def Let_def dest: no_effect_pairs split: if_splits)
  next
    case True
    then have "claims_session E req (p_expired p) (p_id p) (p_username p)"
      using ParseJWT_session [OF p] tok by (auto simp: claims_session_def)
    then have "p_expired p" and "\<And>res. redis_hgetall E (''refreshtokens:'' @ header req ''x-session-id'') = Reply res
        \<Longrightarrow> p_id p \<noteq> (case res ''userid'' of None \<Rightarrow> '''' | Some u \<Rightarrow> u)"
      using assms(2) tok(2) unfolding authorized_def by blast+
    then show ?thesis
      using auth by (auto simp: authorize_def Let_def dest: no_effect_pairs split: if_splits redis_reply.splits)
  qed
  with ParseJWT_no_effect [OF p] show ?thesis by (rule no_effect_trans)
qed

text \<open>The authentication itself does nothing but refresh the session's tokens.\<close>

definition refreshes :: "command \<Rightarrow> bool" where
  "refreshes cmd \<longleftrightarrow> (\<exists>k x t. cmd = HSet (''refreshtokens:'' @ k) x \<or> cmd = ExpireAt (''refreshtokens:'' @ k) t)"

definition only_refreshes :: "srv \<Rightarrow> srv \<Rightarrow> bool" where
  "only_refreshes c c' \<longleftrightarrow> outbox c' = outbox c \<and> error_or_same c c'
     \<and> (\<exists>cmds. commands c' = commands c @ cmds \<and> list_all refreshes cmds)"

lemma tokens_effect: "only_refreshes c (snd (GenerateAndRefreshTokens E ip u s n c))"
proof -
  obtain r c1 where r: "tokens_closure E ip u s n c = (r, c1)" by fastforce
  then have "outbox c1 = outbox c \<and> commands c1 = commands c \<and> list_all refreshes (cl_queue r)"
    by (auto simp: tokens_closure_def GenerateJWT_def refreshes_def Let_def case_prod_beta split: option.splits if_splits
        dest!: no_effect_pairs simp: no_effect_def)
  then show ?thesis
    using tokens_body [of c E ip u s n]
    by (auto simp: only_refreshes_def GenerateAndRefreshTokens_def r Let_def HandleInternalError_def c_json_def)
qed

lemma no_effect_refreshes: "no_effect c c' \<Longrightarrow> only_refreshes c c'"
  by (simp add: no_effect_def only_refreshes_def)

lemma Authenticate_effect:
  assumes "Authenticate E req c = Done (err, c')"
  shows "only_refreshes c c'"
proof (cases "\<exists>tok p c1. ParseJWT E tok c = Done (p, c1) \<and> authorize E req p c1 = (err, c')")
  case False
  then have "no_effect c c'"
    using assms by (auto simp: Authenticate_def Let_def outcome_simps dest: no_effect_pairs split: option.splits if_splits)
  then show ?thesis by (rule no_effect_refreshes)
next
  case True
  then obtain tok p c1 where p: "ParseJWT E tok c = Done (p, c1)" and auth: "authorize E req p c1 = (err, c')" by blast
  have "only_refreshes c1 c'"
    using auth tokens_effect [of c1 E "client_ip req" "p_id p" "header req ''x-session-id''" "p_username p"]
    by (auto simp: authorize_def set_locals_def only_refreshes_def no_effect_def error_or_same_def Let_def case_prod_beta
        dest!: no_effect_pairs split: if_splits redis_reply.splits prod.splits)
  then show ?thesis using ParseJWT_no_effect [OF p] by (auto simp: only_refreshes_def no_effect_def intro: error_or_same_trans)
qed

text \<open>The middleware of the chains, passing and refusing.\<close>

lemma ParseParamChainUUID_frame:
  "ParseParamChainUUID E req c = ((ch, err), c1) \<Longrightarrow> no_effect c c1 \<and> passed c1 = passed c \<and> locals c1 = locals c
     \<and> ch = requested_chain E req"
  by (auto simp: ParseParamChainUUID_def requested_chain_def case_prod_beta dest: no_effect_pairs helpers_pair split: option.splits)

lemma ChainRequestMiddleware_cases:
  assumes "ChainRequestMiddleware E req c = Done (err, c')"
  shows "no_effect c c' \<and> (\<not> passed c \<and> passed c' \<longrightarrow> (\<exists>x y uid. users_of_chain E (requested_chain E req) = [Some x, Some y]
    \<and> uid \<in> {x, y} \<and> locals c ''userid'' = Some uid))"
proof -
  obtain ch e c1 where p: "ParseParamChainUUID E req c = ((ch, e), c1)" by (metis prod.exhaust)
  note f = ParseParamChainUUID_frame [OF p]
  have keep: "no_effect c c' \<and> \<not> (\<not> passed c \<and> passed c')" if "no_effect c1 c'" "passed c' = passed c1"
    using that f no_effect_trans [of c c1 c'] by auto
  consider "e \<noteq> None" | "e = None" "GetChainsUsers E ch = None"
    | us where "e = None" "GetChainsUsers E ch = Some us" "length us \<noteq> 2"
    | x y where "e = None" "GetChainsUsers E ch = Some [x, y]"
  proof (cases "GetChainsUsers E ch")
    case None
    then show ?thesis using that(1,2) by blast
  next
    case (Some us)
    show ?thesis
    proof (cases "length us = 2")
      case True
      then obtain x y where "us = [x, y]" by (auto simp: length_Suc_conv numeral_2_eq_2)
      then show ?thesis using Some that(1,4) by blast
    qed (use Some that(1,3) in blast)
  qed
  then show ?thesis
  proof cases
    case 1
    then show ?thesis using assms keep by (auto simp: ChainRequestMiddleware_def p)
  next
    case 2
    then show ?thesis using assms keep by (auto simp: ChainRequestMiddleware_def p)
  next
    case 3
    then have "HandleBadRequestError (encodes E) ''ChainID'' ''invalid'' c1 = (err, c')"
      using assms by (simp add: ChainRequestMiddleware_def p)
    from no_effect_pairs(2) [OF this] helpers_pair(2) [OF this] keep show ?thesis by blast
  next
    case 4
    then have rows: "users_of_chain E ch = [Some x, Some y]"
      by (auto simp: GetChainsUsers_def scan_users_spec map_eq_Cons_conv split: if_splits)
    obtain uid where uid: "locals c1 ''userid'' = Some uid"
      using assms 4 by (cases "locals c1 ''userid''") (auto simp: ChainRequestMiddleware_def p local_string_def)
    show ?thesis
    proof (cases "uid = x \<or> uid = y")
      case True
      then have "no_effect c1 c'"
        using assms 4 uid by (auto simp: ChainRequestMiddleware_def p local_string_def outcome_simps no_effect_def
            error_or_same_def Let_def split: if_splits)
      with f have "no_effect c c'" using no_effect_trans [of c c1 c'] by blast
      moreover have "locals c ''userid'' = Some uid" using f uid by simp
      ultimately show ?thesis using rows True f by auto
    next
      case False
      then have "HandleBadRequestError (encodes E) ''ChainID'' ''unauthorized'' c1 = (err, c')"
        using assms 4 uid by (auto simp: ChainRequestMiddleware_def p local_string_def outcome_simps)
      from no_effect_pairs(2) [OF this] helpers_pair(2) [OF this] keep show ?thesis by blast
    qed
  qed
qed

interpretation auth_guard: guard "Authenticate E" "\<lambda>req c. \<exists>uid. authorized E req uid" for E :: "'e auth_env_scheme"
proof
  fix r c err c'
  assume "Authenticate E r c = Done (err, c')" "\<not> passed c" "\<not> (\<exists>uid. authorized E r uid)"
  then show "no_effect c c' \<and> \<not> passed c'" using Authenticate_refused Authenticate_passed by metis
qed

interpretation chain_guard: guard "ChainRequestMiddleware E" "\<lambda>req c. \<exists>x y uid. users_of_chain E (requested_chain E req) = [Some x, Some y]
    \<and> uid \<in> {x, y} \<and> locals c ''userid'' = Some uid" for E :: "'e server_env_scheme"
proof
  fix r c err c'
  assume "ChainRequestMiddleware E r c = Done (err, c')" "\<not> passed c" "\<not> (\<exists>x y uid. users_of_chain E (requested_chain E r) = [Some x, Some y]
    \<and> uid \<in> {x, y} \<and> locals c ''userid'' = Some uid)"
  then show "no_effect c c' \<and> \<not> passed c'" using ChainRequestMiddleware_cases by blast
qed

interpretation upgrade_guard: guard "\<lambda>upgrade c. Done (InitializeSocket enc upgrade c)" "\<lambda>upgrade c. upgrade" for enc
  by unfold_locales (auto simp: InitializeSocket_def dest: no_effect_pairs helpers_pair)

subsection \<open>The order of the routes\<close>

lemma params_frame [simp]:
  "authorized E (request.truncate (bind_params ps r)) uid = authorized E (request.truncate r) uid"
  by (simp add: authorized_def claims_session_def bearer_token_def bind_params_def request.truncate_def)

lemma match_path_prefix [simp]: "match_path True [] ss = Some []"
  by (cases ss) simp_all

text \<open>A request under \<open>/user\<close> meets the authentication first.\<close>

definition after_auth :: "site \<Rightarrow> route list" where
  "after_auth S = (let user = [Lit ''api'', Lit (version S), Lit ''user''] in
     [get_route (user @ [Lit ''authorize'']) (\<lambda>r c. Done (OKResponse (encodes (accounts S)) c)),
      get_route (user @ [Lit ''initialize'']) (\<lambda>r. Initialize (accounts S))]
     @ relationRoutes S user @ chainRoutes S user @ publicRoutes S [Lit ''api'', Lit (version S)])"

lemmas route_defs = match_route_def use_route_def get_route_def post_route_def Let_def

lemma serve_user:
  assumes "segments r = ''api'' # version S # ''user'' # rest"
  shows "serve S r c = and_then (Authenticate (accounts S) (request.truncate (bind_params [] r)) (c\<lparr>passed := False\<rparr>))
    (\<lambda>(err, c1). if passed c1 then walk (after_auth S) r c1 else Done (err, c1))"
  using assms by (simp add: serve_def SetRoutes_def authRoutes_def userRoutes_def after_auth_def route_defs cong: if_cong)

lemma after_auth_chain:
  assumes "segments r = ''api'' # version S # ''user'' # ''chain'' # ch # rest"
  shows "\<exists>rts. walk (after_auth S) r c = and_then (ChainRequestMiddleware (chains S) (request.truncate (bind_params [(''chainID'', ch)] r))
      (c\<lparr>passed := False\<rparr>)) (\<lambda>(err, c1). if passed c1 then walk rts r c1 else Done (err, c1))"
  using assms
  by (simp add: after_auth_def relationRoutes_def userRelationRoutes_def chainRoutes_def userChainRoutes_def route_defs)
    blast

subsection \<open>Properties\<close>

text \<open>C8: nothing happens under \<open>/user\<close> without a valid token. Whatever the method, the rest of the path and
  the body are: unless the request carries a token that names the session of its header (and, when it
  has expired, the session is stored for that user), it issues no command, sends no message, and its
  answer carries nothing but an error.\<close>

theorem user_area_needs_token:
  assumes "serve S r new_srv = Done (err, c')" and "segments r = ''api'' # version S # ''user'' # rest"
    and "\<not> (\<exists>uid. authorized (accounts S) (request.truncate r) uid)"
  shows "commands c' = [] \<and> outbox c' = [] \<and> (body c' = None \<or> (\<exists>e. body c' = Some (ErrorBody e)))"
proof -
  have "no_effect new_srv c'"
    by (rule auth_guard.stops [OF assms(1) [unfolded serve_user [OF assms(2)]]]) (use assms(3) in simp)
  then show ?thesis by (auto simp: no_effect_def error_or_same_def new_srv_def)
qed

text \<open>C4: a chain is used by its two users only. A request to any path of a chain gets something other than an
  error, sends a message, or issues a command beyond the refresh of its own tokens, only when its token
  is one of a user whom the table of chains names as one of exactly two users of the chain in the path
  (of the nil UUID when that does not parse).\<close>

theorem chain_needs_membership:
  assumes "serve S r new_srv = Done (err, c')" and "segments r = ''api'' # version S # ''user'' # ''chain'' # ch # rest"
    and "\<not> (\<exists>uid x y. authorized (accounts S) (request.truncate r) uid \<and> uid \<in> {x, y}
        \<and> users_of_chain (chains S) (case parse_uuid (chains S) ch of None \<Rightarrow> nil_uuid | Some u \<Rightarrow> u) = [Some x, Some y])"
  shows "outbox c' = [] \<and> (body c' = None \<or> (\<exists>e. body c' = Some (ErrorBody e)))
    \<and> list_all refreshes (commands c')"
proof -
  let ?req = "request.truncate (bind_params [(''chainID'', ch)] r)"
  have chain: "requested_chain (chains S) ?req = (case parse_uuid (chains S) ch of None \<Rightarrow> nil_uuid | Some u \<Rightarrow> u)"
    by (simp add: requested_chain_def bind_params_def request.truncate_def)
  have new: "new_srv\<lparr>passed := False\<rparr> = new_srv" "\<not> passed new_srv" by (simp_all add: new_srv_def)
  from assms(1) [unfolded serve_user [OF assms(2)]] obtain e c1 where
    first: "Authenticate (accounts S) (request.truncate (bind_params [] r)) (new_srv\<lparr>passed := False\<rparr>) = Done (e, c1)"
    and onward: "\<not> passed c1 \<and> c1 = c' \<or> passed c1 \<and> walk (after_auth S) r c1 = Done (err, c')"
    by (rule auth_guard.first_step)
  note auth = first [unfolded new(1)]
  have "no_effect c1 c'"
  proof (cases "passed c1")
    case True
    then obtain uid where uid: "authorized (accounts S) (request.truncate r) uid" "locals c1 ''userid'' = Some uid"
      using Authenticate_passed [OF auth _ new(2)] by auto
    obtain rts where walk: "walk (after_auth S) r c1 = and_then (ChainRequestMiddleware (chains S) ?req (c1\<lparr>passed := False\<rparr>))
        (\<lambda>(err, c2). if passed c2 then walk rts r c2 else Done (err, c2))"
      using after_auth_chain [OF assms(2)] by blast
    have run: "walk (after_auth S) r c1 = Done (err, c')" using onward True by simp
    show ?thesis
      by (rule chain_guard.stops [OF run [unfolded walk]]) (use uid assms(3) in \<open>auto simp: chain\<close>)
  qed (use onward in simp)
  then show ?thesis using Authenticate_effect [OF auth] by (auto simp: no_effect_def only_refreshes_def error_or_same_def new_srv_def)
qed

subsection \<open>Witnesses\<close>

definition demo_site :: site where
  "demo_site = \<lparr>accounts = demo_accounts\<lparr>jwt := (\<lambda>t. if t = ''tok'' then TokenClaims False
       (Some [''id'' \<mapsto> ''zz'', ''username'' \<mapsto> ''zoe'', ''session_id'' \<mapsto> ''s1'']) else TokenBad)\<rparr>,
     chains = demo_chain, version = ''v1'', check_register = (\<lambda>_. []), check_email = (\<lambda>_. []), check_verify = (\<lambda>_. []),
     check_login = (\<lambda>_. []), is_upgrade = (\<lambda>_. False)\<rparr>"

definition demo_full :: "request \<Rightarrow> verb \<Rightarrow> string list \<Rightarrow> full_request" where
  "demo_full req m path = request.extend req \<lparr>http_method = m, segments = path, body_register = None, body_email = None,
     body_verify = None, body_login = None, body_form = None\<rparr>"

lemma demo_full_truncate [simp]: "request.truncate (bind_params ps (demo_full req m path)) = req\<lparr>path_param :=
    (\<lambda>k. case map_of ps k of None \<Rightarrow> '''' | Some v \<Rightarrow> v)\<rparr>"
  "request.truncate (demo_full req m path) = req" "segments (demo_full req m path) = path"
  by (simp_all add: demo_full_def bind_params_def request.extend_def request.truncate_def)

theorem user_area_needs_token_witness:
  "\<exists>c'. serve demo_site (demo_full (relation_request ''b'') POST [''api'', ''v1'', ''user'', ''relation'', ''b'', ''accept'']) new_srv
       = Done (None, c') \<and> commands c' = []"
proof -
  let ?r = "demo_full (relation_request ''b'') POST [''api'', ''v1'', ''user'', ''relation'', ''b'', ''accept'']"
  have path: "segments ?r = ''api'' # version demo_site # ''user'' # [''relation'', ''b'', ''accept'']"
    by (simp add: demo_site_def)
  have "parse_int '''' = None" by code_simp
  then obtain c' where "serve demo_site ?r new_srv = Done (None, c')"
    unfolding serve_user [OF path] by (simp add: Authenticate_def relation_request_def Let_def HandleBadRequestError_def c_json_def
        demo_site_def demo_accounts_def server_env.extend_def demo_server_def new_srv_def outcome_simps)
  moreover have "\<not> (\<exists>uid. authorized (accounts demo_site) (request.truncate ?r) uid)"
    by (simp add: authorized_def relation_request_def)
  ultimately show ?thesis using user_area_needs_token [OF _ path] by blast
qed

theorem chain_needs_membership_witness:
  "\<exists>c'. serve demo_site (demo_full (demo_request ''tok'' ''r'') GET [''api'', ''v1'', ''user'', ''chain'', ''ch'', ''get-chain'']) new_srv
       = Done (None, c') \<and> outbox c' = [] \<and> authorized (accounts demo_site) (demo_request ''tok'' ''r'') ''zz''"
proof -
  let ?r = "demo_full (demo_request ''tok'' ''r'') GET [''api'', ''v1'', ''user'', ''chain'', ''ch'', ''get-chain'']"
  have path: "segments ?r = ''api'' # version demo_site # ''user'' # ''chain'' # ''ch'' # [''get-chain'']"
    by (simp add: demo_site_def)
  have chain: "users_of_chain (chains demo_site) k = [Some ''a'', Some ''b'']" "parse_uuid (chains demo_site) k = Some k" for k
    by (simp_all add: demo_site_def demo_chain_def server_env.extend_def demo_server_def)
  have who: "authorized (accounts demo_site) (demo_request ''tok'' ''r'') uid \<longleftrightarrow> uid = ''zz''" for uid
    by (auto simp: authorized_def claims_session_def bearer_token_def demo_split demo_request_def demo_site_def)
  have "\<exists>c'. serve demo_site ?r new_srv = Done (None, c')"
    unfolding serve_user [OF path] by (simp add: Authenticate_def demo_request_def demo_split demo_five Let_def ParseJWT_def
        authorize_def set_locals_def demo_site_def demo_accounts_def server_env.extend_def demo_server_def new_srv_def outcome_simps
        after_auth_def relationRoutes_def userRelationRoutes_def chainRoutes_def userChainRoutes_def route_defs
        ChainRequestMiddleware_def ParseParamChainUUID_def GetChainsUsers_def local_string_def demo_chain_def
        HandleBadRequestError_def c_json_def request.extend_def)
  then obtain c' where run: "serve demo_site ?r new_srv = Done (None, c')" by blast
  have "\<not> (\<exists>uid x y. authorized (accounts demo_site) (request.truncate ?r) uid \<and> uid \<in> {x, y}
      \<and> users_of_chain (chains demo_site) (case parse_uuid (chains demo_site) ''ch'' of None \<Rightarrow> nil_uuid | Some u \<Rightarrow> u) = [Some x, Some y])"
    by (simp add: who chain)
  from chain_needs_membership [OF run path this] run show ?thesis by (simp add: who)
qed

end
