(* ===== verification/Schema.thy ===== *)
theory Schema imports Chains begin

text \<open>
  The tables the process creates when it starts (\<open>server.go\<close>), and the CQL statements behind the
  commands and queries of the handlers, with the Go values bound to their markers. A statement is
  checked as the driver and ScyllaDB document it: a value must be of a Go type that can be bound to the
  column's type, an \<open>INSERT\<close> names the whole primary key, an \<open>UPDATE\<close> restricts exactly the primary key and
  sets none of it, a \<open>SELECT\<close> restricts the partition key by equality and then a prefix of the clustering
  columns, the last of them possibly by an order.
\<close>

subsection \<open>Tables\<close>

datatype cql_type = CqlText | CqlUuid | CqlTimeuuid | CqlTimestamp | CqlBoolean | CqlInt

record table_schema =
  tb_name :: string
  tb_columns :: "(string \<times> cql_type) list"
  tb_partition :: "string list"
  tb_clustering :: "string list"

definition create_users :: table_schema where
  "create_users = \<lparr>tb_name = ''users'',
     tb_columns = [(''email'', CqlText), (''user_id'', CqlUuid), (''password_hash'', CqlText),
       (''created'', CqlTimestamp), (''username'', CqlText)],
     tb_partition = [''email''], tb_clustering = []\<rparr>"

definition create_users_private :: table_schema where
  "create_users_private = \<lparr>tb_name = ''users_private'',
     tb_columns = [(''user_id'', CqlUuid), (''username'', CqlText), (''statement'', CqlText)],
     tb_partition = [''user_id''], tb_clustering = []\<rparr>"

definition create_users_public :: table_schema where
  "create_users_public = \<lparr>tb_name = ''users_public'',
     tb_columns = [(''username'', CqlText), (''user_id'', CqlUuid), (''statement'', CqlText)],
     tb_partition = [''username''], tb_clustering = []\<rparr>"

definition create_user_relations :: table_schema where
  "create_user_relations = \<lparr>tb_name = ''user_relations'',
     tb_columns = [(''user_id'', CqlUuid), (''relation_id'', CqlUuid), (''created'', CqlTimestamp),
       (''chain_id'', CqlTimeuuid), (''relation_username'', CqlText), (''last_recv'', CqlTimestamp),
       (''last_seen'', CqlTimestamp), (''friend'', CqlBoolean), (''requested'', CqlBoolean), (''active'', CqlBoolean)],
     tb_partition = [''user_id''], tb_clustering = [''relation_id'']\<rparr>"

definition create_chains_users :: table_schema where
  "create_chains_users = \<lparr>tb_name = ''chains_users'',
     tb_columns = [(''chain_id'', CqlUuid), (''user_id'', CqlUuid), (''created'', CqlTimestamp)],
     tb_partition = [''chain_id''], tb_clustering = [''user_id'']\<rparr>"

definition create_chains :: table_schema where
  "create_chains = \<lparr>tb_name = ''chains'',
     tb_columns = [(''chain_id'', CqlUuid), (''created'', CqlTimestamp), (''message_id'', CqlUuid), (''user_id'', CqlUuid),
       (''expires'', CqlTimestamp), (''type'', CqlInt), (''seen'', CqlBoolean), (''display'', CqlText), (''duration'', CqlInt)],
     tb_partition = [''chain_id''], tb_clustering = [''created'']\<rparr>"

definition all_tables :: "table_schema list" where
  "all_tables = [create_users, create_users_private, create_users_public, create_user_relations,
     create_chains_users, create_chains]"

subsection \<open>Statements\<close>

text \<open>A Go value handed to the driver: \<open>gocql.UnsetValue\<close>, a string, a \<open>gocql.UUID\<close>, a time, a bool, an int.\<close>

datatype bound = BoundUnset | BoundString string | BoundUuid uuid | BoundTime int | BoundBool bool | BoundInt int

datatype comparison = Equals | Above | Below | UpTo

datatype statement =
    INSERT string "(string \<times> bound) list"
  | UPDATE string "(string \<times> bound) list" "(string \<times> bound) list"
  | SELECT "string list" string "(string \<times> comparison \<times> bound) list"

definition bound_col :: "('v \<Rightarrow> bound) \<Rightarrow> 'v col \<Rightarrow> bound" where
  "bound_col f col = (case col of Unset \<Rightarrow> BoundUnset | Col v \<Rightarrow> f v)"

definition relation_columns :: "relation_update \<Rightarrow> (string \<times> bound) list" where
  "relation_columns u =
     [(''created'', bound_col BoundTime (u_created u)), (''chain_id'', bound_col BoundUuid (u_chain_id u)),
      (''relation_username'', bound_col BoundString (u_relation_username u)),
      (''last_recv'', bound_col BoundTime (u_last_recv u)), (''last_seen'', bound_col BoundTime (u_last_seen u)),
      (''friend'', bound_col BoundBool (u_friend u)), (''requested'', bound_col BoundBool (u_requested u)),
      (''active'', bound_col BoundBool (u_active u))]"

text \<open>The statements with what is bound to them, each as its handler writes it.\<close>

definition update_relation_stmt :: "relation_update \<Rightarrow> string \<Rightarrow> string \<Rightarrow> statement" where
  [simp]: "update_relation_stmt u user rel =
     UPDATE ''user_relations'' (relation_columns u) [(''user_id'', BoundString user), (''relation_id'', BoundString rel)]"

definition update_last_seen_stmt :: "string \<Rightarrow> uuid \<Rightarrow> int \<Rightarrow> statement" where
  [simp]: "update_last_seen_stmt user ch t =
     UPDATE ''user_relations'' [(''last_seen'', BoundTime t)] [(''user_id'', BoundString user), (''chain_id'', BoundUuid ch)]"

definition insert_chain_user_stmt :: "uuid \<Rightarrow> int \<Rightarrow> string \<Rightarrow> statement" where
  [simp]: "insert_chain_user_stmt ch t user =
     INSERT ''chains_users'' [(''chain_id'', BoundUuid ch), (''user_id'', BoundString user), (''created'', BoundTime t)]"

definition insert_message_stmt :: "uuid \<Rightarrow> int \<Rightarrow> uuid \<Rightarrow> string \<Rightarrow> int \<Rightarrow> int \<Rightarrow> string \<Rightarrow> int \<Rightarrow> statement" where
  [simp]: "insert_message_stmt ch created m user expires typ display duration =
     INSERT ''chains'' [(''chain_id'', BoundUuid ch), (''created'', BoundTime created), (''message_id'', BoundUuid m),
       (''user_id'', BoundString user), (''expires'', BoundTime expires), (''type'', BoundInt typ), (''seen'', BoundUnset),
       (''display'', BoundString display), (''duration'', BoundInt duration)]"

definition set_seen_stmt :: "string \<Rightarrow> int \<Rightarrow> statement" where
  [simp]: "set_seen_stmt ch created =
     UPDATE ''chains'' [(''seen'', BoundBool True)] [(''chain_id'', BoundString ch), (''created'', BoundTime created)]"

definition insert_user_public_stmt :: "string \<Rightarrow> uuid \<Rightarrow> statement" where
  [simp]: "insert_user_public_stmt name uid =
     INSERT ''users_public'' [(''username'', BoundString name), (''user_id'', BoundUuid uid), (''statement'', BoundUnset)]"

definition insert_user_stmt :: "string \<Rightarrow> uuid \<Rightarrow> string \<Rightarrow> int \<Rightarrow> string \<Rightarrow> statement" where
  [simp]: "insert_user_stmt email uid hash created name =
     INSERT ''users'' [(''email'', BoundString email), (''user_id'', BoundUuid uid), (''password_hash'', BoundString hash),
       (''created'', BoundTime created), (''username'', BoundString name)]"

definition insert_user_private_stmt :: "uuid \<Rightarrow> string \<Rightarrow> statement" where
  [simp]: "insert_user_private_stmt uid name =
     INSERT ''users_private'' [(''user_id'', BoundUuid uid), (''username'', BoundString name), (''statement'', BoundUnset)]"

text \<open>The statements of a command; a batch gives one per entry, and what does not go to ScyllaDB none. Only
  a request's update names all columns of \<open>user_relations\<close>; the others are updates that leave the columns they
  do not name unset.\<close>

fun cql :: "command \<Rightarrow> statement list" where
  "cql (UpdateRelation u user rel) = [update_relation_stmt u user rel]"
| "cql (UpdateLastSeenIf user ch t) = [update_last_seen_stmt user ch t]"
| "cql (InsertChainUsers ch users t) = map (insert_chain_user_stmt ch t) users"
| "cql (InsertMessage ch created m user expires typ display duration) =
     [insert_message_stmt ch created m user expires typ display duration]"
| "cql (SetSeen ch created) = [set_seen_stmt ch created]"
| "cql (InsertUserPublic name uid) = [insert_user_public_stmt name uid]"
| "cql (InsertUser email uid hash created name) = [insert_user_stmt email uid hash created name]"
| "cql (InsertUserPrivate uid name) = [insert_user_private_stmt uid name]"
| "cql _ = []"

text \<open>The queries of the handlers.\<close>

definition count_username_stmt :: "string \<Rightarrow> statement" where
  [simp]: "count_username_stmt name =
     SELECT [] ''users_public'' [(''username'', Equals, BoundString name)]"

definition count_email_stmt :: "string \<Rightarrow> statement" where
  [simp]: "count_email_stmt email =
     SELECT [] ''users'' [(''email'', Equals, BoundString email)]"

definition user_by_email_stmt :: "string \<Rightarrow> statement" where
  [simp]: "user_by_email_stmt email =
     SELECT [] ''users'' [(''email'', Equals, BoundString email)]"

definition public_user_stmt :: "string \<Rightarrow> statement" where
  [simp]: "public_user_stmt name =
     SELECT [] ''users_public'' [(''username'', Equals, BoundString name)]"

definition private_user_stmt :: "string \<Rightarrow> statement" where
  [simp]: "private_user_stmt uid =
     SELECT [] ''users_private'' [(''user_id'', Equals, BoundString uid)]"

definition username_by_id_stmt :: "string \<Rightarrow> statement" where
  [simp]: "username_by_id_stmt uid =
     SELECT [''username''] ''users_private'' [(''user_id'', Equals, BoundString uid)]"

definition count_user_stmt :: "string \<Rightarrow> statement" where
  [simp]: "count_user_stmt uid =
     SELECT [] ''users_private'' [(''user_id'', Equals, BoundString uid)]"

definition relations_of_stmt :: "string \<Rightarrow> statement" where
  [simp]: "relations_of_stmt uid =
     SELECT [] ''user_relations'' [(''user_id'', Equals, BoundString uid)]"

definition chain_of_stmt :: "string \<Rightarrow> string \<Rightarrow> statement" where
  [simp]: "chain_of_stmt uid rel =
     SELECT [''chain_id''] ''user_relations'' [(''user_id'', Equals, BoundString uid), (''relation_id'', Equals, BoundString rel)]"

definition users_of_chain_stmt :: "uuid \<Rightarrow> statement" where
  [simp]: "users_of_chain_stmt ch =
     SELECT [] ''chains_users'' [(''chain_id'', Equals, BoundUuid ch)]"

fun page_stmt :: "chain_query \<Rightarrow> statement" where
  "page_stmt (SelectAfter ch t n) = SELECT [] ''chains'' [(''chain_id'', Equals, BoundUuid ch), (''created'', Above, BoundTime t)]"
| "page_stmt (SelectBefore ch t n) = SELECT [] ''chains'' [(''chain_id'', Equals, BoundUuid ch), (''created'', Below, BoundTime t)]"
| "page_stmt (SelectUpTo ch t n) = SELECT [] ''chains'' [(''chain_id'', Equals, BoundUuid ch), (''created'', UpTo, BoundTime t)]"

datatype read =
    CountUsername string | CountEmail string | UserByEmail string | PublicUser string | PrivateUser string
  | UsernameById string | CountUser string | RelationsOf string | ChainOf string string | UsersOfChain uuid | Page chain_query

fun select :: "read \<Rightarrow> statement" where
  "select (CountUsername name) = count_username_stmt name"
| "select (CountEmail email) = count_email_stmt email"
| "select (UserByEmail email) = user_by_email_stmt email"
| "select (PublicUser name) = public_user_stmt name"
| "select (PrivateUser uid) = private_user_stmt uid"
| "select (UsernameById uid) = username_by_id_stmt uid"
| "select (CountUser uid) = count_user_stmt uid"
| "select (RelationsOf uid) = relations_of_stmt uid"
| "select (ChainOf uid rel) = chain_of_stmt uid rel"
| "select (UsersOfChain ch) = users_of_chain_stmt ch"
| "select (Page q) = page_stmt q"

subsection \<open>When a statement fits the tables\<close>

text \<open>The Go types the driver documents for each column type; an \<open>int\<close> column takes 32 bits.\<close>

fun binds :: "cql_type \<Rightarrow> bound \<Rightarrow> bool" where
  "binds ty BoundUnset = True"
| "binds ty (BoundString s) \<longleftrightarrow> ty \<in> {CqlText, CqlUuid, CqlTimeuuid}"
| "binds ty (BoundUuid u) \<longleftrightarrow> ty \<in> {CqlUuid, CqlTimeuuid}"
| "binds ty (BoundTime t) \<longleftrightarrow> ty = CqlTimestamp"
| "binds ty (BoundBool b) \<longleftrightarrow> ty = CqlBoolean"
| "binds ty (BoundInt i) \<longleftrightarrow> ty = CqlInt \<and> - (2 ^ 31) \<le> i \<and> i < 2 ^ 31"

definition column_fits :: "table_schema \<Rightarrow> string \<times> bound \<Rightarrow> bool" where
  "column_fits tb cv = (case map_of (tb_columns tb) (fst cv) of None \<Rightarrow> False | Some ty \<Rightarrow> binds ty (snd cv))"

definition primary_key :: "table_schema \<Rightarrow> string list" where
  "primary_key tb = tb_partition tb @ tb_clustering tb"

text \<open>A key column is bound to a value.\<close>

definition key_bound :: "(string \<times> bound) list \<Rightarrow> string \<Rightarrow> bool" where
  "key_bound vs k = (case map_of vs k of None \<Rightarrow> False | Some v \<Rightarrow> v \<noteq> BoundUnset)"

fun restricts :: "string list \<Rightarrow> (string \<times> comparison \<times> bound) list \<Rightarrow> bool" where
  "restricts ks [] \<longleftrightarrow> True"
| "restricts [] (w # ws) \<longleftrightarrow> False"
| "restricts (k # ks) ((c, cmp, v) # ws) \<longleftrightarrow> c = k \<and> v \<noteq> BoundUnset \<and> (if cmp = Equals then restricts ks ws else ws = [])"

fun fits_table :: "table_schema \<Rightarrow> statement \<Rightarrow> bool" where
  "fits_table tb (INSERT t vs) \<longleftrightarrow> list_all (column_fits tb) vs \<and> distinct (map fst vs) \<and> list_all (key_bound vs) (primary_key tb)"
| "fits_table tb (UPDATE t vs ws) \<longleftrightarrow> list_all (column_fits tb) vs \<and> distinct (map fst vs)
     \<and> list_all (\<lambda>cv. fst cv \<notin> set (primary_key tb)) vs \<and> list_all (column_fits tb) ws
     \<and> map fst ws = primary_key tb \<and> list_all (key_bound ws) (primary_key tb)"
| "fits_table tb (SELECT cs t ws) \<longleftrightarrow> list_all (\<lambda>c. map_of (tb_columns tb) c \<noteq> None) cs
     \<and> list_all (\<lambda>(c, cmp, v). column_fits tb (c, v)) ws \<and> length (tb_partition tb) \<le> length ws
     \<and> list_all (\<lambda>(c, cmp, v). cmp = Equals) (take (length (tb_partition tb)) ws) \<and> restricts (primary_key tb) ws"

fun statement_table :: "statement \<Rightarrow> string" where
  "statement_table (INSERT t vs) = t"
| "statement_table (UPDATE t vs ws) = t"
| "statement_table (SELECT cs t ws) = t"

lemma page_stmt_table [simp]: "statement_table (page_stmt q) = ''chains''"
  by (cases q) simp_all

definition fits :: "table_schema list \<Rightarrow> statement \<Rightarrow> bool" where
  "fits tables st = (case find (\<lambda>tb. tb_name tb = statement_table st) tables of None \<Rightarrow> False | Some tb \<Rightarrow> fits_table tb st)"

definition command_fits :: "table_schema list \<Rightarrow> command \<Rightarrow> bool" where
  "command_fits tables cmd = list_all (fits tables) (cql cmd)"

lemmas table_defs = create_users_def create_users_private_def create_users_public_def create_user_relations_def
  create_chains_users_def create_chains_def

lemmas fits_simps = fits_def column_fits_def primary_key_def key_bound_def table_defs all_tables_def

subsection \<open>What fits\<close>

lemma binds_col [simp]:
  "binds CqlTimestamp (bound_col BoundTime t)" "binds CqlTimeuuid (bound_col BoundUuid u)"
  "binds CqlText (bound_col BoundString s)" "binds CqlBoolean (bound_col BoundBool b)"
  by (simp_all add: bound_col_def split: col.split)

lemma UpdateRelation_fits: "command_fits all_tables (UpdateRelation u user rel)"
  by (simp add: command_fits_def fits_simps relation_columns_def)

lemma InsertChainUsers_fits: "command_fits all_tables (InsertChainUsers ch users t)"
  by (simp add: command_fits_def fits_simps list_all_iff)

lemma InsertMessage_fits:
  "command_fits all_tables (InsertMessage ch created m user expires typ display duration)
     \<longleftrightarrow> - (2 ^ 31) \<le> typ \<and> typ < 2 ^ 31 \<and> - (2 ^ 31) \<le> duration \<and> duration < 2 ^ 31"
  by (auto simp: command_fits_def fits_simps)

lemma SetSeen_fits: "command_fits all_tables (SetSeen ch created)"
  by (simp add: command_fits_def fits_simps)

lemma account_rows_fit:
  "command_fits all_tables (InsertUserPublic name uid)" "command_fits all_tables (InsertUser email uid hash t name)"
  "command_fits all_tables (InsertUserPrivate uid name)"
  by (simp_all add: command_fits_def fits_simps)

lemma other_services_fit:
  "command_fits tables (HSet k x)" "command_fits tables (ExpireAt k t)" "command_fits tables (Expire k t)"
  "command_fits tables (PutObject b obj)" "command_fits tables (SendMail to text')"
  by (simp_all add: command_fits_def)

text \<open>The update of \<open>last_seen\<close> names \<open>chain_id\<close>, which is no key, and not \<open>relation_id\<close>, which is one.\<close>

lemma UpdateLastSeenIf_never_fits: "\<not> command_fits all_tables (UpdateLastSeenIf user ch t)"
  by (simp add: command_fits_def fits_simps)

lemma select_fits: "fits all_tables (select q)"
proof (cases q)
  case (Page p)
  then show ?thesis by (cases p) (simp_all add: fits_simps)
qed (simp_all add: fits_simps)

end
