(* ===== verification/Startup.thy ===== *)
theory Startup imports Schema Api_Link Routes begin

text \<open>
  How the process starts (\<open>server.go\<close>, \<open>config/config.go\<close>, the handles of \<open>global/global.go\<close>,
  \<open>errors.HandleFatalError\<close>): \<open>init\<close> opens the logs, reads the configuration and the keys, opens the
  clients of the services, makes buckets and tables; \<open>main\<close> starts the two router links, sets the routes
  and listens. What each library call answers is a parameter.
\<close>

subsection \<open>State\<close>

record minio_config =
  MinIO_User :: string
  MinIO_Password :: string

record json_config =
  Origin :: string
  Port :: string
  Version :: string
  EmailFrom :: string
  SMTP :: smtp_config
  MinIO :: minio_config

text \<open>The global handles (\<open>None\<close> is nil; a key is what the parser makes of its bytes) and what the services
  hold: the buckets with the days after which their objects expire, and the tables of the keyspace.\<close>

record 'k globals =
  InternalLogger :: "string option"
  MonitorLogger :: "string option"
  Config :: json_config
  PrivateKey :: "'k option"
  JwtKey :: "'k option"
  JwtParseKey :: "'k option"
  MinIOClient :: "minio_config option"
  RedisClient :: "string option"
  DbSession :: "string option"
  buckets :: "(string \<times> int option) list"
  tables :: "table_schema list"

text \<open>A started process goes on, exits (\<open>log.Fatal\<close>, which runs no deferred call) or dies of a panic; what
  it did to the services stays.\<close>

datatype 'p startup = Running 'p | Exited string 'p | Crashed 'p

fun start_then :: "'p startup \<Rightarrow> ('p \<Rightarrow> 'q startup) \<Rightarrow> ('p \<Rightarrow> 'q) \<Rightarrow> 'q startup" where
  "start_then (Running p) f up = f p"
| "start_then (Exited e p) f up = Exited e (up p)"
| "start_then (Crashed p) f up = Crashed (up p)"

abbreviation followed_by :: "'p startup \<Rightarrow> ('p \<Rightarrow> 'p startup) \<Rightarrow> 'p startup" where
  "followed_by m f \<equiv> start_then m f id"

definition HandleFatalError :: "err \<Rightarrow> 'p \<Rightarrow> 'p startup" where
  "HandleFatalError err p = (case err of None \<Rightarrow> Running p | Some e \<Rightarrow> Exited e p)"

record 'k startup_env =
  open_file :: "string \<Rightarrow> err"
  read_file :: "string \<Rightarrow> bytes + string"
  unmarshal_config :: "bytes \<Rightarrow> json_config + string"
  pem_decode :: "bytes \<Rightarrow> bytes option"
  parse_private :: "bytes \<Rightarrow> 'k option"
  parse_public :: "bytes \<Rightarrow> 'k option"
  minio_new :: err
  bucket_error :: "string \<Rightarrow> err"
  make_bucket :: "string \<Rightarrow> bool"
  set_lifecycle :: "string \<Rightarrow> bool"
  create_session :: err
  create_error :: "string \<Rightarrow> err"
  listen_error :: err

subsection \<open>Logs, configuration and keys\<close>

definition init_logs :: "'k startup_env \<Rightarrow> 'k globals \<Rightarrow> 'k globals startup" where
  "init_logs V p =
     followed_by (HandleFatalError (open_file V ''internal_errors.txt'') p) (\<lambda>p.
     followed_by (HandleFatalError (open_file V ''monitor_logs.txt'') p) (\<lambda>p.
       Running (p\<lparr>InternalLogger := Some ''internal_errors.txt'', MonitorLogger := Some ''monitor_logs.txt''\<rparr>)))"

text \<open>A file that must be readable.\<close>

definition must_read :: "'k startup_env \<Rightarrow> string \<Rightarrow> 'k globals \<Rightarrow> (bytes \<Rightarrow> 'k globals startup) \<Rightarrow> 'k globals startup" where
  "must_read V name p f = (case read_file V name of Inr e \<Rightarrow> HandleFatalError (Some e) p | Inl data \<Rightarrow> f data)"

definition init_config :: "'k startup_env \<Rightarrow> 'k globals \<Rightarrow> 'k globals startup" where
  "init_config V p = must_read V ''./config.json'' p (\<lambda>data.
     case unmarshal_config V data of Inr e \<Rightarrow> HandleFatalError (Some e) p | Inl cfg \<Rightarrow> Running (p\<lparr>Config := cfg\<rparr>))"

text \<open>The block is dereferenced unchecked, and the error of the key's parser is dropped.\<close>

definition read_key :: "'k startup_env \<Rightarrow> string \<Rightarrow> (bytes \<Rightarrow> 'k option) \<Rightarrow> ('k option \<Rightarrow> 'k globals \<Rightarrow> 'k globals)
    \<Rightarrow> 'k globals \<Rightarrow> 'k globals startup" where
  "read_key V name parse store p = must_read V name p (\<lambda>data.
     case pem_decode V data of None \<Rightarrow> Crashed p | Some block \<Rightarrow> Running (store (parse block) p))"

definition init_keys :: "'k startup_env \<Rightarrow> 'k globals \<Rightarrow> 'k globals startup" where
  "init_keys V p =
     followed_by (read_key V ''./private_key.pem'' (parse_private V) (\<lambda>k. PrivateKey_update (\<lambda>_. k)) p) (\<lambda>p.
     followed_by (read_key V ''./jwt_key.pem'' (parse_private V) (\<lambda>k. JwtKey_update (\<lambda>_. k)) p)
       (read_key V ''./jwt_key.pub'' (parse_public V) (\<lambda>k. JwtParseKey_update (\<lambda>_. k))))"

subsection \<open>Services\<close>

definition has_bucket :: "string \<Rightarrow> 'k globals \<Rightarrow> bool" where
  "has_bucket b p \<longleftrightarrow> b \<in> fst ` set (buckets p)"

text \<open>\<open>MakeBucket\<close> and \<open>SetBucketLifecycle\<close>, whose errors are dropped.\<close>

definition MakeBucket :: "'k startup_env \<Rightarrow> string \<Rightarrow> 'k globals \<Rightarrow> 'k globals" where
  "MakeBucket V b p = (if make_bucket V b then p\<lparr>buckets := buckets p @ [(b, None)]\<rparr> else p)"

definition SetBucketLifecycle :: "'k startup_env \<Rightarrow> string \<Rightarrow> int \<Rightarrow> 'k globals \<Rightarrow> 'k globals" where
  "SetBucketLifecycle V b days p =
     (if set_lifecycle V b then p\<lparr>buckets := map (\<lambda>(b', d). (b', if b' = b then Some days else d)) (buckets p)\<rparr> else p)"

definition init_buckets :: "'k startup_env \<Rightarrow> 'k globals \<Rightarrow> 'k globals startup" where
  "init_buckets V p =
     followed_by (HandleFatalError (minio_new V) (p\<lparr>MinIOClient := (if minio_new V = None then Some (MinIO (Config p)) else None)\<rparr>)) (\<lambda>p.
     followed_by (HandleFatalError (bucket_error V ''audio'') p) (\<lambda>p.
       let p = (if has_bucket ''audio'' p then p else MakeBucket V ''audio'' p)
       in followed_by (HandleFatalError (bucket_error V ''audio-expire'') p) (\<lambda>p.
          Running (if has_bucket ''audio-expire'' p then p
            else SetBucketLifecycle V ''audio-expire'' 1 (MakeBucket V ''audio-expire'' p)))))"

definition init_clients :: "'k startup_env \<Rightarrow> 'k globals \<Rightarrow> 'k globals startup" where
  "init_clients V p =
     HandleFatalError (create_session V) (p\<lparr>RedisClient := Some ''127.0.0.1:6379'',
       DbSession := (if create_session V = None then Some ''projecthdb'' else None)\<rparr>)"

text \<open>\<open>CREATE TABLE IF NOT EXISTS\<close>: an error, no change, or the table.\<close>

definition has_table :: "string \<Rightarrow> 'k globals \<Rightarrow> bool" where
  "has_table name p \<longleftrightarrow> name \<in> tb_name ` set (tables p)"

definition create_table :: "'k startup_env \<Rightarrow> table_schema \<Rightarrow> 'k globals \<Rightarrow> err \<times> 'k globals" where
  "create_table V tb p =
     (case create_error V (tb_name tb) of
        Some e \<Rightarrow> (Some e, p)
      | None \<Rightarrow> (None, if has_table (tb_name tb) p then p else p\<lparr>tables := tables p @ [tb]\<rparr>))"

definition must_create :: "'k startup_env \<Rightarrow> table_schema \<Rightarrow> 'k globals \<Rightarrow> 'k globals startup" where
  "must_create V tb p = (case create_table V tb p of (err, p1) \<Rightarrow> HandleFatalError err p1)"

text \<open>The error of \<open>chains_users\<close> is overwritten by the next statement's before anything looks at it.\<close>

definition init_tables :: "'k startup_env \<Rightarrow> 'k globals \<Rightarrow> 'k globals startup" where
  "init_tables V p =
     followed_by (must_create V create_users p) (\<lambda>p.
     followed_by (must_create V create_users_private p) (\<lambda>p.
     followed_by (must_create V create_users_public p) (\<lambda>p.
     followed_by (must_create V create_user_relations p) (\<lambda>p.
       must_create V create_chains (snd (create_table V create_chains_users p))))))"

definition init :: "'k startup_env \<Rightarrow> 'k globals \<Rightarrow> 'k globals startup" where
  "init V p =
     followed_by (init_logs V p) (\<lambda>p. followed_by (init_config V p) (\<lambda>p. followed_by (init_keys V p) (\<lambda>p.
     followed_by (init_buckets V p) (\<lambda>p. followed_by (init_clients V p) (init_tables V)))))"

subsection \<open>The main function\<close>

text \<open>A server: the globals, both router links with their goroutines, and the routes.\<close>

record 'k server =
  sv_globals :: "'k globals"
  sv_socket :: "(link \<times> link_frame list list) option"
  sv_api :: "(link \<times> link_frame list list) option"
  sv_routes :: "route list"
  sv_port :: "string option"

definition no_server :: "'k globals \<Rightarrow> 'k server" where
  "no_server p = \<lparr>sv_globals = p, sv_socket = None, sv_api = None, sv_routes = [], sv_port = None\<rparr>"

text \<open>\<open>InitializeSocketConn\<close> and \<open>InitializeApiConn\<close> open their logs first.\<close>

definition start_socket :: "'k startup_env \<Rightarrow> 'k server \<Rightarrow> 'k server startup" where
  "start_socket V sv =
     followed_by (HandleFatalError (open_file V ''socket_logs.txt'') sv) (\<lambda>sv.
     followed_by (HandleFatalError (open_file V ''websocket_logs.txt'') sv) (\<lambda>sv.
       Running (sv\<lparr>sv_socket := Some InitializeSocketConn\<rparr>)))"

definition start_api :: "'k startup_env \<Rightarrow> 'k server \<Rightarrow> 'k server startup" where
  "start_api V sv =
     followed_by (HandleFatalError (open_file V ''api_logs.txt'') sv) (\<lambda>sv. Running (sv\<lparr>sv_api := Some InitializeApiConn\<rparr>))"

text \<open>What the handlers read of the configuration: the version in the paths and the mail account.\<close>

definition configured :: "json_config \<Rightarrow> site \<Rightarrow> site" where
  "configured cfg S = S\<lparr>version := Version cfg,
     accounts := (accounts S)\<lparr>email_from := EmailFrom cfg, smtp := SMTP cfg\<rparr>\<rparr>"

text \<open>\<open>Listen\<close> serves until it fails. Then \<open>log.Fatal\<close> exits the process, before any deferred call.\<close>

definition main :: "'k startup_env \<Rightarrow> site \<Rightarrow> 'k globals \<Rightarrow> 'k server startup" where
  "main V S p =
     followed_by (start_socket V (no_server p)) (\<lambda>sv. followed_by (start_api V sv) (\<lambda>sv.
       let cfg = Config (sv_globals sv);
           sv = sv\<lparr>sv_routes := SetRoutes (configured cfg S), sv_port := Some (Port cfg)\<rparr>
       in case listen_error V of None \<Rightarrow> Running sv | Some e \<Rightarrow> Exited e sv))"

definition process :: "'k startup_env \<Rightarrow> site \<Rightarrow> 'k globals \<Rightarrow> 'k server startup" where
  "process V S p = start_then (init V p) (main V S) no_server"

subsection \<open>What a start that gets through has done\<close>

lemma followed_by_Running: "start_then m f up = Running q \<longleftrightarrow> (\<exists>p. m = Running p \<and> f p = Running q)"
  by (cases m) simp_all

lemma HandleFatalError_Running [simp]: "HandleFatalError err p = Running q \<longleftrightarrow> err = None \<and> q = p"
  by (auto simp: HandleFatalError_def split: option.split)

lemma must_read_Running: "must_read V name p f = Running q \<longleftrightarrow> (\<exists>data. read_file V name = Inl data \<and> f data = Running q)"
  by (auto simp: must_read_def split: sum.split)

lemma read_key_Running: "read_key V name parse store p = Running q \<longleftrightarrow>
    (\<exists>data block. read_file V name = Inl data \<and> pem_decode V data = Some block \<and> q = store (parse block) p)"
  by (auto simp: read_key_def must_read_Running split: option.split)

lemmas start_simps = followed_by_Running must_read_Running read_key_Running Let_def

text \<open>The tables of a keyspace after one more \<open>CREATE TABLE\<close>.\<close>

definition with_table :: "'k startup_env \<Rightarrow> table_schema \<Rightarrow> table_schema list \<Rightarrow> table_schema list" where
  "with_table V tb ts = (if create_error V (tb_name tb) = None \<and> tb_name tb \<notin> tb_name ` set ts then ts @ [tb] else ts)"

lemma create_table_tables: "create_table V tb p = (create_error V (tb_name tb), p\<lparr>tables := with_table V tb (tables p)\<rparr>)"
  by (simp add: create_table_def with_table_def has_table_def split: option.split)

lemma must_create_Running: "must_create V tb p = Running q \<longleftrightarrow>
    create_error V (tb_name tb) = None \<and> q = p\<lparr>tables := with_table V tb (tables p)\<rparr>"
  by (auto simp: must_create_def create_table_tables)

lemma init_tables_Running:
  assumes "init_tables V p = Running q"
  shows "\<forall>tb\<in>set all_tables. tb_name tb \<noteq> ''chains_users'' \<longrightarrow> create_error V (tb_name tb) = None"
    and "q = p\<lparr>tables := fold (with_table V) all_tables (tables p)\<rparr>"
  using assms by (auto simp: init_tables_def start_simps must_create_Running create_table_tables all_tables_def)
    (simp_all add: table_defs)

end
