(* ===== verification/Route_Commands.thy ===== *)
theory Route_Commands imports Routes_Props Relations_System Schema "HOL-Library.Sublist" begin

text \<open>
  The commands a request can issue, whatever it is and whatever succeeds: the ordinary ones, which
  neither enter an account nor choose a chain, then possibly the beginning of a verification or of an
  acceptance. From this follow the statements that fit the tables.
\<close>

subsection \<open>Ordinary commands\<close>

fun ordinary :: "command \<Rightarrow> bool" where
  "ordinary (UpdateRelation u x y) \<longleftrightarrow> u_chain_id u = Unset"
| "ordinary (InsertMessage ch cr m u x ty d du) \<longleftrightarrow> ty = 0 \<and> du \<le> 300030"
| "ordinary (InsertChainUsers ch us t) \<longleftrightarrow> False"
| "ordinary (InsertUserPublic n u) \<longleftrightarrow> False"
| "ordinary (InsertUser e u h t n) \<longleftrightarrow> False"
| "ordinary (InsertUserPrivate u n) \<longleftrightarrow> False"
| "ordinary cmd \<longleftrightarrow> True"

definition issues :: "srv \<Rightarrow> srv \<Rightarrow> bool" where
  "issues c c' \<longleftrightarrow> (\<exists>cmds. commands c' = commands c @ cmds \<and> list_all ordinary cmds)"

lemma issues_same: "commands c' = commands c \<Longrightarrow> issues c c'"
  by (simp add: issues_def)

lemma issues_append: "commands c' = commands c @ cmds \<Longrightarrow> list_all ordinary cmds \<Longrightarrow> issues c c'"
  by (auto simp: issues_def)

lemma issues_trans: "issues a b \<Longrightarrow> issues b c \<Longrightarrow> issues a c"
  by (auto simp: issues_def)

lemma refreshes_ordinary: "refreshes cmd \<Longrightarrow> ordinary cmd"
  by (auto simp: refreshes_def)

subsection \<open>The handlers\<close>

lemma reads_frame [simp]:
  "commands (snd (GetUsernameByID E r c)) = commands c" "commands (snd (CheckExistingRelationChain E u r c)) = commands c"
  "commands (snd (ParseParamMessageUUID E req c)) = commands c" "commands (snd (ParseParamChainUUID E req c)) = commands c"
  by (simp_all add: GetUsernameByID_def CheckExistingRelationChain_def ParseParamMessageUUID_def ParseParamChainUUID_def
      case_prod_beta split: query.split option.split)

lemma request_issues: "RequestRelation E req c = Done (err, c') \<Longrightarrow> issues c c'"
  by (auto simp: RequestRelation_def and_then_Done_iff exec_def Let_def request_update_def case_prod_beta issues_def
      dest!: send_commands helper_commands split: if_splits)

lemma remove_issues: "RemoveRelation E req c = Done (err, c') \<Longrightarrow> issues c c'"
  by (auto simp: RemoveRelation_def and_then_Done_iff exec_def Let_def remove_update_def no_update_def case_prod_beta
      issues_def dest!: send_commands helper_commands split: if_splits)

lemma store_audio_issues: "store_audio E u ch v d du x c = Done (err, c') \<Longrightarrow> du \<le> 300030 \<Longrightarrow> issues c c'"
  by (auto simp: store_audio_def and_then_Done_iff exec_def Let_def no_update_def case_prod_beta issues_def
      dest!: send_commands helper_commands split: if_splits)

text \<open>Whatever a handler ends with, it has issued ordinary commands only.\<close>

definition ends_ordinary :: "srv \<Rightarrow> (err \<times> srv) outcome \<Rightarrow> bool" where
  "ends_ordinary c m \<longleftrightarrow> (\<forall>err c'. m = Done (err, c') \<longrightarrow> issues c c')"

lemma ends_ordinary_and_then: "(\<And>x. m = Done x \<Longrightarrow> ends_ordinary c (f x)) \<Longrightarrow> ends_ordinary c (and_then m f)"
  by (auto simp: ends_ordinary_def and_then_Done_iff)

lemma ends_ordinary_Done: "ends_ordinary c (Done (err, c')) \<longleftrightarrow> issues c c'"
  by (simp add: ends_ordinary_def)

lemma ends_ordinary_helper [simp]:
  "ends_ordinary c (Done (HandleInternalError enc p c))" "ends_ordinary c (Done (HandleBadRequestError enc p d c))"
  "ends_ordinary c (Done (HandleInvalidRequestError enc p d c))" "ends_ordinary c (Done (c_json enc r c))"
  "ends_ordinary c (Done (OKResponse enc c))" "ends_ordinary c (Done (err, c))"
  by (auto simp: ends_ordinary_def intro: issues_same dest: helper_commands)

lemma audio_issues: "AddAudioMessage E form c = Done (err, c') \<Longrightarrow> issues c c'"
proof -
  have store: "ends_ordinary c (store_audio E u ch v d du x c)" if "du \<le> 300030" for u ch v d du x
    using that store_audio_issues by (auto simp: ends_ordinary_def)
  have "ends_ordinary c (AddAudioMessage E form c)"
    unfolding AddAudioMessage_def Let_def
    by (auto intro!: ends_ordinary_and_then store split: option.split if_split prod.split)
  then show "AddAudioMessage E form c = Done (err, c') \<Longrightarrow> issues c c'" by (auto simp: ends_ordinary_def)
qed

lemma mark_seen_issues: "issues c (mark_seen E u ch m c)"
  by (auto simp: mark_seen_def exec_def HandleComplexError_def case_prod_beta issues_def)

lemma get_audio_issues: "GetAudioMessage E req c = Done (err, c') \<Longrightarrow> issues c c'"
  using mark_seen_issues [of "snd (ParseParamMessageUUID E req c)"]
  by (auto simp: GetAudioMessage_def and_then_Done_iff Let_def case_prod_beta issues_def
      dest!: helper_commands split: if_splits)

lemma ends_ordinary_after: "ends_ordinary c1 m \<Longrightarrow> issues c c1 \<Longrightarrow> ends_ordinary c m"
  by (auto simp: ends_ordinary_def intro: issues_trans)

lemma ends_ordinary_with_body: "(\<And>req. ends_ordinary c (h req)) \<Longrightarrow> ends_ordinary c (with_body E parsed check c h)"
  by (auto simp: with_body_def HandleBadJsonError_def HandleValidatorError_def split: option.split list.split)

lemma only_refreshes_issues: "only_refreshes c c' \<Longrightarrow> issues c c'"
  unfolding only_refreshes_def issues_def by (metis list.pred_mono_strong refreshes_ordinary)

lemma no_effect_issues: "no_effect c c' \<Longrightarrow> issues c c'"
  by (simp add: no_effect_def issues_same)

lemma decrypt_issues: "DecryptRequestPasswordHash E enc c = Done ((pw, err), c') \<Longrightarrow> commands c' = commands c"
  by (rule decrypt_cases [of "\<lambda>r. r = Done ((pw, err), c') \<longrightarrow> commands c' = commands c", THEN mp]) auto

lemma ends_ordinary_decrypt:
  assumes "\<And>pw err c1. commands c1 = commands c \<Longrightarrow> ends_ordinary c (f ((pw, err), c1))"
  shows "ends_ordinary c (and_then (DecryptRequestPasswordHash E enc c) f)"
  by (rule ends_ordinary_and_then) (use assms decrypt_issues in force)

lemma mail_issues: "issues c (SendVerifEmail E email code c)"
  by (auto simp: issues_def)

lemma store_registration_issues: "store_registration E email entries c = (r, c') \<Longrightarrow> issues c c'"
  by (auto simp: store_registration_def Let_def issues_def case_prod_beta dest: helper_commands split: if_splits prod.splits)

lemma register_new_issues: "ends_ordinary c (register_new E req c)"
proof -
  have tail: "ends_ordinary c (case store_registration E email entries c1 of
      ((redisError, err), c2) \<Rightarrow>
        if err \<noteq> None then Done (HandleInternalError (encodes E) ''pipeline'' c2)
        else if redisError then Done (err, c2)
        else Done (OKResponse (encodes E) (SendVerifEmail E email code c2)))" if "commands c1 = commands c" for email entries code c1
  proof -
    obtain re err c2 where s: "store_registration E email entries c1 = ((re, err), c2)" by (metis prod.collapse)
    have i: "issues c c2" using store_registration_issues [OF s] that by (simp add: issues_def)
    moreover have "issues c (SendVerifEmail E email code c2)" using i mail_issues by (rule issues_trans)
    ultimately show ?thesis
      by (auto simp: s ends_ordinary_Done intro: ends_ordinary_after [OF ends_ordinary_helper(1)] ends_ordinary_after [OF ends_ordinary_helper(5)])
  qed
  have rest: "ends_ordinary c (if password = [] then Done (err, c1) else case bcrypt_generate E password of
      None \<Rightarrow> Done (HandleInternalError (encodes E) ''password'' c1)
    | Some hash \<Rightarrow> (case store_registration E email (entries hash) c1 of
      ((redisError, err), c2) \<Rightarrow>
        if err \<noteq> None then Done (HandleInternalError (encodes E) ''pipeline'' c2)
        else if redisError then Done (err, c2)
        else Done (OKResponse (encodes E) (SendVerifEmail E email code c2))))"
    if "commands c1 = commands c" for password err email entries code c1
    using tail [OF that] that
    by (cases "bcrypt_generate E password")
      (auto simp: ends_ordinary_Done intro: issues_same ends_ordinary_after [OF ends_ordinary_helper(1) issues_same])
  show ?thesis
  proof (cases "RandomTokenString (rand E) 3")
    case (Some code)
    show ?thesis
      unfolding register_new_def Some option.case Let_def by (rule ends_ordinary_decrypt) (simp only: prod.case, rule rest)
  qed (simp add: register_new_def)
qed

lemma account_issues:
  "Register E parsed check c = Done (err, c') \<Longrightarrow> issues c c'"
  "ResendVerification E parsed' check' c = Done (err, c') \<Longrightarrow> issues c c'"
  "Test_handler E parsed'' check'' c = Done (err, c') \<Longrightarrow> issues c c'"
proof -
  have "ends_ordinary c (Register E parsed check c)"
    unfolding Register_def
    by (auto intro!: ends_ordinary_with_body register_new_issues split: option.split if_split)
  then show "Register E parsed check c = Done (err, c') \<Longrightarrow> issues c c'" by (simp add: ends_ordinary_def)
  have "ends_ordinary c (ResendVerification E parsed' check' c)"
    unfolding ResendVerification_def Let_def
    by (auto intro!: ends_ordinary_with_body ends_ordinary_after [OF ends_ordinary_helper(5) mail_issues] split: redis_reply.split)
  then show "ResendVerification E parsed' check' c = Done (err, c') \<Longrightarrow> issues c c'" by (simp add: ends_ordinary_def)
  have "ends_ordinary c (Test_handler E parsed'' check'' c)"
    unfolding Test_handler_def by (auto intro!: ends_ordinary_with_body)
  then show "Test_handler E parsed'' check'' c = Done (err, c') \<Longrightarrow> issues c c'" by (simp add: ends_ordinary_def)
qed

lemma login_issues: "Login E ip parsed check c = Done (err, c') \<Longrightarrow> issues c c'"
proof -
  have tokens: "ends_ordinary c (case GenerateAndRefreshTokens E ip u s n c1 of (err, c2) \<Rightarrow>
      if err \<noteq> None then Done (err, c2) else Done (c_json (encodes E) (SessionBody s) c2))"
    if "commands c1 = commands c" for u s n c1
  proof -
    obtain e c2 where t: "GenerateAndRefreshTokens E ip u s n c1 = (e, c2)" by fastforce
    then have "issues c c2"
      using only_refreshes_issues [OF tokens_effect [of c1 E ip u s n]] that by (simp add: issues_def)
    then show ?thesis by (auto simp: t ends_ordinary_Done intro: ends_ordinary_after [OF ends_ordinary_helper(4)])
  qed
  have after: "ends_ordinary c (if password = [] then Done (err, c1)
      else if \<not> bcrypt_matches E h password then Done (HandleInvalidRequestError (encodes E) ''Password'' ''invalid'' c1)
      else case RandomTokenString (rand E) 20 of
        None \<Rightarrow> Done (Some ''rand'', c1)
      | Some sessionID \<Rightarrow> (case GenerateAndRefreshTokens E ip u sessionID n c1 of (err, c2) \<Rightarrow>
          if err \<noteq> None then Done (err, c2) else Done (c_json (encodes E) (SessionBody sessionID) c2)))"
    if same: "commands c1 = commands c" for password err c1 h u n
    using tokens [OF same] issues_same [OF same]
    by (cases "RandomTokenString (rand E) 20")
      (auto simp: ends_ordinary_Done intro: ends_ordinary_after [OF ends_ordinary_helper(3)])
  have "ends_ordinary c (Login E ip parsed check c)"
    unfolding Login_def
  proof (rule ends_ordinary_with_body)
    fix req
    show "ends_ordinary c (case user_by_email E (to_lower (ls_Email req)) of
       NotFound \<Rightarrow> Done (HandleInvalidRequestError (encodes E) ''Email'' ''invalid'' c)
     | QueryFails \<Rightarrow> Done (HandleInternalError (encodes E) ''users'' c)
     | Row user \<Rightarrow>
         and_then (DecryptRequestPasswordHash E (ls_EncPasswordHash req) c) (\<lambda>((password, err), c1).
           if password = [] then Done (err, c1)
           else if \<not> bcrypt_matches E (ur_password_hash user) password
           then Done (HandleInvalidRequestError (encodes E) ''Password'' ''invalid'' c1)
           else case RandomTokenString (rand E) 20 of
             None \<Rightarrow> Done (Some ''rand'', c1)
           | Some sessionID \<Rightarrow>
               (case GenerateAndRefreshTokens E ip (ur_user_id user) sessionID (ur_username user) c1 of (err, c2) \<Rightarrow>
                if err \<noteq> None then Done (err, c2)
                else Done (c_json (encodes E) (SessionBody sessionID) c2))))"
    proof (cases "user_by_email E (to_lower (ls_Email req))")
      case (Row user)
      show ?thesis
        unfolding Row query.case by (rule ends_ordinary_decrypt) (simp only: prod.case, rule after)
    qed simp_all
  qed
  then show "Login E ip parsed check c = Done (err, c') \<Longrightarrow> issues c c'" by (simp add: ends_ordinary_def)
qed

lemma query_issues:
  "GetAllRelations E c = Done (err, c') \<Longrightarrow> issues c c'"
  "GetChain F req c = Done (err, c') \<Longrightarrow> issues c c'"
  "Initialize G c = Done (err, c') \<Longrightarrow> issues c c'"
  "UserByUsername G req c = (err, c') \<Longrightarrow> issues c c'"
proof -
  have "ends_ordinary c (GetAllRelations E c)"
    unfolding GetAllRelations_def by (auto intro!: ends_ordinary_and_then split: option.split)
  then show "GetAllRelations E c = Done (err, c') \<Longrightarrow> issues c c'" by (simp add: ends_ordinary_def)
  have "ends_ordinary c (GetChain F req c)"
    unfolding GetChain_def Let_def by (auto intro!: ends_ordinary_and_then split: option.split)
  then show "GetChain F req c = Done (err, c') \<Longrightarrow> issues c c'" by (simp add: ends_ordinary_def)
  have "ends_ordinary c (Initialize G c)"
    unfolding Initialize_def by (auto intro!: ends_ordinary_and_then split: option.split query.split)
  then show "Initialize G c = Done (err, c') \<Longrightarrow> issues c c'" by (simp add: ends_ordinary_def)
  have "ends_ordinary c (Done (UserByUsername G req c))"
    by (auto simp: UserByUsername_def Let_def split: query.split)
  then show "UserByUsername G req c = (err, c') \<Longrightarrow> issues c c'" by (simp add: ends_ordinary_def)
qed

lemma middleware_issues:
  "Authenticate E req c = Done (err, c') \<Longrightarrow> issues c c'"
  "ChainRequestMiddleware F req c = Done (err, c') \<Longrightarrow> issues c c'"
  "InitializeSocket enc upgrade c = (err, c') \<Longrightarrow> issues c c'"
  by (auto simp: InitializeSocket_def dest: Authenticate_effect ChainRequestMiddleware_cases only_refreshes_issues
      no_effect_issues helper_commands intro: issues_same split: if_splits)

subsection \<open>Acceptances and verifications\<close>

text \<open>The commands of an acceptance, from the \<open>n\<close>-th of its request on: entering a new chain for both users,
  or none when the row of the user has one, then both rows. A row is written only after the one before;
  a failure to enter the chain, which is answered but returns nil, does not stop the acceptance.\<close>

definition accepting :: "'e server_env_scheme \<Rightarrow> nat \<Rightarrow> command list \<Rightarrow> bool" where
  "accepting E n cmds \<longleftrightarrow> (\<exists>u r ch pre.
     prefix cmds (pre @ [UpdateRelation (accept_update ch (now_ms E)) u r, UpdateRelation (accept_update ch (now_ms E)) r u])
     \<and> (\<forall>i. Suc i < length cmds \<and> (\<exists>v x y. cmds ! i = UpdateRelation v x y) \<longrightarrow> exec_ok E (n + i))
     \<and> (pre = [] \<and> chain_of E u r = Row ch \<and> \<not> uuid_zero_time E ch \<or> pre = [InsertChainUsers ch [u, r] (now_ms E)] \<and> ch = time_uuid E))"

text \<open>The commands of a verification: the public name if it is free, then the account, then the private row.\<close>

definition verifying :: "'e account_env_scheme \<Rightarrow> nat \<Rightarrow> command list \<Rightarrow> bool" where
  "verifying E n cmds \<longleftrightarrow> (\<exists>email hash name.
     prefix cmds [InsertUserPublic name (time_uuid E), InsertUser email (time_uuid E) hash (now_ms E) name,
       InsertUserPrivate (time_uuid E) name]
     \<and> (1 < length cmds \<longrightarrow> cas_applied E name = Some True) \<and> (2 < length cmds \<longrightarrow> exec_ok E (n + 1)))"

lemma helper_passed:
  "HandleInternalError enc p c = (e, c') \<Longrightarrow> passed c' = passed c"
  "HandleBadRequestError enc p d c = (e, c') \<Longrightarrow> passed c' = passed c"
  "HandleInvalidRequestError enc p d c = (e, c') \<Longrightarrow> passed c' = passed c"
  "c_json enc r c = (e, c') \<Longrightarrow> passed c' = passed c"
  "OKResponse enc c = (e, c') \<Longrightarrow> passed c' = passed c"
  by (auto simp: http_helpers split: if_splits)

lemma send_passed: "send_payload E op t atomic d c = Done (err, c') \<Longrightarrow> passed c' = passed c"
  by (auto simp: send_payload_def write_router_def local_string_def outcome_simps Let_def dest: helper_passed
      split: option.splits if_splits)

lemma send_kept: "send_payload E op t atomic d c = Done (err, c') \<Longrightarrow> commands c' = commands c \<and> passed c' = passed c"
  using send_payload_commands send_passed by blast

lemma helper_kept:
  "HandleInternalError enc p c = (e, c') \<Longrightarrow> commands c' = commands c \<and> passed (c' :: srv) = passed c"
  "HandleBadRequestError enc p d c = (e, c') \<Longrightarrow> commands c' = commands c \<and> passed (c' :: srv) = passed c"
  "HandleInvalidRequestError enc p d c = (e, c') \<Longrightarrow> commands c' = commands c \<and> passed (c' :: srv) = passed c"
  "c_json enc r c = (e, c') \<Longrightarrow> commands c' = commands c \<and> passed (c' :: srv) = passed c"
  "OKResponse enc c = (e, c') \<Longrightarrow> commands c' = commands c \<and> passed (c' :: srv) = passed c"
  by (auto dest: helper_commands helper_passed)

lemma accept_with_chain_issues:
  assumes "accept_with_chain E ch u r c = Done (err, c')"
  shows "passed c' = passed c \<and> (\<exists>k. commands c' = commands c @ take k [UpdateRelation (accept_update ch (now_ms E)) u r,
      UpdateRelation (accept_update ch (now_ms E)) r u] \<and> (1 < k \<longrightarrow> exec_ok E (length (commands c))))"
proof (cases "exec_ok E (length (commands c))")
  case True
  then have "passed c' = passed c \<and> commands c' = commands c @ [UpdateRelation (accept_update ch (now_ms E)) u r,
      UpdateRelation (accept_update ch (now_ms E)) r u]"
    using assms by (auto simp: accept_with_chain_def and_then_Done_iff exec_def Let_def FriendAccepted_def
        dest!: send_kept helper_kept split: if_splits)
  with True show ?thesis by (intro conjI exI [of _ 2]) auto
next
  case False
  then have "passed c' = passed c \<and> commands c' = commands c @ [UpdateRelation (accept_update ch (now_ms E)) u r]"
    using assms by (auto simp: accept_with_chain_def exec_def Let_def dest!: helper_kept)
  then show ?thesis by (intro conjI exI [of _ 1]) auto
qed

lemma acceptingI:
  assumes "cmds = take k (pre @ [UpdateRelation (accept_update ch (now_ms E)) u r, UpdateRelation (accept_update ch (now_ms E)) r u])"
    and "\<And>i v x y. Suc i < length cmds \<Longrightarrow> cmds ! i = UpdateRelation v x y \<Longrightarrow> exec_ok E (n + i)"
    and "pre = [] \<and> chain_of E u r = Row ch \<and> \<not> uuid_zero_time E ch \<or> pre = [InsertChainUsers ch [u, r] (now_ms E)] \<and> ch = time_uuid E"
  shows "accepting E n cmds"
  using assms unfolding accepting_def by (metis take_is_prefix)

lemma accepting_nothing [simp]: "accepting E n []"
  by (rule acceptingI [of _ 0 "[InsertChainUsers (time_uuid E) [u, r] (now_ms E)]" "time_uuid E" _ u r]) simp_all

text \<open>An acceptance ends its request, and has issued nothing or the beginning of an acceptance.\<close>

lemma accept_issues:
  assumes "AcceptRelation E req c = Done (err, c')" and "\<not> passed c"
  shows "\<not> passed c' \<and> (\<exists>cmds. commands c' = commands c @ cmds \<and> accepting E (length (commands c)) cmds)"
proof -
  let ?r = "path_param req ''relationID''"
  obtain u where u: "local_string ''userid'' c = Done u"
    using assms(1) by (auto simp: AcceptRelation_def and_then_Done_iff)
  obtain ch valid e c1 where k: "CheckExistingRelationChain E u ?r c = ((ch, valid, e), c1)"
    by (metis prod.collapse)
  have keep: "commands c1 = commands c" "passed c1 = passed c"
    using k by (auto simp: CheckExistingRelationChain_def case_prod_beta dest: helper_commands helper_passed split: query.splits if_splits)
  consider "e \<noteq> None" | "e = None" valid | "e = None" "\<not> valid" by blast
  then show ?thesis
  proof cases
    case 1
    then have "c' = c1" using assms(1) k u by (simp add: AcceptRelation_def outcome_simps)
    then show ?thesis using keep assms(2) accepting_nothing by (intro conjI exI [of _ "[]"]) simp_all
  next
    case 2
    then have row: "chain_of E u ?r = Row ch \<and> \<not> uuid_zero_time E ch"
      using k by (auto simp: CheckExistingRelationChain_def case_prod_beta split: query.splits if_splits)
    from 2 have "accept_with_chain E ch u ?r c1 = Done (err, c')" using assms k u by (simp add: AcceptRelation_def outcome_simps)
    from accept_with_chain_issues [OF this] obtain k where p: "passed c' = passed c1"
      and cmds: "commands c' = commands c1 @ take k [UpdateRelation (accept_update ch (now_ms E)) u ?r,
        UpdateRelation (accept_update ch (now_ms E)) ?r u]" and ok: "1 < k \<longrightarrow> exec_ok E (length (commands c1))" by blast
    have "accepting E (length (commands c)) (take k [UpdateRelation (accept_update ch (now_ms E)) u ?r,
        UpdateRelation (accept_update ch (now_ms E)) ?r u])"
      using ok row keep by (intro acceptingI [of _ k "[]" ch _ u ?r]) (auto simp: less_Suc_eq)
    with p cmds keep assms(2) show ?thesis by auto
  next
    case 3
    let ?ins = "InsertChainUsers (time_uuid E) [u, ?r] (now_ms E)"
    let ?rows = "[UpdateRelation (accept_update (time_uuid E) (now_ms E)) u ?r,
        UpdateRelation (accept_update (time_uuid E) (now_ms E)) ?r u]"
    obtain x c2 where ins: "InsertChainsUsers E (time_uuid E) [u, ?r] c1 = (x, c2)" by fastforce
    then have c2: "commands c2 = commands c @ [?ins]" "passed c2 = passed c"
      using keep by (auto simp: InsertChainsUsers_def exec_def Let_def dest!: helper_kept split: if_splits)
    obtain k where k1: "commands c' = commands c @ ?ins # take k ?rows" and p: "\<not> passed c'"
      and ok: "1 < k \<longrightarrow> exec_ok E (length (commands c) + 1)"
    proof (cases "x = None")
      case True
      then have "accept_with_chain E (time_uuid E) u ?r c2 = Done (err, c')"
        using assms(1) k u 3 ins by (simp add: AcceptRelation_def outcome_simps Let_def)
      from accept_with_chain_issues [OF this] c2 assms(2) that show ?thesis by auto
    next
      case False
      then have "c' = c2" using assms(1) k u 3 ins by (simp add: AcceptRelation_def outcome_simps Let_def)
      then show ?thesis using c2 assms(2) that [of 0] by simp
    qed
    have told: "exec_ok E (length (commands c) + i)" if "Suc i < length (?ins # take k ?rows)"
        "(?ins # take k ?rows) ! i = UpdateRelation v x y" for i v x y
    proof -
      from that have "i = 1" by (cases i) auto
      with that(1) ok show ?thesis by auto
    qed
    have "accepting E (length (commands c)) (?ins # take k ?rows)"
      by (rule acceptingI [of _ "Suc k" "[?ins]" "time_uuid E" _ u ?r, OF _ told]) simp_all
    with p k1 show ?thesis by auto
  qed
qed

lemma verifyingI:
  assumes "cmds = take k [InsertUserPublic name (time_uuid E), InsertUser email (time_uuid E) hash (now_ms E) name,
      InsertUserPrivate (time_uuid E) name]"
    and "1 < k \<Longrightarrow> cas_applied E name = Some True" and "2 < k \<Longrightarrow> exec_ok E (n + 1)"
  shows "verifying E n cmds"
proof -
  have "prefix cmds [InsertUserPublic name (time_uuid E), InsertUser email (time_uuid E) hash (now_ms E) name,
      InsertUserPrivate (time_uuid E) name]" using assms(1) by (metis take_is_prefix)
  moreover have "1 < length cmds \<longrightarrow> 1 < k" "2 < length cmds \<longrightarrow> 2 < k" using assms(1) by auto
  ultimately show ?thesis using assms(2,3) unfolding verifying_def by blast
qed

lemma verifying_nothing [simp]: "verifying E n []"
  by (rule verifyingI [of _ 0 name]) simp_all

lemma verify_issues:
  assumes "VerifyEmail E parsed check c = Done (err, c')" and "\<not> passed c"
  shows "\<not> passed c' \<and> (\<exists>cmds. commands c' = commands c @ cmds \<and> verifying E (length (commands c)) cmds)"
proof -
  have none: ?thesis if "commands c' = commands c" "passed c' = passed c" using that assms(2) by simp
  have first: "verifying E n [InsertUserPublic name (time_uuid E)]" for n name
    by (rule verifyingI [of _ 1 name]) simp_all
  have two: "verifying E n [InsertUserPublic name (time_uuid E), InsertUser email (time_uuid E) hash (now_ms E) name]"
    if "cas_applied E name = Some True" for n name email hash
    by (rule verifyingI [of _ 2 name]) (use that in simp_all)
  have three: "verifying E n [InsertUserPublic name (time_uuid E), InsertUser email (time_uuid E) hash (now_ms E) name,
      InsertUserPrivate (time_uuid E) name]" if "cas_applied E name = Some True" "exec_ok E (Suc n)" for n name email hash
    by (rule verifyingI [of _ 3 name]) (use that in simp_all)
  show ?thesis
  proof (cases "\<exists>req. parsed = Some req \<and> check req = [] \<and> (\<exists>res. redis_hgetall E (''verifying:'' @ to_lower (ve_Email req)) = Reply res
      \<and> field res ''code'' = ve_Code req)")
    case False
    then show ?thesis
      using assms(1) by (intro none) (auto simp: VerifyEmail_def with_body_def HandleBadJsonError_def HandleValidatorError_def Let_def
          dest: helper_commands helper_passed split: option.splits list.splits redis_reply.splits if_splits)
  next
    case True
    then obtain req res where req: "parsed = Some req" "check req = []"
      "redis_hgetall E (''verifying:'' @ to_lower (ve_Email req)) = Reply res" "field res ''code'' = ve_Code req" by blast
    show ?thesis
      using assms req
      by (auto simp: VerifyEmail_def with_body_Some Let_def exec_def intro: first two three
          dest!: helper_kept split: option.splits if_splits)
  qed
qed

subsection \<open>A request\<close>

definition last_commands :: "site \<Rightarrow> nat \<Rightarrow> command list \<Rightarrow> bool" where
  "last_commands S n cmds \<longleftrightarrow> accepting (accounts S) n cmds \<or> verifying (accounts S) n cmds"

lemma last_commands_nothing [simp]: "last_commands S n []"
  by (simp add: last_commands_def)

definition tame :: "site \<Rightarrow> route \<Rightarrow> bool" where
  "tame S rt \<longleftrightarrow> (\<forall>r c err c'. rt_handler rt r c = Done (err, c') \<longrightarrow> \<not> passed c \<longrightarrow>
     issues c c' \<or> \<not> passed c' \<and> (\<exists>cmds. commands c' = commands c @ cmds \<and> last_commands S (length (commands c)) cmds))"

lemma walk_commands:
  assumes "list_all (tame S) rts" and "walk rts r c = Done (err, c')"
  shows "\<exists>as bs. commands c' = commands c @ as @ bs \<and> list_all ordinary as \<and> last_commands S (length (commands c @ as)) bs"
  using assms
proof (induction rts r c arbitrary: err c' rule: walk.induct)
  case (1 r c)
  then show ?case by auto
next
  case (2 rt rts r c)
  show ?case
  proof (cases "match_route rt r")
    case None
    then show ?thesis using 2 by simp
  next
    case (Some ps)
    then obtain e c1 where step: "rt_handler rt (bind_params ps r) (c\<lparr>passed := False\<rparr>) = Done (e, c1)"
      and rest: "if passed c1 then walk rts r c1 = Done (err, c') else c1 = c'"
      using "2.prems"(2) by (auto simp: and_then_Done_iff split: if_splits)
    have "tame S rt" using "2.prems"(1) by simp
    with step consider "issues (c\<lparr>passed := False\<rparr>) c1"
      | bs where "\<not> passed c1" "commands c1 = commands c @ bs" "last_commands S (length (commands c)) bs"
      unfolding tame_def by force
    then show ?thesis
    proof cases
      case 1
      then obtain as where as: "commands c1 = commands c @ as" "list_all ordinary as" by (auto simp: issues_def)
      show ?thesis
      proof (cases "passed c1")
        case True
        have "\<exists>as' bs. commands c' = commands c1 @ as' @ bs \<and> list_all ordinary as' \<and> last_commands S (length (commands c1 @ as')) bs"
          by (rule "2.IH"(2) [OF Some True]) (use rest True "2.prems"(1) in simp_all)
        then obtain as' bs where "commands c' = commands c1 @ as' @ bs" "list_all ordinary as'"
          "last_commands S (length (commands c1 @ as')) bs" by blast
        then show ?thesis using as by (intro exI [of _ "as @ as'"] exI [of _ bs]) simp
      next
        case False
        then show ?thesis using rest as by (intro exI [of _ as] exI [of _ "[]"]) simp
      qed
    next
      case 2
      then show ?thesis using rest by (intro exI [of _ "[]"] exI [of _ bs]) simp
    qed
  qed
qed

lemma SetRoutes_tame: "list_all (tame S) (SetRoutes S)"
  by (auto simp: tame_def SetRoutes_def authRoutes_def userRoutes_def relationRoutes_def userRelationRoutes_def chainRoutes_def
      userChainRoutes_def publicRoutes_def route_defs last_commands_def
      dest: account_issues login_issues query_issues middleware_issues request_issues remove_issues audio_issues get_audio_issues
      verify_issues accept_issues intro: issues_same dest: helper_commands)

text \<open>What a request issues.\<close>

lemma serve_commands:
  assumes "serve S r new_srv = Done (err, c')"
  shows "\<exists>as bs. commands c' = as @ bs \<and> list_all ordinary as \<and> last_commands S (length as) bs"
  using walk_commands [OF SetRoutes_tame assms [unfolded serve_def]] by (simp add: new_srv_def)

text \<open>What the last commands of a request can be.\<close>

lemma last_command_kinds:
  assumes "last_commands S n bs" and "cmd \<in> set bs"
  shows "(\<exists>ch u r t. cmd = UpdateRelation (accept_update ch t) u r) \<or> (\<exists>ch us t. cmd = InsertChainUsers ch us t)
    \<or> (\<exists>name uid. cmd = InsertUserPublic name uid) \<or> (\<exists>email uid hash t name. cmd = InsertUser email uid hash t name)
    \<or> (\<exists>uid name. cmd = InsertUserPrivate uid name)"
  using assms by (auto simp: last_commands_def accepting_def verifying_def dest!: set_mono_prefix)

text \<open>Every statement fits the tables, but one. Whatever the request is, whatever the queries find and
  whichever services fail, each statement it leads to names a table and columns that the process
  creates, binds values of Go types those columns take, and names the whole primary key as its kind
  requires, except for the update of \<open>last_seen\<close> behind a message that is read, which never fits, and
  for a message whose duration is below the range of an \<open>int\<close>.\<close>

theorem statements_fit_tables:
  assumes "serve S r new_srv = Done (err, c')" and "cmd \<in> set (commands c')"
  shows "command_fits all_tables cmd \<longleftrightarrow> (case cmd of UpdateLastSeenIf u ch t \<Rightarrow> False
    | InsertMessage ch created m u expires typ display duration \<Rightarrow> - (2 ^ 31) \<le> duration | _ \<Rightarrow> True)"
proof -
  obtain as bs where split: "commands c' = as @ bs" "list_all ordinary as" "last_commands S (length as) bs"
    using serve_commands [OF assms(1)] by blast
  consider "ordinary cmd" | "cmd \<in> set bs" using assms(2) split by (auto simp: list_all_iff)
  then show ?thesis
  proof cases
    case 1
    then show ?thesis
      by (cases cmd) (simp_all add: UpdateRelation_fits UpdateLastSeenIf_never_fits InsertMessage_fits SetSeen_fits other_services_fit)
  next
    case 2
    from last_command_kinds [OF split(3) this] show ?thesis
      by (auto simp: UpdateRelation_fits InsertChainUsers_fits account_rows_fit)
  qed
qed

definition verify_site :: site where
  "verify_site = demo_site\<lparr>accounts := demo_accounts\<lparr>redis_hgetall := (\<lambda>_. Reply [''code'' \<mapsto> ''C'', ''username'' \<mapsto> ''ann'',
     ''passwordhash'' \<mapsto> ''h''])\<rparr>\<rparr>"

definition verify_request :: full_request where
  "verify_request = (demo_full (relation_request '''') POST [''api'', ''v1'', ''auth'', ''verify-email''])
     \<lparr>body_verify := Some \<lparr>ve_Email = ''ann@x'', ve_Code = ''C''\<rparr>\<rparr>"

lemma serve_verify:
  assumes "segments r = [''api'', version S, ''auth'', ''verify-email'']" and "http_method r = POST"
    and "VerifyEmail (accounts S) (body_verify r) (check_verify S) (c\<lparr>passed := False\<rparr>) = Done (err, c')"
  shows "serve S r c = Done (err, c')"
proof -
  have "\<not> passed c'" using verify_issues [OF assms(3)] by simp
  then show ?thesis
    using assms by (simp add: serve_def SetRoutes_def authRoutes_def route_defs bind_params_def outcome_simps cong: if_cong)
qed

definition verify_commands :: "command list" where
  "verify_commands = [InsertUserPublic ''ann'' ''t1'', InsertUser ''ann@x'' ''t1'' ''h'' 7 ''ann'', InsertUserPrivate ''t1'' ''ann'']"

lemma demo_lower_ann: "to_lower ''ann@x'' = ''ann@x''"
  by code_simp

lemma verify_request_served:
  "\<exists>c'. serve verify_site verify_request new_srv = Done (None, c') \<and> commands c' = verify_commands"
proof -
  have "\<exists>c'. VerifyEmail (accounts verify_site) (body_verify verify_request) (check_verify verify_site) (new_srv\<lparr>passed := False\<rparr>) = Done (None, c')
      \<and> commands c' = verify_commands"
    by (simp add: verify_site_def verify_request_def demo_full_def demo_site_def demo_accounts_def server_env.extend_def demo_server_def
        VerifyEmail_def with_body_def field_def verify_commands_def now_ms_def demo_lower_ann Let_def exec_def OKResponse_def c_json_def new_srv_def)
  then obtain c' where run: "VerifyEmail (accounts verify_site) (body_verify verify_request) (check_verify verify_site) (new_srv\<lparr>passed := False\<rparr>)
      = Done (None, c')" and cmd: "commands c' = verify_commands" by blast
  have "serve verify_site verify_request new_srv = Done (None, c')"
    by (rule serve_verify [OF _ _ run]) (simp_all add: verify_site_def verify_request_def demo_full_def demo_site_def
        request.extend_def)
  then show ?thesis using cmd by blast
qed

end
