(* ===== verification/Startup_Props.thy ===== *)
theory Startup_Props imports Startup Route_Commands begin

text \<open>
  What holds of a process that got through its start: which handles are set, which tables exist, and
  whether the statements of its requests fit them.
\<close>

lemma with_table_names: "tb_name ` set (with_table V tb ts) =
    (if create_error V (tb_name tb) = None then insert (tb_name tb) (tb_name ` set ts) else tb_name ` set ts)"
  by (auto simp: with_table_def)

lemma fold_with_table_names: "tb_name ` set (fold (with_table V) tbs ts) =
    tb_name ` set ts \<union> {n \<in> tb_name ` set tbs. create_error V n = None}"
  by (induction tbs arbitrary: ts) (auto simp: with_table_names)

lemma has_table_after:
  "has_table name (p\<lparr>tables := fold (with_table V) tbs ts\<rparr>) \<longleftrightarrow>
     name \<in> tb_name ` set ts \<or> name \<in> tb_name ` set tbs \<and> create_error V name = None"
  by (auto simp: has_table_def fold_with_table_names)

lemma init_stages:
  assumes "init V p = Running q"
  obtains p1 p2 p3 p4 p5 where "init_logs V p = Running p1" "init_config V p1 = Running p2" "init_keys V p2 = Running p3"
    "init_buckets V p3 = Running p4" "init_clients V p4 = Running p5" "init_tables V p5 = Running q"
  using assms by (auto simp: init_def start_simps)

lemma init_logs_Running: "init_logs V p = Running q \<Longrightarrow>
    q = p\<lparr>InternalLogger := Some ''internal_errors.txt'', MonitorLogger := Some ''monitor_logs.txt''\<rparr>"
  by (auto simp: init_logs_def start_simps)

lemma unmarshal_Running:
  "(case x of Inl cfg \<Rightarrow> Running (f cfg) | Inr e \<Rightarrow> HandleFatalError (Some e) p) = Running q \<longleftrightarrow> (\<exists>cfg. x = Inl cfg \<and> q = f cfg)"
  by (auto split: sum.split)

lemma init_config_Running: "init_config V p = Running q \<Longrightarrow>
    \<exists>data cfg. read_file V ''./config.json'' = Inl data \<and> unmarshal_config V data = Inl cfg \<and> q = p\<lparr>Config := cfg\<rparr>"
  by (auto simp: init_config_def start_simps unmarshal_Running)

lemma init_keys_Running:
  assumes "init_keys V p = Running q"
  shows "\<exists>k1 k2 k3. q = p\<lparr>PrivateKey := k1, JwtKey := k2, JwtParseKey := k3\<rparr>
    \<and> (\<exists>d b. read_file V ''./private_key.pem'' = Inl d \<and> pem_decode V d = Some b \<and> k1 = parse_private V b)
    \<and> (\<exists>d b. read_file V ''./jwt_key.pem'' = Inl d \<and> pem_decode V d = Some b \<and> k2 = parse_private V b)
    \<and> (\<exists>d b. read_file V ''./jwt_key.pub'' = Inl d \<and> pem_decode V d = Some b \<and> k3 = parse_public V b)"
  using assms by (fastforce simp: init_keys_def start_simps)

lemma init_buckets_Running: "init_buckets V p = Running q \<Longrightarrow> \<exists>bs. q = p\<lparr>MinIOClient := Some (MinIO (Config p)), buckets := bs\<rparr>
    \<and> (buckets p = [] \<and> make_bucket V ''audio'' \<and> make_bucket V ''audio-expire'' \<and> set_lifecycle V ''audio-expire''
        \<longrightarrow> bs = [(''audio'', None), (''audio-expire'', Some 1)])"
  by (cases p) (intro exI [of _ "buckets q"], auto simp: init_buckets_def start_simps has_bucket_def MakeBucket_def
      SetBucketLifecycle_def split: if_splits)

lemma init_clients_Running: "init_clients V p = Running q \<Longrightarrow>
    q = p\<lparr>RedisClient := Some ''127.0.0.1:6379'', DbSession := Some ''projecthdb''\<rparr>"
  by (auto simp: init_clients_def start_simps)

lemma init_parsed_config:
  assumes "init V p = Running q"
  shows "\<exists>data. read_file V ''./config.json'' = Inl data \<and> unmarshal_config V data = Inl (Config q)"
  using assms
proof (rule init_stages)
  fix p1 p2 p3 p4 p5
  assume stages: "init_config V p1 = Running p2" "init_keys V p2 = Running p3" "init_buckets V p3 = Running p4"
    "init_clients V p4 = Running p5" "init_tables V p5 = Running q"
  show ?thesis
    using init_config_Running [OF stages(1)] init_keys_Running [OF stages(2)] init_buckets_Running [OF stages(3)]
      init_clients_Running [OF stages(4)] init_tables_Running(2) [OF stages(5)] by (elim exE conjE) simp
qed

subsection \<open>Properties\<close>

text \<open>C38: What a start that gets through guarantees, and what it does not. When \<open>init\<close> returns, both logs are
  open, the configuration is the parsed file and MinIO's client uses it, a session with the keyspace
  exists, and every table exists except that \<open>chains_users\<close> may be missing: it is there exactly when it
  was before or its creation succeeded, the error being dropped. Each key is what its parser made of the
  first PEM block, so that it is nil when the key is malformed. On an empty MinIO whose calls succeed the
  bucket of the audio messages deletes its objects after one day.\<close>

theorem start_prepares:
  assumes "init V p = Running q"
  shows "InternalLogger q \<noteq> None \<and> MonitorLogger q \<noteq> None \<and> DbSession q = Some ''projecthdb'' \<and> RedisClient q \<noteq> None
    \<and> (\<exists>data. read_file V ''./config.json'' = Inl data \<and> unmarshal_config V data = Inl (Config q))
    \<and> MinIOClient q = Some (MinIO (Config q))
    \<and> (\<exists>d b. read_file V ''./private_key.pem'' = Inl d \<and> pem_decode V d = Some b \<and> PrivateKey q = parse_private V b)
    \<and> (\<exists>d b. read_file V ''./jwt_key.pem'' = Inl d \<and> pem_decode V d = Some b \<and> JwtKey q = parse_private V b)
    \<and> (\<exists>d b. read_file V ''./jwt_key.pub'' = Inl d \<and> pem_decode V d = Some b \<and> JwtParseKey q = parse_public V b)
    \<and> (\<forall>name\<in>{''users'', ''users_private'', ''users_public'', ''user_relations'', ''chains''}. has_table name q)
    \<and> (has_table ''chains_users'' q \<longleftrightarrow> has_table ''chains_users'' p \<or> create_error V ''chains_users'' = None)
    \<and> (buckets p = [] \<and> make_bucket V ''audio'' \<and> make_bucket V ''audio-expire'' \<and> set_lifecycle V ''audio-expire''
        \<longrightarrow> buckets q = [(''audio'', None), (''audio-expire'', Some 1)])"
proof -
  obtain p1 p2 p3 p4 p5 where stages: "init_logs V p = Running p1" "init_config V p1 = Running p2" "init_keys V p2 = Running p3"
    "init_buckets V p3 = Running p4" "init_clients V p4 = Running p5" "init_tables V p5 = Running q"
    using assms by (rule init_stages)
  note p1 = init_logs_Running [OF stages(1)]
  note p5 = init_clients_Running [OF stages(5)]
  note q = init_tables_Running [OF stages(6)]
  obtain data cfg where cfg: "read_file V ''./config.json'' = Inl data" "unmarshal_config V data = Inl cfg" "p2 = p1\<lparr>Config := cfg\<rparr>"
    using init_config_Running [OF stages(2)] by blast
  obtain bs where p4: "p4 = p3\<lparr>MinIOClient := Some (MinIO (Config p3)), buckets := bs\<rparr>"
    and bs: "buckets p3 = [] \<and> make_bucket V ''audio'' \<and> make_bucket V ''audio-expire'' \<and> set_lifecycle V ''audio-expire''
        \<longrightarrow> bs = [(''audio'', None), (''audio-expire'', Some 1)]"
    using init_buckets_Running [OF stages(4)] by blast
  obtain k1 k2 k3 where p3: "p3 = p2\<lparr>PrivateKey := k1, JwtKey := k2, JwtParseKey := k3\<rparr>"
    and k1: "\<exists>d b. read_file V ''./private_key.pem'' = Inl d \<and> pem_decode V d = Some b \<and> k1 = parse_private V b"
    and k2: "\<exists>d b. read_file V ''./jwt_key.pem'' = Inl d \<and> pem_decode V d = Some b \<and> k2 = parse_private V b"
    and k3: "\<exists>d b. read_file V ''./jwt_key.pub'' = Inl d \<and> pem_decode V d = Some b \<and> k3 = parse_public V b"
    using init_keys_Running [OF stages(3)] by blast
  have q': "InternalLogger q = Some ''internal_errors.txt''" "MonitorLogger q = Some ''monitor_logs.txt''" "DbSession q = Some ''projecthdb''"
    "RedisClient q = Some ''127.0.0.1:6379''" "Config q = cfg" "MinIOClient q = Some (MinIO cfg)" "PrivateKey q = k1" "JwtKey q = k2"
    "JwtParseKey q = k3" "buckets q = bs" "tables p5 = tables p" "buckets p3 = buckets p"
    by (simp_all add: q(2) p5 p4 p3 cfg(3) p1)
  have made: "create_error V (tb_name tb) = None" if "tb \<in> set all_tables" "tb_name tb \<noteq> ''chains_users''" for tb
    using q(1) that by blast
  have names: "tb_name ` set all_tables = {''users'', ''users_private'', ''users_public'', ''user_relations'', ''chains_users'', ''chains''}"
    by (simp add: all_tables_def table_defs)
  have tables: "has_table name q" if "name \<in> {''users'', ''users_private'', ''users_public'', ''user_relations'', ''chains''}" for name
  proof -
    have "name \<in> tb_name ` set all_tables" unfolding names using that by (rule set_rev_mp) (simp only: insert_subset insert_iff simp_thms empty_subsetI)
    then obtain tb where "tb \<in> set all_tables" "tb_name tb = name" by blast
    moreover from that have "name \<noteq> ''chains_users''" by auto
    ultimately show ?thesis using made [of tb] by (auto simp: q(2) has_table_after)
  qed
  have chains: "has_table ''chains_users'' q \<longleftrightarrow> has_table ''chains_users'' p \<or> create_error V ''chains_users'' = None"
    unfolding q(2) has_table_after q'(11) names by (auto simp: has_table_def)
  have handles: "InternalLogger q \<noteq> None" "MonitorLogger q \<noteq> None" "RedisClient q \<noteq> None" by (simp_all add: q')
  note config = init_parsed_config [OF assms]
  have minio: "MinIOClient q = Some (MinIO (Config q))" by (simp add: q'(5,6))
  show ?thesis
    by (intro conjI handles q'(3) config minio k1 [folded q'(7)] k2 [folded q'(8)] k3 [folded q'(9)] ballI tables chains
        bs [unfolded q'(12), folded q'(10)])
qed

definition demo_config :: json_config where
  "demo_config = \<lparr>Origin = ''o'', Port = '':8000'', Version = ''v1'', EmailFrom = ''h@x'',
     SMTP = \<lparr>SMTP_Host = ''smtp'', SMTP_Port = 587, SMTP_User = ''u'', SMTP_Password = ''p''\<rparr>,
     MinIO = \<lparr>MinIO_User = ''m'', MinIO_Password = ''q''\<rparr>\<rparr>"

definition demo_startup :: "(string \<Rightarrow> err) \<Rightarrow> nat startup_env" where
  "demo_startup create = \<lparr>open_file = (\<lambda>_. None), read_file = (\<lambda>name. Inl (to_bytes name)),
     unmarshal_config = (\<lambda>_. Inl demo_config), pem_decode = (\<lambda>d. Some d), parse_private = (\<lambda>b. Some (length b)),
     parse_public = (\<lambda>b. None), minio_new = None, bucket_error = (\<lambda>_. None), make_bucket = (\<lambda>_. True),
     set_lifecycle = (\<lambda>_. True), create_session = None, create_error = create, listen_error = None\<rparr>"

definition nothing_started :: "nat globals" where
  "nothing_started = \<lparr>InternalLogger = None, MonitorLogger = None, Config = demo_config\<lparr>Version := ''''\<rparr>, PrivateKey = None,
     JwtKey = None, JwtParseKey = None, MinIOClient = None, RedisClient = None, DbSession = None, buckets = [], tables = []\<rparr>"

definition only_chains_users_fails :: "string \<Rightarrow> err" where
  "only_chains_users_fails name = (if name = ''chains_users'' then Some ''timeout'' else None)"

text \<open>A start gets through when the calls that are checked succeed.\<close>

definition start_works :: "'k startup_env \<Rightarrow> bool" where
  "start_works V \<longleftrightarrow> (\<forall>n. open_file V n = None) \<and> (\<forall>n. \<exists>d b. read_file V n = Inl d \<and> pem_decode V d = Some b)
     \<and> (\<forall>d. \<exists>cfg. unmarshal_config V d = Inl cfg) \<and> minio_new V = None \<and> (\<forall>b. bucket_error V b = None)
     \<and> create_session V = None \<and> (\<forall>tb\<in>set all_tables. tb_name tb \<noteq> ''chains_users'' \<longrightarrow> create_error V (tb_name tb) = None)"

lemma all_tables_but_one:
  "create_users \<in> set all_tables \<and> tb_name create_users \<noteq> ''chains_users''"
  "create_users_private \<in> set all_tables \<and> tb_name create_users_private \<noteq> ''chains_users''"
  "create_users_public \<in> set all_tables \<and> tb_name create_users_public \<noteq> ''chains_users''"
  "create_user_relations \<in> set all_tables \<and> tb_name create_user_relations \<noteq> ''chains_users''"
  "create_chains \<in> set all_tables \<and> tb_name create_chains \<noteq> ''chains_users''"
  by (simp_all add: all_tables_def) (simp_all add: table_defs)

lemma start_gets_through:
  assumes "start_works V"
  shows "\<exists>q. init V p = Running q"
proof -
  have made: "create_error V (tb_name tb) = None" if "tb \<in> set all_tables \<and> tb_name tb \<noteq> ''chains_users''" for tb
    using assms that by (simp add: start_works_def)
  note made = all_tables_but_one [THEN made]
  have key: "\<exists>q. read_key V name parse store p = Running q" for name parse store p
    using assms unfolding read_key_Running start_works_def by blast
  have "\<exists>q. init_logs V p = Running q" for p using assms by (simp add: init_logs_def start_simps start_works_def)
  moreover have "\<exists>q. init_config V p = Running q" for p
    using assms unfolding init_config_def start_simps unmarshal_Running start_works_def by blast
  moreover have "\<exists>q. init_keys V p = Running q" for p
    unfolding init_keys_def start_simps(1) using key by meson
  moreover have "\<exists>q. init_buckets V p = Running q" for p
    using assms by (simp add: init_buckets_def start_simps start_works_def)
  moreover have "\<exists>q. init_clients V p = Running q" for p
    using assms by (simp add: init_clients_def start_simps start_works_def)
  moreover have "\<exists>q. init_tables V p = Running q" for p
    by (simp add: init_tables_def start_simps must_create_Running made)
  ultimately show ?thesis unfolding init_def start_simps(1) by meson
qed

lemma demo_startup_works: "start_works (demo_startup only_chains_users_fails)"
  by (simp add: start_works_def demo_startup_def only_chains_users_fails_def)

theorem start_prepares_witness:
  "\<exists>q. init (demo_startup only_chains_users_fails) nothing_started = Running q \<and> has_table ''chains'' q
    \<and> \<not> has_table ''chains_users'' q \<and> JwtParseKey q = None \<and> buckets q = [(''audio'', None), (''audio-expire'', Some 1)]"
proof -
  obtain q where q: "init (demo_startup only_chains_users_fails) nothing_started = Running q"
    using start_gets_through [OF demo_startup_works] by blast
  have facts: "create_error (demo_startup only_chains_users_fails) ''chains_users'' \<noteq> None" "parse_public (demo_startup only_chains_users_fails) b = None"
    "make_bucket (demo_startup only_chains_users_fails) x" "set_lifecycle (demo_startup only_chains_users_fails) x"
    "\<not> has_table x nothing_started" "buckets nothing_started = []" for b x
    by (simp_all add: demo_startup_def only_chains_users_fails_def nothing_started_def has_table_def)
  note prepared = start_prepares [OF q]
  from prepared have keys: "\<exists>d b. read_file (demo_startup only_chains_users_fails) ''./jwt_key.pub'' = Inl d
      \<and> pem_decode (demo_startup only_chains_users_fails) d = Some b \<and> JwtParseKey q = parse_public (demo_startup only_chains_users_fails) b" by (elim conjE)
  from prepared have made: "\<forall>name\<in>{''users'', ''users_private'', ''users_public'', ''user_relations'', ''chains''}. has_table name q" by (elim conjE)
  from prepared have dropped: "has_table ''chains_users'' q \<longleftrightarrow> has_table ''chains_users'' nothing_started
      \<or> create_error (demo_startup only_chains_users_fails) ''chains_users'' = None" by (elim conjE)
  from prepared have bucket: "buckets nothing_started = [] \<and> make_bucket (demo_startup only_chains_users_fails) ''audio''
      \<and> make_bucket (demo_startup only_chains_users_fails) ''audio-expire'' \<and> set_lifecycle (demo_startup only_chains_users_fails) ''audio-expire''
      \<longrightarrow> buckets q = [(''audio'', None), (''audio-expire'', Some 1)]"
    by (elim conjE)
  have "has_table ''chains'' q" using made by simp
  then show ?thesis using q keys dropped bucket facts by auto
qed

subsection \<open>The statements of a started process\<close>

lemma distinct_tables: "distinct (map tb_name all_tables)"
  by (simp add: all_tables_def table_defs)

text \<open>The tables after a start are some of the program's when those before it were.\<close>

lemma fold_with_table_subset: "set ts \<subseteq> A \<Longrightarrow> set tbs \<subseteq> A \<Longrightarrow> set (fold (with_table V) tbs ts) \<subseteq> A"
  by (induction tbs arbitrary: ts) (auto simp: with_table_def)

lemma started_tables:
  assumes "init V p = Running q" and "set (tables p) \<subseteq> set all_tables"
  shows "set (tables q) \<subseteq> set all_tables"
    and "tb \<in> set all_tables \<Longrightarrow> has_table (tb_name tb) q \<longleftrightarrow> tb_name tb \<noteq> ''chains_users'' \<or> has_table ''chains_users'' q"
    and "has_table ''chains_users'' q \<longleftrightarrow> has_table ''chains_users'' p \<or> create_error V ''chains_users'' = None"
proof -
  obtain p1 p2 p3 p4 p5 where stages: "init_logs V p = Running p1" "init_config V p1 = Running p2" "init_keys V p2 = Running p3"
    "init_buckets V p3 = Running p4" "init_clients V p4 = Running p5" "init_tables V p5 = Running q"
    using assms(1) by (rule init_stages)
  have same: "tables p5 = tables p"
    using init_logs_Running [OF stages(1)] init_config_Running [OF stages(2)] init_keys_Running [OF stages(3)]
      init_buckets_Running [OF stages(4)] init_clients_Running [OF stages(5)] by (elim exE conjE) simp
  note q = init_tables_Running [OF stages(6)]
  show "set (tables q) \<subseteq> set all_tables"
    using fold_with_table_subset [of "tables p" "set all_tables" all_tables V] assms(2) by (simp add: q(2) same)
  show "has_table (tb_name tb) q \<longleftrightarrow> tb_name tb \<noteq> ''chains_users'' \<or> has_table ''chains_users'' q" if "tb \<in> set all_tables"
    using that q(1) by (cases "tb_name tb = ''chains_users''") (simp, auto simp: q(2) has_table_after)
  have "''chains_users'' \<in> tb_name ` set all_tables" by (simp add: all_tables_def table_defs)
  then show "has_table ''chains_users'' q \<longleftrightarrow> has_table ''chains_users'' p \<or> create_error V ''chains_users'' = None"
    unfolding q(2) has_table_after same by (auto simp: has_table_def)
qed

text \<open>A statement fits some of the tables when its table is among them and it fits them all.\<close>

lemma find_named: "distinct (map tb_name tbs) \<Longrightarrow> tb \<in> set tbs \<Longrightarrow> find (\<lambda>x. tb_name x = tb_name tb) tbs = Some tb"
  by (induction tbs) auto

lemma find_subset:
  assumes "set ts \<subseteq> set tbs" and "distinct (map tb_name tbs)"
  shows "find (\<lambda>tb. tb_name tb = n) ts = (if n \<in> tb_name ` set ts then find (\<lambda>tb. tb_name tb = n) tbs else None)"
  using assms(1)
proof (induction ts)
  case (Cons tb ts)
  then show ?case using find_named [OF assms(2), of tb] by auto
qed simp

lemma fits_subset:
  "set ts \<subseteq> set all_tables \<Longrightarrow> fits ts st \<longleftrightarrow> statement_table st \<in> tb_name ` set ts \<and> fits all_tables st"
  by (simp add: fits_def find_subset [OF _ distinct_tables])

lemma fits_named: "fits all_tables st \<Longrightarrow> \<exists>tb\<in>set all_tables. tb_name tb = statement_table st"
  by (auto simp: fits_def find_Some_iff split: option.splits)

text \<open>Only the statements on \<open>chains_users\<close> may lack their table.\<close>

lemma fits_started:
  assumes "init V p = Running q" and "set (tables p) \<subseteq> set all_tables"
  shows "fits (tables q) st \<longleftrightarrow> fits all_tables st \<and> (statement_table st \<noteq> ''chains_users'' \<or> has_table ''chains_users'' q)"
  using fits_subset [OF started_tables(1) [OF assms], of st] started_tables(2) [OF assms] fits_named [of st]
  by (fastforce simp: has_table_def)

lemma command_fits_started:
  assumes "init V p = Running q" and "set (tables p) \<subseteq> set all_tables"
  shows "command_fits (tables q) cmd \<longleftrightarrow> command_fits all_tables cmd
    \<and> (case cmd of InsertChainUsers ch us t \<Rightarrow> us = [] \<or> has_table ''chains_users'' q | _ \<Rightarrow> True)"
  by (cases cmd) (auto simp: command_fits_def fits_started [OF assms] list_all_iff)

lemma process_server:
  assumes "process V S p = Running sv"
  shows "init V p = Running (sv_globals sv) \<and> sv_routes sv = SetRoutes (configured (Config (sv_globals sv)) S)
    \<and> sv_port sv = Some (Port (Config (sv_globals sv)))"
  using assms by (auto simp: process_def main_def start_socket_def start_api_def start_simps no_server_def split: option.splits)

text \<open>C17: The statements of a started process fit its tables, but three. When a process has started on a keyspace
  that holds none but its own tables, an empty one or one left by earlier starts, every command of any
  request through the routes it has set, and every query of the program, names a table and columns that
  exist, binds values of Go types those columns take and names the primary key as its kind requires; except
  that entering the users of a chain, and asking for them as the middleware of every chain route does, has
  no table if the keyspace had none and the creation of \<open>chains_users\<close> failed unseen, that the update of
  \<open>last_seen\<close> behind a message that is read never fits, and that a duration may be below the range of an
  \<open>int\<close>.\<close>

theorem started_process_statements:
  assumes "process V S p = Running sv" and "set (tables p) \<subseteq> set all_tables"
  shows "(\<forall>r err c' cmd. walk (sv_routes sv) r new_srv = Done (err, c') \<and> cmd \<in> set (commands c') \<longrightarrow>
      (command_fits (tables (sv_globals sv)) cmd \<longleftrightarrow> (case cmd of UpdateLastSeenIf u ch t \<Rightarrow> False
        | InsertChainUsers ch us t \<Rightarrow> us = [] \<or> has_table ''chains_users'' (sv_globals sv)
        | InsertMessage ch created m u expires typ display duration \<Rightarrow> - (2 ^ 31) \<le> duration | _ \<Rightarrow> True)))
    \<and> (\<forall>q. fits (tables (sv_globals sv)) (select q) \<longleftrightarrow>
        (case q of UsersOfChain ch \<Rightarrow> has_table ''chains_users'' (sv_globals sv) | _ \<Rightarrow> True))
    \<and> (has_table ''chains_users'' (sv_globals sv) \<longleftrightarrow> has_table ''chains_users'' p \<or> create_error V ''chains_users'' = None)"
proof (intro conjI allI impI)
  have init: "init V p = Running (sv_globals sv)" using process_server [OF assms(1)] by simp
  note fit = command_fits_started [OF init assms(2)] fits_started [OF init assms(2)]
  show "has_table ''chains_users'' (sv_globals sv) \<longleftrightarrow> has_table ''chains_users'' p \<or> create_error V ''chains_users'' = None"
    by (rule started_tables(3) [OF init assms(2)])
  show "fits (tables (sv_globals sv)) (select q) \<longleftrightarrow> (case q of UsersOfChain ch \<Rightarrow> has_table ''chains_users'' (sv_globals sv) | _ \<Rightarrow> True)" for q
    using select_fits [of q] by (cases q) (auto simp: fit)
  fix r err c' cmd
  assume walk: "walk (sv_routes sv) r new_srv = Done (err, c') \<and> cmd \<in> set (commands c')"
  then have "serve (configured (Config (sv_globals sv)) S) r new_srv = Done (err, c')"
    using process_server [OF assms(1)] by (simp add: serve_def)
  from statements_fit_tables [OF this] walk
  have all: "command_fits all_tables cmd \<longleftrightarrow> (case cmd of UpdateLastSeenIf u ch t \<Rightarrow> False
    | InsertMessage ch created m u expires typ display duration \<Rightarrow> - (2 ^ 31) \<le> duration | _ \<Rightarrow> True)" by blast
  show "command_fits (tables (sv_globals sv)) cmd \<longleftrightarrow> (case cmd of UpdateLastSeenIf u ch t \<Rightarrow> False
        | InsertChainUsers ch us t \<Rightarrow> us = [] \<or> has_table ''chains_users'' (sv_globals sv)
        | InsertMessage ch created m u expires typ display duration \<Rightarrow> - (2 ^ 31) \<le> duration | _ \<Rightarrow> True)"
    using all by (cases cmd) (simp_all add: fit(1))
qed

lemma process_gets_through:
  assumes "start_works V" and "listen_error V = None"
  shows "\<exists>sv. process V S p = Running sv"
proof -
  obtain q where "init V p = Running q" using start_gets_through [OF assms(1)] by blast
  then show ?thesis
    using assms by (simp add: process_def main_def start_socket_def start_api_def start_works_def HandleFatalError_def Let_def)
qed

theorem started_process_statements_witness:
  "\<exists>sv c'. process (demo_startup only_chains_users_fails) verify_site nothing_started = Running sv
     \<and> walk (sv_routes sv) verify_request new_srv = Done (None, c') \<and> InsertUserPublic ''ann'' ''t1'' \<in> set (commands c')
     \<and> command_fits (tables (sv_globals sv)) (InsertUserPublic ''ann'' ''t1'')
     \<and> fits (tables (sv_globals sv)) (select (RelationsOf ''t1'')) \<and> \<not> fits (tables (sv_globals sv)) (select (UsersOfChain ''ch''))"
proof -
  have "listen_error (demo_startup only_chains_users_fails) = None" and own: "set (tables nothing_started) \<subseteq> set all_tables"
    and failed: "\<not> (has_table ''chains_users'' nothing_started \<or> create_error (demo_startup only_chains_users_fails) ''chains_users'' = None)"
    by (simp_all add: demo_startup_def nothing_started_def has_table_def only_chains_users_fails_def)
  then obtain sv where sv: "process (demo_startup only_chains_users_fails) verify_site nothing_started = Running sv"
    using process_gets_through demo_startup_works by blast
  obtain data where "unmarshal_config (demo_startup only_chains_users_fails) data = Inl (Config (sv_globals sv))"
    using init_parsed_config process_server [OF sv] by blast
  then have "Config (sv_globals sv) = demo_config" by (simp add: demo_startup_def)
  moreover have "configured demo_config verify_site = verify_site"
    by (simp add: configured_def demo_config_def verify_site_def demo_site_def demo_accounts_def server_env.extend_def demo_server_def)
  ultimately have "sv_routes sv = SetRoutes verify_site" using process_server [OF sv] by simp
  with verify_request_served obtain c' where run: "walk (sv_routes sv) verify_request new_srv = Done (None, c')"
    and cmd: "InsertUserPublic ''ann'' ''t1'' \<in> set (commands c')" unfolding serve_def by (auto simp: verify_commands_def)
  note all = started_process_statements [OF sv own]
  from all have fit: "command_fits (tables (sv_globals sv)) (InsertUserPublic ''ann'' ''t1'')" using run cmd by fastforce
  from all have reads: "\<forall>q. fits (tables (sv_globals sv)) (select q) \<longleftrightarrow>
      (case q of UsersOfChain ch \<Rightarrow> has_table ''chains_users'' (sv_globals sv) | _ \<Rightarrow> True)" by (elim conjE)
  from all failed have missing: "\<not> has_table ''chains_users'' (sv_globals sv)" by blast
  show ?thesis
    using sv run cmd fit reads [THEN spec [of _ "RelationsOf ''t1''"]] reads [THEN spec [of _ "UsersOfChain ''ch''"]] missing by auto
qed

end
