(* ===== verification/Database_Steps.thy ===== *)
theory Database_Steps imports Database Route_Commands begin

text \<open>
  Requests on the tables, in any interleaving: a request reads when it arrives, and its commands are
  then carried out one by one, between those of other requests, succeeding or failing as the request was
  told. Shown: user names and user ids correspond one to one whatever fails, and a chain belongs to the
  two users of its relation as long as chains are entered without failure.
\<close>

subsection \<open>The system\<close>

record world =
  tables_now :: db
  pending :: "told_command list list"
  drawn :: "uuid set"

definition told :: "site \<Rightarrow> nat \<Rightarrow> command \<Rightarrow> bool option" where
  "told S i cmd = (case cmd of InsertUserPublic name uid \<Rightarrow> cas_applied (accounts S) name
     | _ \<Rightarrow> if exec_ok (accounts S) i then Some True else None)"

definition with_told :: "site \<Rightarrow> command list \<Rightarrow> told_command list" where
  "with_told S cmds = map (\<lambda>i. (cmds ! i, told S i (cmds ! i))) [0..<length cmds]"

text \<open>The query for the chain of a relation finds what the row holds; a null chain reads as the nil UUID, whose
  time is the zero time.\<close>

definition reads_chains :: "(string \<Rightarrow> uuid option) \<Rightarrow> site \<Rightarrow> db \<Rightarrow> bool" where
  "reads_chains parse S d \<longleftrightarrow> (\<forall>u x ch. chain_of (accounts S) u x = Row ch \<longrightarrow> \<not> uuid_zero_time (accounts S) ch \<longrightarrow>
     (\<exists>a b. parse u = Some a \<and> parse x = Some b \<and> r_chain_id (relations d (a, b)) = Some ch))"

text \<open>The commands allowed in a run: all of them, or only chains entered without failure.\<close>

type_synonym allowed = "told_command \<Rightarrow> bool"

inductive world_step :: "(string \<Rightarrow> uuid option) \<Rightarrow> allowed \<Rightarrow> world \<Rightarrow> world \<Rightarrow> bool" for parse ok where
  arrives: "serve S r new_srv = Done (err, c') \<Longrightarrow> exec_ok (chains S) = exec_ok (accounts S) \<Longrightarrow> reads_chains parse S (tables_now w)
    \<Longrightarrow> time_uuid (accounts S) \<notin> drawn w \<Longrightarrow> list_all ok (with_told S (commands c'))
    \<Longrightarrow> world_step parse ok w (w\<lparr>pending := pending w @ [with_told S (commands c')],
          drawn := insert (time_uuid (accounts S)) (drawn w)\<rparr>)"
| works: "pending w = before @ (item # rest) # after \<Longrightarrow> takes_effect parse item (tables_now w) d'
    \<Longrightarrow> world_step parse ok w (w\<lparr>tables_now := d', pending := before @ rest # after\<rparr>)"

inductive reachable_world :: "(string \<Rightarrow> uuid option) \<Rightarrow> allowed \<Rightarrow> world \<Rightarrow> bool" for parse ok where
  at_first: "reachable_world parse ok \<lparr>tables_now = empty_db, pending = [], drawn = {}\<rparr>"
| onward: "reachable_world parse ok w \<Longrightarrow> world_step parse ok w w' \<Longrightarrow> reachable_world parse ok w'"

lemma length_with_told [simp]: "length (with_told S cmds) = length cmds"
  by (simp add: with_told_def)

lemma nth_with_told [simp]: "i < length cmds \<Longrightarrow> with_told S cmds ! i = (cmds ! i, told S i (cmds ! i))"
  by (simp add: with_told_def)

lemma map_fst_with_told [simp]: "map fst (with_told S cmds) = cmds"
  by (intro nth_equalityI) simp_all

lemma with_told_append: "with_told S (as @ bs) = with_told S as @ map (\<lambda>i. (bs ! i, told S (length as + i) (bs ! i))) [0..<length bs]"
  by (intro nth_equalityI) (auto simp: nth_append)

subsection \<open>Accounts\<close>

text \<open>The ids that a list of commands is about to give to names.\<close>

fun public_ids :: "told_command list \<Rightarrow> uuid list" where
  "public_ids [] = []"
| "public_ids ((InsertUserPublic n u, t) # xs) = u # public_ids xs"
| "public_ids (x # xs) = public_ids xs"

text \<open>Accounts and private rows come after their name was taken.\<close>

fun follow :: "(string \<rightharpoonup> uuid) \<Rightarrow> told_command list \<Rightarrow> bool" where
  "follow P [] \<longleftrightarrow> True"
| "follow P ((InsertUserPublic n u, t) # xs) \<longleftrightarrow> follow (if t = Some True then P(n \<mapsto> u) else P) xs"
| "follow P ((InsertUser e u h t' n, t) # xs) \<longleftrightarrow> P n = Some u \<and> follow P xs"
| "follow P ((InsertUserPrivate u n, t) # xs) \<longleftrightarrow> P n = Some u \<and> follow P xs"
| "follow P (x # xs) \<longleftrightarrow> follow P xs"

lemma follow_mono: "follow P xs \<Longrightarrow> P \<subseteq>\<^sub>m Q \<Longrightarrow> follow Q xs"
proof (induction P xs arbitrary: Q rule: follow.induct)
  case (2 P n u t xs)
  have "P(n \<mapsto> u) \<subseteq>\<^sub>m Q(n \<mapsto> u)" using 2(3) by (auto simp: map_le_def)
  then show ?case using 2 by auto
qed (auto simp: map_le_def dom_def)

fun account_free :: "command \<Rightarrow> bool" where
  "account_free (InsertUserPublic n u) \<longleftrightarrow> False"
| "account_free (InsertUser e u h t n) \<longleftrightarrow> False"
| "account_free (InsertUserPrivate u n) \<longleftrightarrow> False"
| "account_free cmd \<longleftrightarrow> True"

lemma ordinary_account_free: "ordinary cmd \<Longrightarrow> account_free cmd"
  by (cases cmd) simp_all

lemma follow_free: "list_all (account_free \<circ> fst) xs \<Longrightarrow> follow P (xs @ ys) = follow P ys \<and> public_ids (xs @ ys) = public_ids ys"
proof (induction xs)
  case (Cons x xs)
  then show ?case by (cases x; cases "fst x") auto
qed simp

lemma follow_verifying:
  assumes "verifying (accounts S) n bs"
  shows "follow P (map (\<lambda>i. (bs ! i, told S (n + i) (bs ! i))) [0..<length bs])"
    and "set (public_ids (map (\<lambda>i. (bs ! i, told S (n + i) (bs ! i))) [0..<length bs])) \<subseteq> {time_uuid (accounts S)}"
    and "distinct (public_ids (map (\<lambda>i. (bs ! i, told S (n + i) (bs ! i))) [0..<length bs]))"
proof -
  let ?f = "\<lambda>i. (bs ! i, told S (n + i) (bs ! i))"
  obtain email hash name where pre: "prefix bs [InsertUserPublic name (time_uuid (accounts S)),
      InsertUser email (time_uuid (accounts S)) hash (now_ms (accounts S)) name, InsertUserPrivate (time_uuid (accounts S)) name]"
    and cas: "1 < length bs \<longrightarrow> cas_applied (accounts S) name = Some True"
    using assms unfolding verifying_def by blast
  let ?a = "InsertUserPublic name (time_uuid (accounts S))"
  let ?b = "InsertUser email (time_uuid (accounts S)) hash (now_ms (accounts S)) name"
  let ?c = "InsertUserPrivate (time_uuid (accounts S)) name"
  from pre consider "bs = []" | "bs = [?a]" | "bs = [?a, ?b]" | "bs = [?a, ?b, ?c]"
    by (auto simp: prefix_Cons)
  then have "follow P (map ?f [0..<length bs]) \<and> set (public_ids (map ?f [0..<length bs])) \<subseteq> {time_uuid (accounts S)}
      \<and> distinct (public_ids (map ?f [0..<length bs]))"
    by cases (use cas in \<open>simp_all add: told_def upt_rec\<close>)
  then show "follow P (map ?f [0..<length bs])" "set (public_ids (map ?f [0..<length bs])) \<subseteq> {time_uuid (accounts S)}"
    "distinct (public_ids (map ?f [0..<length bs]))" by blast+
qed

lemma accepting_account_free:
  assumes "accepting E n bs"
  shows "list_all account_free bs"
  using assms unfolding accepting_def list_all_iff by (auto dest!: set_mono_prefix subsetD)

lemma served_follow:
  assumes "serve S r new_srv = Done (err, c')"
  shows "follow P (with_told S (commands c'))"
    and "set (public_ids (with_told S (commands c'))) \<subseteq> {time_uuid (accounts S)}"
    and "distinct (public_ids (with_told S (commands c')))"
proof -
  obtain as bs where cmds: "commands c' = as @ bs" "list_all ordinary as" "last_commands S (length as) bs"
    using serve_commands [OF assms] by blast
  have free: "list_all (account_free \<circ> fst) (map (\<lambda>i. (xs ! i, told S (n + i) (xs ! i))) [0..<length xs])"
    if "list_all account_free xs" for n xs
    using that by (simp add: list_all_length)
  have "list_all account_free as" using cmds(2) ordinary_account_free by (auto simp: list_all_iff)
  from follow_free [OF free [OF this, of 0]]
  have skip: "follow P (with_told S as @ ys) = follow P ys" "public_ids (with_told S as @ ys) = public_ids ys" for P ys
    by (simp_all add: with_told_def)
  have "follow P (with_told S (as @ bs)) \<and> set (public_ids (with_told S (as @ bs))) \<subseteq> {time_uuid (accounts S)}
      \<and> distinct (public_ids (with_told S (as @ bs)))"
    using cmds(3) unfolding last_commands_def
  proof
    assume "accepting (accounts S) (length as) bs"
    note acc = accepting_account_free [OF this]
    from follow_free [OF free [OF acc], where n1 = "length as" and P = P and ys = "[]"] show ?thesis
      unfolding with_told_append using skip by simp
  next
    assume "verifying (accounts S) (length as) bs"
    from follow_verifying(1) [OF this, of P] follow_verifying(2,3) [OF this] show ?thesis unfolding with_told_append using skip by simp
  qed
  then show "follow P (with_told S (commands c'))" "set (public_ids (with_told S (commands c'))) \<subseteq> {time_uuid (accounts S)}"
    "distinct (public_ids (with_told S (commands c')))" using cmds(1) by auto
qed

subsection \<open>The invariant of the accounts\<close>

definition ids_ahead :: "world \<Rightarrow> uuid list" where
  "ids_ahead w = concat (map public_ids (pending w))"

definition rows_named :: "db \<Rightarrow> bool" where
  "rows_named d \<longleftrightarrow> (\<forall>e row. users d e = Some row \<longrightarrow> users_public d (ur_username row) = Some (ur_user_id row))
     \<and> (\<forall>u n. users_private d u = Some n \<longrightarrow> users_public d n = Some u)"

definition accounts_inv :: "world \<Rightarrow> bool" where
  "accounts_inv w \<longleftrightarrow> rows_named (tables_now w) \<and> (\<forall>l\<in>set (pending w). follow (users_public (tables_now w)) l)
     \<and> distinct (ids_ahead w) \<and> set (ids_ahead w) \<inter> ran (users_public (tables_now w)) = {}
     \<and> set (ids_ahead w) \<union> ran (users_public (tables_now w)) \<subseteq> drawn w
     \<and> inj_on (users_public (tables_now w)) (dom (users_public (tables_now w)))"

lemma takes_effect_public:
  assumes "takes_effect parse item d d'"
  shows "users_public d' = users_public d \<or> (\<exists>n u t. item = (InsertUserPublic n u, t) \<and> t \<noteq> Some False
    \<and> users_public d n = None \<and> users_public d' = (users_public d)(n \<mapsto> u))"
proof (cases item)
  case (Pair cmd t)
  show ?thesis
  proof (cases cmd)
    case (InsertUserPublic n u)
    then show ?thesis using assms Pair by (auto elim!: takes_effectE split: if_splits)
  next
  qed (use assms Pair takes_effect_apply [of parse cmd t d d'] apply_accounts(3) [of parse cmd d d'] in auto)
qed

lemma takes_effect_grows: "takes_effect parse item d d' \<Longrightarrow> users_public d \<subseteq>\<^sub>m users_public d'"
  by (drule takes_effect_public) (auto simp: map_le_def)

lemma follow_effect:
  assumes "takes_effect parse item d d'" and "follow (users_public d) (item # rest)" and "rows_named d"
  shows "follow (users_public d') rest \<and> rows_named d'"
proof -
  note grows = takes_effect_grows [OF assms(1)]
  then have keep: "users_public d n = Some u \<Longrightarrow> users_public d' n = Some u" for n u by (auto simp: map_le_def dom_def)
  obtain cmd t where item: "item = (cmd, t)" by (cases item)
  have rest: "follow (users_public d') rest"
  proof (cases "\<exists>n u. cmd = InsertUserPublic n u \<and> t = Some True")
    case True
    then show ?thesis using assms(1,2) item by (auto elim!: takes_effectE)
  next
    case False
    then have "follow (users_public d) rest" using assms(2) item by (cases cmd) auto
    then show ?thesis using grows by (rule follow_mono)
  qed
  have "rows_named d'"
  proof (cases "d' = d")
    case False
    then have app: "apply_command parse cmd d = Some d'" using takes_effect_apply assms(1) item by blast
    show ?thesis
      using assms(2,3) item keep apply_accounts(1,2) [OF app]
      by (cases cmd) (auto simp: rows_named_def split: if_splits)
  qed (use assms(3) in simp)
  with rest show ?thesis by simp
qed

lemma public_ids_Cons: "public_ids ((cmd, t) # xs) = (case cmd of InsertUserPublic n u \<Rightarrow> [u] | _ \<Rightarrow> []) @ public_ids xs"
  by (cases cmd) simp_all

lemma accounts_inv_step:
  assumes "world_step parse ok w w'" and "accounts_inv w"
  shows "accounts_inv w'"
  using assms(1)
proof cases
  case (arrives S r err c')
  let ?l = "with_told S (commands c')"
  note new = served_follow [OF arrives(2)]
  have "ids_ahead w' = ids_ahead w @ public_ids ?l" "tables_now w' = tables_now w" "pending w' = pending w @ [?l]"
    "drawn w' = insert (time_uuid (accounts S)) (drawn w)"
    using arrives(1) by (simp_all add: ids_ahead_def)
  then show ?thesis using assms(2) new arrives(5) unfolding accounts_inv_def by (auto simp: distinct_append)
next
  case (works before item rest after d')
  obtain cmd t where item: "item = (cmd, t)" by (cases item)
  let ?ids = "case cmd of InsertUserPublic n u \<Rightarrow> [u] | _ \<Rightarrow> []"
  let ?pre = "concat (map public_ids before)"
  let ?post = "public_ids rest @ concat (map public_ids after)"
  have ahead: "ids_ahead w = ?pre @ ?ids @ ?post" "ids_ahead w' = ?pre @ ?post"
    and w': "tables_now w' = d'" "pending w' = before @ rest # after" "drawn w' = drawn w"
    using works(1,2) by (simp_all add: ids_ahead_def item public_ids_Cons)
  let ?d = "tables_now w"
  have named: "follow (users_public d') rest \<and> rows_named d'"
    by (rule follow_effect [OF works(3)]) (use assms(2) works(2) in \<open>auto simp: accounts_inv_def\<close>)
  have others: "follow (users_public d') l" if "l \<in> set before \<union> set after" for l
    using that assms(2) works(2) follow_mono [OF _ takes_effect_grows [OF works(3)]] unfolding accounts_inv_def by auto
  from takes_effect_public [OF works(3)] consider "users_public d' = users_public ?d"
    | n u where "cmd = InsertUserPublic n u" "users_public ?d n = None" "users_public d' = (users_public ?d)(n \<mapsto> u)"
    using item by auto
  then have "distinct (ids_ahead w') \<and> set (ids_ahead w') \<inter> ran (users_public d') = {}
      \<and> set (ids_ahead w') \<union> ran (users_public d') \<subseteq> drawn w \<and> inj_on (users_public d') (dom (users_public d'))"
  proof cases
    case 1
    then show ?thesis using assms(2) unfolding accounts_inv_def ahead by auto
  next
    case 2
    then have fresh: "u \<notin> ran (users_public ?d)" "u \<in> drawn w" "u \<notin> set (ids_ahead w')" "ran (users_public d') = insert u (ran (users_public ?d))"
      using assms(2) unfolding accounts_inv_def ahead by auto
    then have "inj_on (users_public d') (dom (users_public d'))"
      using assms(2) 2 unfolding accounts_inv_def by (auto simp: inj_on_def ran_def dom_def)
    then show ?thesis using assms(2) fresh 2 unfolding accounts_inv_def ahead by auto
  qed
  then show ?thesis unfolding accounts_inv_def w' using named others by auto
qed

lemma reachable_accounts: "reachable_world parse ok w \<Longrightarrow> accounts_inv w"
proof (induction rule: reachable_world.induct)
  case at_first
  then show ?case by (simp add: accounts_inv_def ids_ahead_def rows_named_def empty_db_def)
qed (rule accounts_inv_step)

text \<open>C15: Names and ids correspond one to one. Whatever requests arrive, in any interleaving of their commands
  and whatever fails, two accounts have the same user name exactly when they have the same user id, the
  public row of an account's name holds the account's id, and the private row of its id, if there is one,
  holds its name.\<close>

theorem accounts_are_named:
  assumes "reachable_world parse ok w" and "users (tables_now w) e1 = Some r1" and "users (tables_now w) e2 = Some r2"
  shows "(ur_username r1 = ur_username r2 \<longleftrightarrow> ur_user_id r1 = ur_user_id r2)
    \<and> users_public (tables_now w) (ur_username r1) = Some (ur_user_id r1)
    \<and> (users_private (tables_now w) (ur_user_id r1) = None \<or> users_private (tables_now w) (ur_user_id r1) = Some (ur_username r1))"
proof -
  let ?d = "tables_now w"
  from reachable_accounts [OF assms(1)] have named: "rows_named ?d" and inj: "inj_on (users_public ?d) (dom (users_public ?d))"
    by (simp_all add: accounts_inv_def)
  have p: "users_public ?d (ur_username r1) = Some (ur_user_id r1)" "users_public ?d (ur_username r2) = Some (ur_user_id r2)"
    using named assms(2,3) by (auto simp: rows_named_def)
  have same: "m = n" if "users_public ?d m = Some u" "users_public ?d n = Some u" for m n u
    using inj_onD [OF inj, of m n] that by auto
  have "n = ur_username r1" if "users_private ?d (ur_user_id r1) = Some n" for n
    using same [OF _ p(1)] named that by (auto simp: rows_named_def)
  then show ?thesis using p same by (cases "users_private ?d (ur_user_id r1)") auto
qed

lemma reachable_work:
  assumes "reachable_world parse ok w" and "pending w = before @ (item # rest) # after" and "takes_effect parse item (tables_now w) d'"
  shows "reachable_world parse ok (w\<lparr>tables_now := d', pending := before @ rest # after\<rparr>)"
  by (rule reachable_world.onward [OF assms(1) world_step.works]) (use assms in blast)+

definition verified_db :: db where
  "verified_db = empty_db\<lparr>users_public := [''ann'' \<mapsto> ''t1''],
     users := [''ann@x'' \<mapsto> \<lparr>ur_user_id = ''t1'', ur_password_hash = ''h'', ur_username = ''ann''\<rparr>],
     users_private := [''t1'' \<mapsto> ''ann'']\<rparr>"

lemma verified_reachable: "reachable_world Some (\<lambda>_. True) \<lparr>tables_now = verified_db, pending = [[]], drawn = {''t1''}\<rparr>"
proof -
  obtain c' where run: "serve verify_site verify_request new_srv = Done (None, c')" and cmds: "commands c' = verify_commands"
    using verify_request_served by blast
  have site: "exec_ok (chains verify_site) = exec_ok (accounts verify_site)" "reads_chains Some verify_site d"
    "time_uuid (accounts verify_site) = ''t1''" for d
    by (simp_all add: verify_site_def demo_site_def demo_chain_def demo_accounts_def server_env.extend_def demo_server_def reads_chains_def)
  have items: "with_told verify_site (commands c') = map (\<lambda>cmd. (cmd, Some True)) verify_commands"
    by (intro nth_equalityI) (auto simp: cmds told_def verify_site_def demo_accounts_def server_env.extend_def demo_server_def split: command.split)
  let ?w = "\<lambda>d items. \<lparr>tables_now = d, pending = [items], drawn = {''t1''}\<rparr>"
  have "world_step Some (\<lambda>_. True) \<lparr>tables_now = empty_db, pending = [], drawn = {}\<rparr> (?w empty_db (map (\<lambda>cmd. (cmd, Some True)) verify_commands))"
    using world_step.arrives [OF run site(1), of Some "\<lparr>tables_now = empty_db, pending = [], drawn = {}\<rparr>" "\<lambda>_. True"] site(2,3)
    by (simp add: items list_all_iff)
  then have w0: "reachable_world Some (\<lambda>_. True) (?w empty_db (map (\<lambda>cmd. (cmd, Some True)) verify_commands))"
    by (rule reachable_world.onward [OF reachable_world.at_first])
  have next_one: "reachable_world Some (\<lambda>_. True) (?w d' rest)"
    if "reachable_world Some (\<lambda>_. True) (?w d ((cmd, Some True) # rest))" "apply_command Some cmd d = Some d'"
      "\<And>name uid. cmd = InsertUserPublic name uid \<Longrightarrow> users_public d name = None" for d d' cmd rest
    using reachable_work [OF that(1), of "[]" "(cmd, Some True)" rest "[]" d'] takes_effect.carried_out [OF that(2,3)] by simp
  have "reachable_world Some (\<lambda>_. True) (?w verified_db [])"
    by (rule next_one [OF next_one [OF next_one [OF w0 [unfolded verify_commands_def list.map]]]])
      (simp_all add: verified_db_def empty_db_def, simp)
  then show ?thesis .
qed

theorem accounts_are_named_witness:
  "\<exists>w. reachable_world Some (\<lambda>_. True) w \<and> users (tables_now w) ''ann@x'' \<noteq> None
     \<and> users_public (tables_now w) ''ann'' = Some ''t1''"
proof -
  have row: "users verified_db ''ann@x'' = Some \<lparr>ur_user_id = ''t1'', ur_password_hash = ''h'', ur_username = ''ann''\<rparr>"
    by (simp add: verified_db_def)
  show ?thesis
    using accounts_are_named [OF verified_reachable, simplified, OF row row] verified_reachable row by auto
qed

end
