(* ===== verification/Database_Chains.thy ===== *)
theory Database_Chains imports Database_Steps begin

text \<open>
  The chains of the tables: as long as every batch that enters the users of a chain succeeds, a chain
  named by a relation has exactly the two users of that relation, in any interleaving of requests; a
  batch that fails without stopping its request loses the chain for good.
\<close>

subsection \<open>Commands that choose a chain\<close>

fun chain_free :: "command \<Rightarrow> bool" where
  "chain_free (UpdateRelation u x y) \<longleftrightarrow> u_chain_id u = Unset"
| "chain_free (InsertChainUsers ch us t) \<longleftrightarrow> False"
| "chain_free cmd \<longleftrightarrow> True"

lemma ordinary_chain_free: "ordinary cmd \<Longrightarrow> chain_free cmd"
  by (cases cmd) simp_all

fun new_chains :: "told_command list \<Rightarrow> uuid list" where
  "new_chains [] = []"
| "new_chains ((InsertChainUsers ch us t', t) # xs) = ch # new_chains xs"
| "new_chains (x # xs) = new_chains xs"

text \<open>A row is given a chain only when the chain has the two users of the row.\<close>

definition row_matches :: "(string \<Rightarrow> uuid option) \<Rightarrow> (uuid \<Rightarrow> uuid set) \<Rightarrow> relation_update \<Rightarrow> string \<Rightarrow> string \<Rightarrow> bool" where
  "row_matches parse C u x y \<longleftrightarrow>
     (\<forall>ch a b. u_chain_id u = Col ch \<longrightarrow> parse x = Some a \<longrightarrow> parse y = Some b \<longrightarrow> C ch = {a, b})"

fun follow_chains :: "(string \<Rightarrow> uuid option) \<Rightarrow> (uuid \<Rightarrow> uuid set) \<Rightarrow> told_command list \<Rightarrow> bool" where
  "follow_chains parse C [] \<longleftrightarrow> True"
| "follow_chains parse C ((InsertChainUsers ch us t', t) # xs) \<longleftrightarrow>
     follow_chains parse (C(ch := set (List.map_filter parse us))) xs"
| "follow_chains parse C ((UpdateRelation u x y, t) # xs) \<longleftrightarrow> row_matches parse C u x y \<and> follow_chains parse C xs"
| "follow_chains parse C (x # xs) \<longleftrightarrow> follow_chains parse C xs"

text \<open>Runs in which no chain fails to be entered.\<close>

fun chains_entered :: "told_command \<Rightarrow> bool" where
  "chains_entered (InsertChainUsers ch us t', t) \<longleftrightarrow> t = Some True"
| "chains_entered _ \<longleftrightarrow> True"

lemma follow_chains_mono:
  "follow_chains parse C xs \<Longrightarrow> (\<And>ch. C ch \<noteq> {} \<Longrightarrow> C' ch = C ch) \<Longrightarrow> follow_chains parse C' xs"
proof (induction parse C xs arbitrary: C' rule: follow_chains.induct)
  case (2 parse C ch us t' t xs)
  have "follow_chains parse (C'(ch := set (List.map_filter parse us))) xs"
  proof (rule 2(1))
    show "follow_chains parse (C(ch := set (List.map_filter parse us))) xs" using 2(2) by (simp only: follow_chains.simps)
    fix c
    assume "(C(ch := set (List.map_filter parse us))) c \<noteq> {}"
    then show "(C'(ch := set (List.map_filter parse us))) c = (C(ch := set (List.map_filter parse us))) c"
      using 2(3) [of c] by (cases "c = ch") simp_all
  qed
  then show ?case by simp
next
  case (3 parse C u x y t xs)
  then have "row_matches parse C' u x y" unfolding row_matches_def follow_chains.simps by (metis insert_not_empty)
  then show ?case using 3 by auto
qed auto

lemma follow_chains_free:
  "list_all (chain_free \<circ> fst) xs \<Longrightarrow> follow_chains parse C (xs @ ys) = follow_chains parse C ys \<and> new_chains (xs @ ys) = new_chains ys"
proof (induction xs)
  case (Cons x xs)
  then show ?case by (cases x; cases "fst x") (auto simp: row_matches_def)
qed simp

lemma verifying_chain_free: "verifying E n bs \<Longrightarrow> list_all chain_free bs"
  unfolding verifying_def list_all_iff by (auto dest!: set_mono_prefix subsetD)

lemma map_filter_simps: "List.map_filter f [] = []"
  "List.map_filter f (x # xs) = (case f x of None \<Rightarrow> List.map_filter f xs | Some y \<Rightarrow> y # List.map_filter f xs)"
  by (simp_all add: List.map_filter_def split: option.split)

lemma those_map_filter: "those (map f xs) = Some ys \<Longrightarrow> List.map_filter f xs = ys"
  by (induction xs arbitrary: ys) (auto simp: map_filter_simps split: option.splits)

lemma prefix_short:
  "prefix bs [x, y] \<longleftrightarrow> bs = [] \<or> bs = [x] \<or> bs = [x, y]"
  "prefix bs [x, y, z] \<longleftrightarrow> bs = [] \<or> bs = [x] \<or> bs = [x, y] \<or> bs = [x, y, z]"
  by (auto simp: prefix_Cons)

text \<open>An acceptance chooses the chain its relation has, or the one it enters.\<close>

lemma follow_accepting:
  assumes "accepting (accounts S) n bs" and "reads_chains parse S d"
    and "\<And>a b ch. r_chain_id (relations d (a, b)) = Some ch \<Longrightarrow> set (chain_users d ch) = {a, b}"
  shows "follow_chains parse (\<lambda>ch. set (chain_users d ch)) (map (\<lambda>i. (bs ! i, told S (n + i) (bs ! i))) [0..<length bs])
    \<and> set (new_chains (map (\<lambda>i. (bs ! i, told S (n + i) (bs ! i))) [0..<length bs])) \<subseteq> {time_uuid (accounts S)}
    \<and> distinct (new_chains (map (\<lambda>i. (bs ! i, told S (n + i) (bs ! i))) [0..<length bs]))"
proof -
  let ?C = "\<lambda>ch. set (chain_users d ch)"
  let ?it = "\<lambda>bs. map (\<lambda>i. (bs ! i, told S (n + i) (bs ! i))) [0..<length bs]"
  obtain u r ch pre where pre: "prefix bs (pre @ [UpdateRelation (accept_update ch (now_ms (accounts S))) u r,
      UpdateRelation (accept_update ch (now_ms (accounts S))) r u])"
    and ch: "pre = [] \<and> chain_of (accounts S) u r = Row ch \<and> \<not> uuid_zero_time (accounts S) ch
      \<or> pre = [InsertChainUsers ch [u, r] (now_ms (accounts S))] \<and> ch = time_uuid (accounts S)"
    using assms(1) unfolding accepting_def by blast
  let ?u = "UpdateRelation (accept_update ch (now_ms (accounts S))) u r"
  let ?v = "UpdateRelation (accept_update ch (now_ms (accounts S))) r u"
  have acc: "u_chain_id (accept_update ch t) = Col ch" for t by (simp add: accept_update_def)
  from ch show ?thesis
  proof
    assume old: "pre = [] \<and> chain_of (accounts S) u r = Row ch \<and> \<not> uuid_zero_time (accounts S) ch"
    then obtain a b where ab: "parse u = Some a" "parse r = Some b" "r_chain_id (relations d (a, b)) = Some ch"
      using assms(2) unfolding reads_chains_def by blast
    then have "row_matches parse ?C (accept_update ch t) u r" "row_matches parse ?C (accept_update ch t) r u" for t
      using assms(3) [OF ab(3)] by (auto simp: row_matches_def acc)
    moreover have "bs = [] \<or> bs = [?u] \<or> bs = [?u, ?v]" using pre old by (simp add: prefix_short)
    ultimately show ?thesis by (elim disjE) (simp_all add: upt_rec)
  next
    assume new: "pre = [InsertChainUsers ch [u, r] (now_ms (accounts S))] \<and> ch = time_uuid (accounts S)"
    have "row_matches parse (?C(ch := set (List.map_filter parse [u, r]))) (accept_update ch t) u r"
      "row_matches parse (?C(ch := set (List.map_filter parse [u, r]))) (accept_update ch t) r u" for t
      by (auto simp: row_matches_def acc map_filter_simps)
    moreover have "bs = [] \<or> bs = pre \<or> bs = pre @ [?u] \<or> bs = pre @ [?u, ?v]" using pre new by (simp add: prefix_short)
    ultimately show ?thesis using new by (elim disjE) (simp_all add: upt_rec)
  qed
qed

subsection \<open>The invariant of the chains\<close>

definition members :: "db \<Rightarrow> uuid \<Rightarrow> uuid set" where
  "members d ch = set (chain_users d ch)"

definition chains_ahead :: "world \<Rightarrow> uuid list" where
  "chains_ahead w = concat (map new_chains (pending w))"

definition rows_in_chains :: "db \<Rightarrow> bool" where
  "rows_in_chains d \<longleftrightarrow> (\<forall>a b ch. r_chain_id (relations d (a, b)) = Some ch \<longrightarrow> members d ch = {a, b})
     \<and> (\<forall>ch. distinct (chain_users d ch))"

definition chains_inv :: "(string \<Rightarrow> uuid option) \<Rightarrow> world \<Rightarrow> bool" where
  "chains_inv parse w \<longleftrightarrow> rows_in_chains (tables_now w)
     \<and> (\<forall>l\<in>set (pending w). follow_chains parse (members (tables_now w)) l \<and> list_all chains_entered l)
     \<and> distinct (chains_ahead w) \<and> (\<forall>ch\<in>set (chains_ahead w). members (tables_now w) ch = {})
     \<and> (\<forall>ch. ch \<in> set (chains_ahead w) \<or> members (tables_now w) ch \<noteq> {} \<longrightarrow> ch \<in> drawn w)"

lemma new_chains_Cons: "new_chains ((cmd, t) # xs) = (case cmd of InsertChainUsers ch us t' \<Rightarrow> [ch] | _ \<Rightarrow> []) @ new_chains xs"
  by (cases cmd) simp_all

lemma served_chains:
  assumes "serve S r new_srv = Done (err, c')" and "reads_chains parse S d" and "rows_in_chains d"
  shows "follow_chains parse (members d) (with_told S (commands c'))"
    and "set (new_chains (with_told S (commands c'))) \<subseteq> {time_uuid (accounts S)}"
    and "distinct (new_chains (with_told S (commands c')))"
proof -
  obtain as bs where cmds: "commands c' = as @ bs" "list_all ordinary as" "last_commands S (length as) bs"
    using serve_commands [OF assms(1)] by blast
  let ?it = "\<lambda>n xs. map (\<lambda>i. (xs ! i, told S (n + i) (xs ! i))) [0..<length xs]"
  have free: "list_all (chain_free \<circ> fst) (?it n xs)" if "list_all chain_free xs" for n xs
    using that by (simp add: list_all_length)
  have "list_all chain_free as" using cmds(2) ordinary_chain_free by (auto simp: list_all_iff)
  from follow_chains_free [OF free [OF this, of 0]]
  have skip: "follow_chains parse C (with_told S as @ ys) = follow_chains parse C ys" "new_chains (with_told S as @ ys) = new_chains ys" for C ys
    by (simp_all add: with_told_def)
  have "follow_chains parse (members d) (?it (length as) bs) \<and> set (new_chains (?it (length as) bs)) \<subseteq> {time_uuid (accounts S)}
      \<and> distinct (new_chains (?it (length as) bs))"
    using cmds(3) unfolding last_commands_def
  proof
    assume "accepting (accounts S) (length as) bs"
    from follow_accepting [OF this assms(2)] assms(3) show ?thesis by (auto simp: rows_in_chains_def members_def [abs_def])
  next
    assume "verifying (accounts S) (length as) bs"
    note v = verifying_chain_free [OF this]
    from follow_chains_free [OF free [OF v], where n1 = "length as" and parse = parse and C = "members d" and ys = "[]"]
    show ?thesis by simp
  qed
  then show "follow_chains parse (members d) (with_told S (commands c'))"
    "set (new_chains (with_told S (commands c'))) \<subseteq> {time_uuid (accounts S)}" "distinct (new_chains (with_told S (commands c')))"
    unfolding cmds(1) with_told_append skip by auto
qed

text \<open>What an effect does to the members, and to the rows.\<close>

lemma effect_members:
  assumes "takes_effect parse (cmd, t) d d'" and "chains_entered (cmd, t)"
    and "\<And>ch us t'. cmd = InsertChainUsers ch us t' \<Longrightarrow> members d ch = {}"
  shows "members d' = (case cmd of InsertChainUsers ch us t' \<Rightarrow> (members d)(ch := set (List.map_filter parse us)) | _ \<Rightarrow> members d)"
proof (cases cmd)
  case (InsertChainUsers ch us t')
  then have "apply_command parse cmd d = Some d'" using assms(1,2) by (auto elim: takes_effectE)
  with InsertChainUsers obtain ids where ids: "those (map parse us) = Some ids"
    "d' = d\<lparr>chain_users := (chain_users d)(ch := fold List.insert ids (chain_users d ch))\<rparr>" by (auto split: option.splits)
  then have "members d' ch = set ids \<union> members d ch" "\<And>c. c \<noteq> ch \<Longrightarrow> members d' c = members d c"
    by (auto simp: members_def fold_insert_set)
  then have "members d' = (members d)(ch := set (List.map_filter parse us))"
    using assms(3) [OF InsertChainUsers] those_map_filter [OF ids(1)] by (auto simp: fun_eq_iff)
  with InsertChainUsers show ?thesis by simp
qed (use takes_effect_apply [OF assms(1)] apply_chains [of parse cmd d d'] in \<open>auto simp: members_def fun_eq_iff\<close>)

lemma effect_distinct: "takes_effect parse (cmd, t) d d' \<Longrightarrow> \<forall>ch. distinct (chain_users d ch) \<Longrightarrow> distinct (chain_users d' ch)"
proof (cases "d' = d")
  case False
  assume eff: "takes_effect parse (cmd, t) d d'" and dist: "\<forall>ch. distinct (chain_users d ch)"
  have "apply_command parse cmd d = Some d'" using takes_effect_apply [OF eff] False by blast
  from members.kept [OF dist this] show ?thesis by blast
qed simp

lemma apply_rows:
  assumes "apply_command parse cmd d = Some d'"
  shows "relations d' = relations d \<or> (\<exists>u x y a b. cmd = UpdateRelation u x y \<and> parse x = Some a \<and> parse y = Some b
    \<and> relations d' = (relations d)((a, b) := update_relation u (relations d (a, b))))"
  using assms by (cases cmd) (auto split: option.splits)

lemma effect_rows:
  assumes "takes_effect parse (cmd, t) d d'" and "r_chain_id (relations d' (a, b)) = Some ch"
  shows "r_chain_id (relations d (a, b)) = Some ch
    \<or> (\<exists>u x y. cmd = UpdateRelation u x y \<and> u_chain_id u = Col ch \<and> parse x = Some a \<and> parse y = Some b)"
proof (cases "d' = d")
  case False
  then have "apply_command parse cmd d = Some d'" using takes_effect_apply [OF assms(1)] by blast
  from apply_rows [OF this] show ?thesis
  proof
    assume "relations d' = relations d"
    then show ?thesis using assms(2) by simp
  next
    assume "\<exists>u x y a b. cmd = UpdateRelation u x y \<and> parse x = Some a \<and> parse y = Some b
      \<and> relations d' = (relations d)((a, b) := update_relation u (relations d (a, b)))"
    then obtain u x y a' b' where u: "cmd = UpdateRelation u x y" "parse x = Some a'" "parse y = Some b'"
      "relations d' = (relations d)((a', b') := update_relation u (relations d (a', b')))" by blast
    show ?thesis
    proof (cases "(a', b') = (a, b)")
      case True
      then show ?thesis using assms(2) u by (cases "u_chain_id u") (auto simp: update_relation_def)
    qed (use assms(2) u in auto)
  qed
qed (use assms(2) in simp)

lemma chains_inv_step:
  assumes "world_step parse chains_entered w w'" and "chains_inv parse w"
  shows "chains_inv parse w'"
  using assms(1)
proof cases
  case (arrives S r err c')
  let ?l = "with_told S (commands c')"
  have rows: "rows_in_chains (tables_now w)" using assms(2) by (simp add: chains_inv_def)
  note new = served_chains [OF arrives(2,4) rows]
  have "chains_ahead w' = chains_ahead w @ new_chains ?l" "tables_now w' = tables_now w" "pending w' = pending w @ [?l]"
    "drawn w' = insert (time_uuid (accounts S)) (drawn w)"
    using arrives(1) by (simp_all add: chains_ahead_def)
  moreover have "members (tables_now w) (time_uuid (accounts S)) = {}" "time_uuid (accounts S) \<notin> set (chains_ahead w)"
    using assms(2) arrives(5) unfolding chains_inv_def by blast+
  ultimately show ?thesis using assms(2) new arrives(6) unfolding chains_inv_def by (auto simp: distinct_append)
next
  case (works before item rest after d')
  obtain cmd t where item: "item = (cmd, t)" by (cases item)
  let ?d = "tables_now w"
  let ?new = "case cmd of InsertChainUsers ch us t' \<Rightarrow> [ch] | _ \<Rightarrow> []"
  have ahead: "chains_ahead w = concat (map new_chains before) @ ?new @ new_chains rest @ concat (map new_chains after)"
    "chains_ahead w' = concat (map new_chains before) @ new_chains rest @ concat (map new_chains after)"
    and w': "tables_now w' = d'" "pending w' = before @ rest # after" "drawn w' = drawn w"
    using works(1,2) by (simp_all add: chains_ahead_def item new_chains_Cons)
  have fl: "follow_chains parse (members ?d) (item # rest)" and en: "chains_entered item" "list_all chains_entered rest"
    using assms(2) works(2) by (auto simp: chains_inv_def)
  have empty: "members ?d ch = {}" "ch \<notin> set (chains_ahead w')" if "cmd = InsertChainUsers ch us t'" for ch us t'
    using assms(2) that unfolding chains_inv_def ahead by auto
  have mem: "members d' = (case cmd of InsertChainUsers ch us t' \<Rightarrow> (members ?d)(ch := set (List.map_filter parse us)) | _ \<Rightarrow> members ?d)"
    by (rule effect_members [OF works(3) [unfolded item]]) (use en empty item in auto)
  have grows: "members d' ch = members ?d ch" if "members ?d ch \<noteq> {}" for ch
  proof (cases cmd)
    case (InsertChainUsers c us t')
    then have "ch \<noteq> c" using empty(1) [OF InsertChainUsers] that by auto
    then show ?thesis using mem InsertChainUsers by simp
  qed (simp_all add: mem)
  have ahead_empty: "members d' ch = {}" if "ch \<in> set (chains_ahead w')" for ch
  proof -
    have "ch \<in> set (chains_ahead w)" using that unfolding ahead by auto
    then have none: "members ?d ch = {}" using assms(2) unfolding chains_inv_def by blast
    show ?thesis
    proof (cases cmd)
      case (InsertChainUsers c us t')
      then have "ch \<noteq> c" using empty(2) [OF InsertChainUsers] that by auto
      then show ?thesis using mem none InsertChainUsers by simp
    qed (simp_all add: mem none)
  qed
  have known: "ch \<in> drawn w" if "ch \<in> set (chains_ahead w') \<or> members d' ch \<noteq> {}" for ch
  proof -
    have "ch \<in> set (chains_ahead w) \<or> members ?d ch \<noteq> {}"
    proof (cases "ch \<in> set (chains_ahead w')")
      case True
      then show ?thesis unfolding ahead by auto
    next
      case False
      then have "members d' ch \<noteq> {}" using that by blast
      then show ?thesis using mem unfolding ahead(1) by (cases cmd) (auto split: if_splits)
    qed
    then show ?thesis using assms(2) unfolding chains_inv_def by blast
  qed
  have rest: "follow_chains parse (members d') rest"
    using fl mem item by (cases cmd) auto
  have others: "follow_chains parse (members d') l \<and> list_all chains_entered l" if "l \<in> set before \<union> set after" for l
    using that assms(2) works(2) grows follow_chains_mono [of parse "members ?d" l "members d'"] unfolding chains_inv_def by auto
  have "members d' ch = {a, b}" if row: "r_chain_id (relations d' (a, b)) = Some ch" for a b ch
  proof -
    from effect_rows [OF works(3) [unfolded item] row] have "members ?d ch = {a, b}"
    proof
      assume "r_chain_id (relations ?d (a, b)) = Some ch"
      then show ?thesis using assms(2) unfolding chains_inv_def rows_in_chains_def by blast
    next
      assume "\<exists>u x y. cmd = UpdateRelation u x y \<and> u_chain_id u = Col ch \<and> parse x = Some a \<and> parse y = Some b"
      then show ?thesis using fl item by (auto simp: row_matches_def)
    qed
    then show ?thesis using grows [of ch] by auto
  qed
  moreover have "distinct (chain_users d' ch)" for ch
    using effect_distinct [OF works(3) [unfolded item]] assms(2) by (auto simp: chains_inv_def rows_in_chains_def)
  ultimately have "rows_in_chains d'" by (simp add: rows_in_chains_def)
  moreover have "distinct (chains_ahead w')"
  proof -
    have "distinct (chains_ahead w)" using assms(2) unfolding chains_inv_def by blast
    then show ?thesis unfolding ahead distinct_append set_append by blast
  qed
  moreover have "\<forall>l\<in>set (before @ rest # after). follow_chains parse (members d') l \<and> list_all chains_entered l"
    using rest en(2) others by simp
  ultimately show ?thesis unfolding chains_inv_def w' using ahead_empty known by blast
qed

lemma reachable_chains: "reachable_world parse chains_entered w \<Longrightarrow> chains_inv parse w"
proof (induction rule: reachable_world.induct)
  case at_first
  then show ?case by (simp add: chains_inv_def chains_ahead_def rows_in_chains_def empty_db_def empty_relations_def members_def)
qed (rule chains_inv_step)

subsection \<open>Properties\<close>

text \<open>The query for the users of a chain finds the rows of the table, in some order.\<close>

definition reads_members :: "'e server_env_scheme \<Rightarrow> db \<Rightarrow> uuid \<Rightarrow> bool" where
  "reads_members F d ch \<longleftrightarrow> (\<exists>us. users_of_chain F ch = map Some us \<and> mset us = mset (chain_users d ch))"

lemma two_members:
  assumes "mset us = mset vs" and "distinct vs" and "set vs = {a, b}" and "a \<noteq> b"
  shows "us = [a, b] \<or> us = [b, a]"
proof -
  have us: "set us = {a, b}" "distinct us" using assms by (metis mset_eq_setD, metis mset_eq_imp_distinct_iff)
  then have "length us = 2" using assms(4) distinct_card [of us] by simp
  then obtain x y where "us = [x, y]" by (auto simp: length_Suc_conv numeral_2_eq_2)
  then show ?thesis using us by auto
qed

lemma middleware_on_two:
  assumes "parse_uuid F (path_param req ''chainID'') = Some ch" and "users_of_chain F ch = [Some x, Some y]"
    and "locals c ''userid'' = Some z"
  shows "ChainRequestMiddleware F req c =
    (if x = z then Done (None, c\<lparr>locals := (locals c)(''requestid'' \<mapsto> y, ''chainid'' \<mapsto> ch), passed := True\<rparr>)
     else if y = z then Done (None, c\<lparr>locals := (locals c)(''requestid'' \<mapsto> x, ''chainid'' \<mapsto> ch), passed := True\<rparr>)
     else Done (HandleBadRequestError (encodes F) ''ChainID'' ''unauthorized'' c))"
  using assms by (simp add: ChainRequestMiddleware_def ParseParamChainUUID_def GetChainsUsers_def local_string_def Let_def)

text \<open>C16: Two users share their chain and nobody else does. After requests in any interleaving, succeeding or
  failing, as long as no chain failed to be entered: when the row of a user for another one names a
  chain, the middleware of the chains, reading the table, lets through exactly these two for it, each with
  the other as the one to send to.\<close>

theorem relations_share_their_chain:
  assumes "reachable_world parse chains_entered w" and "r_chain_id (relations (tables_now w) (a, b)) = Some ch" and "a \<noteq> b"
    and "reads_members F (tables_now w) ch" and "parse_uuid F (path_param req ''chainID'') = Some ch"
    and "locals c ''userid'' = Some z" and "\<not> passed c"
  shows "\<exists>err c'. ChainRequestMiddleware F req c = Done (err, c') \<and> (passed c' \<longleftrightarrow> z = a \<or> z = b)
    \<and> (z = a \<longrightarrow> locals c' = (locals c)(''requestid'' \<mapsto> b, ''chainid'' \<mapsto> ch))
    \<and> (z = b \<longrightarrow> locals c' = (locals c)(''requestid'' \<mapsto> a, ''chainid'' \<mapsto> ch))"
proof -
  have inv: "set (chain_users (tables_now w) ch) = {a, b}" "distinct (chain_users (tables_now w) ch)"
    using reachable_chains [OF assms(1)] assms(2) unfolding chains_inv_def rows_in_chains_def members_def by blast+
  obtain us where us: "users_of_chain F ch = map Some us" and same: "mset us = mset (chain_users (tables_now w) ch)"
    using assms(4) unfolding reads_members_def by blast
  obtain e c1 where refused: "HandleBadRequestError (encodes F) ''ChainID'' ''unauthorized'' c = (e, c1)" by fastforce
  then have no: "\<not> passed c1" using helper_passed(2) assms(7) by blast
  from two_members [OF same inv(2,1) assms(3)] show ?thesis
  proof
    assume "us = [a, b]"
    then have "users_of_chain F ch = [Some a, Some b]" using us by simp
    note mw = middleware_on_two [OF assms(5) this assms(6)]
    show ?thesis unfolding mw refused using no assms(3) by (cases "z = a"; cases "z = b") simp_all
  next
    assume "us = [b, a]"
    then have "users_of_chain F ch = [Some b, Some a]" using us by simp
    note mw = middleware_on_two [OF assms(5) this assms(6)]
    show ?thesis unfolding mw refused using no assms(3) by (cases "z = a"; cases "z = b") simp_all
  qed
qed

lemma exec_ok_frame:
  "nanoid4 (E\<lparr>exec_ok := f\<rparr>) = nanoid4 E" "marshal_message (E\<lparr>exec_ok := f\<rparr>) = marshal_message E"
  "router_ok (E\<lparr>exec_ok := f\<rparr>) = router_ok E" "encodes (E\<lparr>exec_ok := f\<rparr>) = encodes E" "now_nano (E\<lparr>exec_ok := f\<rparr>) = now_nano E"
  "time_uuid (E\<lparr>exec_ok := f\<rparr>) = time_uuid E" "chain_of (E\<lparr>exec_ok := f\<rparr>) = chain_of E"
  by (cases E, simp)+

lemma exec_ok_now: "now_ms (E\<lparr>exec_ok := f\<rparr>) = now_ms E"
  by (simp add: now_ms_def exec_ok_frame)

lemma send_payload_exec: "send_payload (E\<lparr>exec_ok := f\<rparr>) op t atomic d c = send_payload E op t atomic d c"
  unfolding send_payload_def write_router_def now_ms_def exec_ok_frame ..

text \<open>C39: A chain that is not entered is lost for good. When the batch that enters the users of a new chain
  fails, the answer says 500 but the acceptance goes on: both rows become friendships with the chain that
  has no users. From then on, for any environment that reads that row and finds no users, another
  acceptance enters no chain and keeps the lost one, and the middleware refuses it to everyone.\<close>

theorem failed_batch_loses_the_chain:
  assumes "services_work E" and "E1 = E\<lparr>exec_ok := (\<lambda>n. n \<noteq> 0)\<rparr>"
    and "signed_in a na sa c" and "commands c = []" and "path_param req ''relationID'' = b" and "chain_of E a b = NotFound"
    and "services_work E2" and "signed_in z nz sz c2" and "path_param req2 ''relationID'' = other"
    and "chain_of E2 z other = Row (time_uuid E)" and "\<not> uuid_zero_time E2 (time_uuid E)"
    and "users_of_chain F (time_uuid E) = []" and "parse_uuid F (path_param req3 ''chainID'') = Some (time_uuid E)" and "\<not> passed c3"
  shows "(\<exists>c'. AcceptRelation E1 req c = Done (None, c') \<and> status c' = 500
      \<and> commands c' = [InsertChainUsers (time_uuid E) [a, b] (now_ms E), UpdateRelation (accept_update (time_uuid E) (now_ms E)) a b,
          UpdateRelation (accept_update (time_uuid E) (now_ms E)) b a])
    \<and> (\<exists>c'. AcceptRelation E2 req2 c2 = Done (None, c')
      \<and> commands c' = commands c2 @ [UpdateRelation (accept_update (time_uuid E) (now_ms E2)) z other,
          UpdateRelation (accept_update (time_uuid E) (now_ms E2)) other z])
    \<and> (\<exists>err c'. ChainRequestMiddleware F req3 c3 = Done (err, c') \<and> \<not> passed c')"
proof (intro conjI)
  let ?ins = "InsertChainUsers (time_uuid E) [a, b] (now_ms E)"
  let ?acc = "accept_update (time_uuid E) (now_ms E)"
  obtain c1 where c1: "InsertChainsUsers E1 (time_uuid E) [a, b] c = (None, c1)" "commands c1 = [?ins]" "status c1 = 500" "locals c1 = locals c"
    using assms(1,4) by (simp add: assms(2) InsertChainsUsers_def exec_def HandleInternalError_def c_json_def services_work_def exec_ok_frame exec_ok_now)
  then have in1: "signed_in a na sa c1" using assms(3) by (simp add: signed_in_def)
  have now: "now_ms E1 = now_ms E" "time_uuid E1 = time_uuid E" "encodes E1 r" "chain_of E1 a b = NotFound" for r
    using assms(1,6) by (simp_all add: assms(2) exec_ok_frame services_work_def exec_ok_now)
  have "AcceptRelation E1 req c = accept_with_chain E1 (time_uuid E) a b c1"
    using assms(3,5) c1(1) by (simp add: AcceptRelation_def signed_in_locals CheckExistingRelationChain_def now Let_def)
  also have "\<dots> = Done (None, c1\<lparr>commands := [?ins, UpdateRelation ?acc a b, UpdateRelation ?acc b a],
      outbox := outbox c1 @ [sends E 201 a sa b (FriendAcceptData (time_uuid E) (now_ms E))],
      body := Some (AcceptedBody (time_uuid E) (now_ms E))\<rparr>)"
    using c1(2) in1 send_payload_works [OF assms(1), of a na sa]
    by (simp add: accept_with_chain_def exec_def now FriendAccepted_def assms(2) exec_ok_frame exec_ok_now send_payload_exec c_json_def sends_def Let_def)
       (use assms(1) in \<open>simp add: services_work_def\<close>)
  finally show "\<exists>c'. AcceptRelation E1 req c = Done (None, c') \<and> status c' = 500
      \<and> commands c' = [?ins, UpdateRelation ?acc a b, UpdateRelation ?acc b a]"
    using c1(3) by simp
next
  have "AcceptRelation E2 req2 c2 = accept_with_chain E2 (time_uuid E) z other c2"
    using assms(8-11) by (simp add: AcceptRelation_def signed_in_locals CheckExistingRelationChain_def Let_def)
  with accept_works [OF assms(7,8), of "time_uuid E" other]
  show "\<exists>c'. AcceptRelation E2 req2 c2 = Done (None, c')
      \<and> commands c' = commands c2 @ [UpdateRelation (accept_update (time_uuid E) (now_ms E2)) z other,
          UpdateRelation (accept_update (time_uuid E) (now_ms E2)) other z]" by simp
next
  obtain e c' where refused: "HandleBadRequestError (encodes F) ''ChainID'' ''invalid'' c3 = (e, c')" by fastforce
  then have "\<not> passed c'" using helper_passed(2) assms(14) by blast
  with refused show "\<exists>err c'. ChainRequestMiddleware F req3 c3 = Done (err, c') \<and> \<not> passed c'"
    using assms(12,13) by (simp add: ChainRequestMiddleware_def ParseParamChainUUID_def GetChainsUsers_def)
qed

subsection \<open>Witnesses\<close>

lemma serve_accept:
  assumes "segments r = [''api'', version S, ''user'', ''relation'', x, ''accept'']" and "http_method r = POST"
    and "Authenticate (accounts S) (request.truncate (bind_params [] r)) (c\<lparr>passed := False\<rparr>) = Done (e, c1)" and "passed c1"
    and "AcceptRelation (accounts S) (request.truncate (bind_params [(''relationID'', x)] r)) (c1\<lparr>passed := False\<rparr>) = Done (err, c')"
  shows "serve S r c = Done (err, c')"
proof -
  have path: "segments r = ''api'' # version S # ''user'' # [''relation'', x, ''accept'']" using assms(1) by simp
  have "\<not> passed c'" using accept_issues [OF assms(5)] by simp
  then show ?thesis
    unfolding serve_user [OF path] assms(3)
    using assms(1,2,4,5) by (simp add: outcome_simps after_auth_def relationRoutes_def userRelationRoutes_def route_defs cong: if_cong)
qed

definition fresh_request :: request where
  "fresh_request = (demo_request ''tok'' ''r'')\<lparr>header := (header (demo_request ''tok'' ''r''))(''x-refresh-token-expire'' := ''50'')\<rparr>"

definition accept_request :: full_request where
  "accept_request = demo_full fresh_request POST [''api'', ''v1'', ''user'', ''relation'', ''b'', ''accept'']"

lemma accept_request_served:
  "\<exists>c'. serve demo_site accept_request new_srv = Done (None, c') \<and> commands c' = [InsertChainUsers ''t1'' [''zz'', ''b''] 7,
     UpdateRelation (accept_update ''t1'' 7) ''zz'' ''b'', UpdateRelation (accept_update ''t1'' 7) ''b'' ''zz'']"
proof -
  let ?E = "accounts demo_site"
  have works: "services_work ?E" by (simp add: services_work_def demo_site_def demo_accounts_def server_env.extend_def demo_server_def)
  have facts: "time_uuid ?E = ''t1''" "now_ms ?E = 7" "chain_of ?E u v = NotFound" for u v
    by (simp_all add: demo_site_def demo_accounts_def server_env.extend_def demo_server_def now_ms_def)
  let ?c1 = "new_srv\<lparr>locals := [''userid'' \<mapsto> ''zz'', ''username'' \<mapsto> ''zoe'', ''sessionid'' \<mapsto> ''s1''], passed := True\<rparr>"
  have auth: "Authenticate ?E (request.truncate (bind_params [] accept_request)) (new_srv\<lparr>passed := False\<rparr>) = Done (None, ?c1)"
    by (simp add: accept_request_def fresh_request_def Authenticate_def demo_request_def demo_split parse_small Let_def ParseJWT_def
        authorize_def set_locals_def demo_site_def demo_accounts_def server_env.extend_def demo_server_def new_srv_def outcome_simps)
  have "signed_in ''zz'' ''zoe'' ''s1'' (?c1\<lparr>passed := False\<rparr>)" by (simp add: signed_in_def)
  from accept_new_chain [OF works this, of "''b''" "request.truncate (bind_params [(''relationID'', ''b'')] accept_request)" nil_uuid "?c1\<lparr>passed := False\<rparr>"] this
  obtain c' where "AcceptRelation ?E (request.truncate (bind_params [(''relationID'', ''b'')] accept_request)) (?c1\<lparr>passed := False\<rparr>) = Done (None, c')"
    and cmds: "commands c' = [InsertChainUsers ''t1'' [''zz'', ''b''] 7,
     UpdateRelation (accept_update ''t1'' 7) ''zz'' ''b'', UpdateRelation (accept_update ''t1'' 7) ''b'' ''zz'']"
    by (auto simp: facts CheckExistingRelationChain_def accept_request_def new_srv_def)
  then have "serve demo_site accept_request new_srv = Done (None, c')"
    by (intro serve_accept [OF _ _ auth]) (simp_all add: accept_request_def demo_site_def demo_full_def request.extend_def)
  then show ?thesis using cmds by blast
qed

text \<open>A run of one request whose commands all succeed.\<close>

lemma reachable_all_done:
  assumes "reachable_world parse ok \<lparr>tables_now = d, pending = [map (\<lambda>cmd. (cmd, Some True)) cmds], drawn = D\<rparr>"
    and "fold (\<lambda>cmd r. Option.bind r (apply_command parse cmd)) cmds (Some d) = Some d'"
    and "\<And>name uid. InsertUserPublic name uid \<notin> set cmds"
  shows "reachable_world parse ok \<lparr>tables_now = d', pending = [[]], drawn = D\<rparr>"
  using assms
proof (induction cmds arbitrary: d)
  case (Cons cmd cmds)
  have none: "fold (\<lambda>cmd r. Option.bind r (apply_command parse cmd)) xs None = None" for xs
    by (induction xs) simp_all
  obtain d1 where d1: "apply_command parse cmd d = Some d1"
    using Cons.prems(2) none by (cases "apply_command parse cmd d") auto
  have "takes_effect parse (cmd, Some True) d d1"
    by (rule takes_effect.carried_out [OF d1]) (use Cons.prems(3) in auto)
  with reachable_work [OF Cons.prems(1), of "[]" "(cmd, Some True)" _ "[]" d1]
  have "reachable_world parse ok \<lparr>tables_now = d1, pending = [map (\<lambda>cmd. (cmd, Some True)) cmds], drawn = D\<rparr>" by simp
  then show ?case by (rule Cons.IH) (use Cons.prems(2,3) d1 in auto)
qed simp

lemma accepted_reachable:
  "\<exists>w. reachable_world Some chains_entered w \<and> r_chain_id (relations (tables_now w) (''zz'', ''b'')) = Some ''t1''
     \<and> mset (chain_users (tables_now w) ''t1'') = {#''zz'', ''b''#}"
proof -
  let ?cmds = "[InsertChainUsers ''t1'' [''zz'', ''b''] 7, UpdateRelation (accept_update ''t1'' 7) ''zz'' ''b'',
     UpdateRelation (accept_update ''t1'' 7) ''b'' ''zz'']"
  obtain c' where run: "serve demo_site accept_request new_srv = Done (None, c')" and cmds: "commands c' = ?cmds"
    using accept_request_served by blast
  have site: "exec_ok (chains demo_site) = exec_ok (accounts demo_site)" "reads_chains Some demo_site d"
    "time_uuid (accounts demo_site) = ''t1''" for d
    by (simp_all add: demo_site_def demo_chain_def demo_accounts_def server_env.extend_def demo_server_def reads_chains_def)
  have items: "with_told demo_site (commands c') = map (\<lambda>cmd. (cmd, Some True)) ?cmds"
    by (intro nth_equalityI) (auto simp: cmds told_def demo_site_def demo_accounts_def server_env.extend_def demo_server_def
        nth_Cons' split: command.split)
  have "world_step Some chains_entered \<lparr>tables_now = empty_db, pending = [], drawn = {}\<rparr>
      \<lparr>tables_now = empty_db, pending = [map (\<lambda>cmd. (cmd, Some True)) ?cmds], drawn = {''t1''}\<rparr>"
    using world_step.arrives [OF run site(1), of Some "\<lparr>tables_now = empty_db, pending = [], drawn = {}\<rparr>" chains_entered] site(2,3)
    by (simp add: items)
  then have w0: "reachable_world Some chains_entered \<lparr>tables_now = empty_db, pending = [map (\<lambda>cmd. (cmd, Some True)) ?cmds], drawn = {''t1''}\<rparr>"
    by (rule reachable_world.onward [OF reachable_world.at_first])
  define d' where "d' = the (fold (\<lambda>cmd r. Option.bind r (apply_command Some cmd)) ?cmds (Some empty_db))"
  have final: "fold (\<lambda>cmd r. Option.bind r (apply_command Some cmd)) ?cmds (Some empty_db) = Some d'"
    by (simp add: d'_def)
  have "r_chain_id (relations d' (''zz'', ''b'')) = Some ''t1''" "mset (chain_users d' ''t1'') = {#''zz'', ''b''#}"
    by (simp_all add: d'_def empty_db_def update_relation_def accept_update_def no_update_def)
  with reachable_all_done [OF w0 final] show ?thesis by (intro exI [of _ "\<lparr>tables_now = d', pending = [[]], drawn = {''t1''}\<rparr>"]) simp
qed

theorem relations_share_their_chain_witness:
  "\<exists>w err c'. reachable_world Some chains_entered w
    \<and> ChainRequestMiddleware (demo_server\<lparr>users_of_chain := (\<lambda>_. [Some ''b'', Some ''zz''])\<rparr>) (relation_request ''t1'') (demo_user ''zz'' ''zoe'')
        = Done (err, c') \<and> passed c' \<and> locals c' ''requestid'' = Some ''b''"
proof -
  obtain w where w: "reachable_world Some chains_entered w" "r_chain_id (relations (tables_now w) (''zz'', ''b'')) = Some ''t1''"
    "mset (chain_users (tables_now w) ''t1'') = {#''zz'', ''b''#}" using accepted_reachable by blast
  let ?F = "demo_server\<lparr>users_of_chain := (\<lambda>_. [Some ''b'', Some ''zz''])\<rparr>"
  have "reads_members ?F (tables_now w) ''t1''"
    unfolding reads_members_def by (intro exI [of _ "[''b'', ''zz'']"]) (simp add: w(3) add_mset_commute)
  from relations_share_their_chain [OF w(1,2) _ this, of "relation_request ''t1''" "demo_user ''zz'' ''zoe''" "''zz''"] w(1)
  show ?thesis by (auto simp: demo_server_def demo_user_def new_srv_def)
qed

theorem failed_batch_loses_the_chain_witness:
  "\<exists>c'. AcceptRelation (demo_server\<lparr>exec_ok := (\<lambda>n. n \<noteq> 0)\<rparr>) (relation_request ''b'') (demo_user ''a'' ''ann'') = Done (None, c')
     \<and> status c' = 500 \<and> length (commands c') = 3"
proof -
  let ?E2 = "demo_server\<lparr>chain_of := (\<lambda>_ _. Row ''t1'')\<rparr>"
  have works: "services_work ?E2" by (simp add: services_work_def demo_server_def)
  have env: "chain_of demo_server ''a'' ''b'' = NotFound" "chain_of ?E2 ''b'' ''a'' = Row (time_uuid demo_server)"
    "\<not> uuid_zero_time ?E2 (time_uuid demo_server)" "users_of_chain (demo_server\<lparr>users_of_chain := (\<lambda>_. [])\<rparr>) (time_uuid demo_server) = []"
    "parse_uuid (demo_server\<lparr>users_of_chain := (\<lambda>_. [])\<rparr>) (path_param (relation_request ''t1'') ''chainID'') = Some (time_uuid demo_server)"
    "\<not> passed (demo_user ''a'' ''ann'')"
    by (simp_all add: demo_server_def demo_user_def new_srv_def)
  note lost = failed_batch_loses_the_chain [OF demo_server_works refl demo_user_simps(1,2) demo_user_simps(3) env(1) works demo_user_simps(1)
      demo_user_simps(3) env(2-6), where na = "''ann''" and nz = "''bob''"]
  from conjunct1 [OF lost] show ?thesis by auto
qed

end
