(* ===== verification/Chain_Messages.thy ===== *)
theory Chain_Messages imports Relations_System begin

text \<open>
  The rows of the table \<open>chains\<close> as a state: what the insertion behind an upload and the update behind a read
  message make of them, what the three queries of a page find there, and which of them a page lists. The
  table is keyed by the chain and the time of a message, ordered by time, and its statements set no time to
  live.
\<close>

subsection \<open>The rows of a chain\<close>

text \<open>The rows of each chain, in ascending time. An update of a row that is not there creates it, with
  every other column null; a null column is read as the zero value of its Go type.\<close>

type_synonym message_table = "uuid \<Rightarrow> chain_row list"

definition null_row :: "int \<Rightarrow> chain_row" where
  "null_row created = \<lparr>cr_message_id = Some nil_uuid, cr_created = created, cr_user_id = nil_uuid, cr_expires = - 62135596800000,
     cr_type = 0, cr_seen = False, cr_display = '''', cr_duration = 0\<rparr>"

fun put_row :: "int \<Rightarrow> (chain_row \<Rightarrow> chain_row) \<Rightarrow> chain_row list \<Rightarrow> chain_row list" where
  "put_row t f [] = [f (null_row t)]"
| "put_row t f (r # rs) =
     (if cr_created r = t then f r # rs
      else if t < cr_created r then f (null_row t) # r # rs
      else r # put_row t f rs)"

text \<open>The insertion leaves \<open>seen\<close> unset, so that it keeps the value of a row already there.\<close>

fun apply_message :: "(string \<Rightarrow> uuid option) \<Rightarrow> command \<Rightarrow> message_table \<Rightarrow> message_table option" where
  "apply_message parse (InsertMessage ch created m user expires typ display duration) T =
     (case parse user of None \<Rightarrow> None
      | Some u \<Rightarrow> Some (T(ch := put_row created (\<lambda>r. r\<lparr>cr_message_id := Some m, cr_user_id := u, cr_expires := expires,
          cr_type := typ, cr_display := display, cr_duration := duration\<rparr>) (T ch))))"
| "apply_message parse (SetSeen x created) T =
     (case parse x of None \<Rightarrow> None | Some ch \<Rightarrow> Some (T(ch := put_row created (\<lambda>r. r\<lparr>cr_seen := True\<rparr>) (T ch))))"
| "apply_message parse _ T = Some T"

text \<open>What the queries find: the rows on their side of the moment, nearest first.\<close>

definition in_order :: "chain_row list \<Rightarrow> bool" where
  "in_order rs \<longleftrightarrow> sorted_wrt (\<lambda>a b. cr_created a < cr_created b) rs"

fun select_rows :: "message_table \<Rightarrow> chain_query \<Rightarrow> chain_row list" where
  "select_rows T (SelectAfter ch t n) = take (nat n) (filter (\<lambda>r. t < cr_created r) (T ch))"
| "select_rows T (SelectBefore ch t n) = take (nat n) (rev (filter (\<lambda>r. cr_created r < t) (T ch)))"
| "select_rows T (SelectUpTo ch t n) = take (nat n) (rev (filter (\<lambda>r. cr_created r \<le> t) (T ch)))"

definition reads_messages :: "'e chain_env_scheme \<Rightarrow> message_table \<Rightarrow> bool" where
  "reads_messages E T \<longleftrightarrow> (\<forall>q. query_chain E q = select_rows T q)"

subsection \<open>Rows put and found\<close>

lemma put_row_times: "cr_created ` set (put_row t f rs) \<subseteq> insert t (cr_created ` set rs)" if "\<And>r. cr_created (f r) = cr_created r"
  using that by (induction t f rs rule: put_row.induct) (auto simp: null_row_def)

lemma put_row_in_order:
  assumes "in_order rs" and "\<And>r. cr_created (f r) = cr_created r"
  shows "in_order (put_row t f rs)"
  using assms(1)
proof (induction rs)
  case Nil
  then show ?case by (simp add: in_order_def)
next
  case (Cons r rs)
  have times: "cr_created x \<in> insert t (cr_created ` set rs)" if "x \<in> set (put_row t f rs)" for x
    using put_row_times [of f t rs] assms(2) that by blast
  have "cr_created r < cr_created x" if "x \<in> set (put_row t f rs)" "cr_created r < t" for x
    using times [OF that(1)] that(2) Cons.prems by (auto simp: in_order_def)
  then show ?case using Cons assms(2) by (auto simp: in_order_def null_row_def)
qed

definition row_at :: "int \<Rightarrow> chain_row list \<Rightarrow> chain_row" where
  "row_at t rs = (case find (\<lambda>r. cr_created r = t) rs of None \<Rightarrow> null_row t | Some r \<Rightarrow> r)"

text \<open>The rows after a put: the one of that moment changed, all others as they were.\<close>

lemma row_at_Cons: "row_at t (r # rs) = (if cr_created r = t then r else row_at t rs)"
  by (simp add: row_at_def)

lemma row_at_new: "t \<notin> cr_created ` set rs \<Longrightarrow> row_at t rs = null_row t"
  by (auto simp: row_at_def find_None_iff split: option.split) (auto simp: find_Some_iff)

lemma put_row_split:
  assumes "in_order rs"
  shows "put_row t f rs = filter (\<lambda>r. cr_created r < t) rs @ f (row_at t rs) # filter (\<lambda>r. t < cr_created r) rs"
  using assms
proof (induction rs)
  case Nil
  then show ?case by (simp add: row_at_def)
next
  case (Cons r rs)
  have rest: "\<forall>x\<in>set rs. cr_created r < cr_created x" "in_order rs" using Cons.prems by (simp_all add: in_order_def)
  consider "cr_created r = t" | "t < cr_created r" | "cr_created r < t" by linarith
  then show ?case
  proof cases
    case 1
    then have "filter (\<lambda>r. cr_created r < t) rs = []" "filter (\<lambda>r. t < cr_created r) rs = rs"
      using rest(1) by (auto simp: filter_empty_conv filter_id_conv)
    then show ?thesis using 1 by (simp add: row_at_Cons)
  next
    case 2
    then have "filter (\<lambda>r. cr_created r < t) (r # rs) = []" "filter (\<lambda>r. t < cr_created r) (r # rs) = r # rs"
      "t \<notin> cr_created ` set (r # rs)"
      using rest(1) by (auto simp: filter_empty_conv filter_id_conv)
    then show ?thesis using 2 by (simp add: row_at_new)
  next
    case 3
    then show ?thesis using Cons.IH rest(2) by (auto simp: row_at_Cons)
  qed
qed

subsection \<open>What an accepted upload has written\<close>

lemma error_is_no_message:
  "HandleBadRequestError enc p d c = (e, c') \<Longrightarrow> body c' = Some (MessageBody m t) \<Longrightarrow> body c = Some (MessageBody m t)"
  "HandleInternalError enc p c = (e, c') \<Longrightarrow> body c' = Some (MessageBody m t) \<Longrightarrow> body c = Some (MessageBody m t)"
  by (auto simp: http_helpers split: if_splits)

lemma send_is_no_message:
  assumes "send_payload E op target atomic data c = Done (err, c')" and "body c' = Some (MessageBody m t)"
  shows "body c = Some (MessageBody m t)"
  using assms by (auto simp: send_payload_def write_router_def local_string_def outcome_simps Let_def dest: error_is_no_message
      split: option.splits if_splits prod.splits)

definition upload_commands :: "uuid \<Rightarrow> uuid \<Rightarrow> uuid \<Rightarrow> uuid \<Rightarrow> int \<Rightarrow> string \<Rightarrow> int \<Rightarrow> int \<Rightarrow> command list" where
  "upload_commands ch uid other m t display duration expires =
     [PutObject ''audio-expire'' (ch @ ''_'' @ m), InsertMessage ch t m uid expires 0 display duration,
      UpdateRelation (no_update\<lparr>u_last_recv := Col t\<rparr>) other uid, UpdateRelation (no_update\<lparr>u_last_seen := Col t\<rparr>) uid other]"

lemma store_audio_accepted:
  assumes "store_audio E uid ch other display duration expires c = Done (err, c')" and "body c = None"
    and "body c' = Some (MessageBody m t)"
  shows "m = time_uuid E \<and> t = uuid_ms E m \<and> commands c' = commands c @ upload_commands ch uid other m t display duration expires"
proof -
  let ?m = "time_uuid E"
  let ?cmds = "upload_commands ch uid other ?m (uuid_ms E ?m) display duration expires"
  let ?c4 = "c\<lparr>commands := commands c @ ?cmds\<rparr>"
  have no: "HandleInternalError (encodes E) p (c\<lparr>commands := x\<rparr>) \<noteq> (err, c')" for p x
    using error_is_no_message(2) [of "encodes E" p "c\<lparr>commands := x\<rparr>" err c' m t] assms(2,3) by auto
  have "and_then (SendMessage E other ch ?m (uuid_ms E ?m) expires 0 display duration ?c4) (\<lambda>(err, c5).
      if err \<noteq> None then Done (err, c5) else Done (c_json (encodes E) (MessageBody ?m (uuid_ms E ?m)) c5)) = Done (err, c')"
    using assms(1) no by (simp add: store_audio_def Let_def exec_def upload_commands_def split: if_splits)
  then obtain err5 c5 where sent: "SendMessage E other ch ?m (uuid_ms E ?m) expires 0 display duration ?c4 = Done (err5, c5)"
    and fin: "(if err5 \<noteq> None then (err5, c5) else c_json (encodes E) (MessageBody ?m (uuid_ms E ?m)) c5) = (err, c')"
    by (auto simp: outcome_simps split: if_splits)
  have "commands c5 = commands c @ ?cmds" using send_payload_commands [OF sent [unfolded SendMessage_def]] by simp
  moreover have "body c5 \<noteq> Some (MessageBody m t)"
    using send_is_no_message [OF sent [unfolded SendMessage_def], of m t] assms(2) by auto
  ultimately show ?thesis using fin assms(3) by (auto simp: c_json_def split: if_splits)
qed

text \<open>What a form says of the message.\<close>

definition form_says :: "'e chain_env_scheme \<Rightarrow> audio_form option \<Rightarrow> string \<Rightarrow> int \<Rightarrow> int \<Rightarrow> bool" where
  "form_says E form display duration expires \<longleftrightarrow> (\<exists>f d e days. form = Some f \<and> first_value (form_display f) = Done display
     \<and> first_value (form_duration f) = Done d \<and> parse_int d = Some duration \<and> first_value (form_expireDays f) = Done e
     \<and> parse_int e = Some days \<and> expires = days_later E (if 0 < days \<and> days < 60 then days else 60))"

lemma and_then_DoneE: "and_then m f = Done r \<Longrightarrow> (\<And>x. m = Done x \<Longrightarrow> f x = Done r \<Longrightarrow> P) \<Longrightarrow> P"
  by (auto simp: and_then_Done_iff)

lemma accepted_upload:
  assumes "AddAudioMessage E form c = Done (err, c')" and "body c = None" and "body c' = Some (MessageBody m t)"
    and "signed_in uid name sid c" and "locals c ''chainid'' = Some ch"
  obtains other display duration expires where "locals c ''requestid'' = Some other" and "m = time_uuid E" and "t = uuid_ms E m" and "form_says E form display duration expires"
    and "commands c' = commands c @ upload_commands ch uid other m t display duration expires"
proof -
  have no: "HandleBadRequestError (encodes E) p d c \<noteq> (err, c')" "HandleInternalError (encodes E) p c \<noteq> (err, c')" for p d
    using assms(2,3) by (auto dest: error_is_no_message)
  have user: "locals c ''userid'' = Some uid" using assms(4) by (simp add: signed_in_def)
  have "\<exists>other display duration expires. locals c ''requestid'' = Some other \<and> form_says E form display duration expires
      \<and> store_audio E uid ch other display duration expires c = Done (err, c')"
  proof (rule ccontr)
    assume "\<not> ?thesis"
    then have none: "\<not> (locals c ''requestid'' = Some other \<and> form_says E form display duration expires)" if "store_audio E uid ch other display duration expires c = Done (err, c')"
      for other display duration expires using that by blast
    show False
      using assms(1) no
      by (auto simp: AddAudioMessage_def local_string_def user assms(5) Let_def elim!: and_then_DoneE
          split: option.split_asm if_split_asm prod.split_asm) (drule none, simp add: form_says_def)+
  qed
  then show ?thesis using store_audio_accepted assms(2,3) that by blast
qed

subsection \<open>Pages of the rows\<close>

definition has_ids :: "chain_row list \<Rightarrow> bool" where
  "has_ids rs \<longleftrightarrow> (\<forall>r\<in>set rs. cr_message_id r \<noteq> None)"

definition newest :: "nat \<Rightarrow> 'a list \<Rightarrow> 'a list" where
  "newest k xs = drop (length xs - k) xs"

definition listed :: "'e server_env_scheme \<Rightarrow> chain_row \<Rightarrow> message_schema" where
  "listed E r = message_of E r (the (cr_message_id r))"

lemma newest_around: "length ys < k \<Longrightarrow> newest k (xs @ y # ys) = newest (k - 1 - length ys) xs @ y # ys"
  by (cases "k - 1 - length ys < length xs") (auto simp: newest_def)

lemma scan_listed: "has_ids rs \<Longrightarrow> scan_chain E rs ms = Some (ms @ map (listed E) rs)"
  by (subst scan_chain_rows) (auto simp: has_ids_def listed_def)

lemma page_limit: "0 < n \<Longrightarrow> nat (if 10 < n then 10 else n) = nat (min 10 (n :: int))"
  by (simp add: min_def)

lemma pages_of_rows:
  assumes "reads_messages E T" and "has_ids (T ch)" and "0 < n"
  shows "chain_page E ch t False True n = Some (map (listed E) (newest (nat (min 10 n)) (filter (\<lambda>r. cr_created r \<le> t) (T ch))))"
    and "chain_page E ch t False False n = Some (map (listed E) (newest (nat (min 10 n)) (filter (\<lambda>r. cr_created r < t) (T ch))))"
    and "chain_page E ch t True False n = Some (map (listed E) (take (nat (min 10 n)) (filter (\<lambda>r. t < cr_created r) (T ch))))"
proof -
  have ids: "has_ids (take k (filter P (T ch)))" "has_ids (take k (rev (filter P (T ch))))" for P k
    using assms(2) by (auto simp: has_ids_def dest!: in_set_takeD)
  note simps = chain_page_def Let_def reads_messages_def [THEN iffD1, OF assms(1), rule_format] page_limit [OF assms(3)]
    scan_listed [OF ids(1)] scan_listed [OF ids(2)] swap_loop_rev newest_def
  show "chain_page E ch t False True n = Some (map (listed E) (newest (nat (min 10 n)) (filter (\<lambda>r. cr_created r \<le> t) (T ch))))"
    "chain_page E ch t False False n = Some (map (listed E) (newest (nat (min 10 n)) (filter (\<lambda>r. cr_created r < t) (T ch))))"
    "chain_page E ch t True False n = Some (map (listed E) (take (nat (min 10 n)) (filter (\<lambda>r. t < cr_created r) (T ch))))"
    using assms(3) by (simp_all add: simps rev_map) (simp_all add: take_rev)
qed

text \<open>A limit of zero or less gives no rows.\<close>

lemma any_page_of_rows:
  assumes "reads_messages E T" and "has_ids (T ch)"
  shows "chain_page E ch t False True n = Some (map (listed E) (newest (nat (min 10 n)) (filter (\<lambda>r. cr_created r \<le> t) (T ch))))"
    and "chain_page E ch t False False n = Some (map (listed E) (newest (nat (min 10 n)) (filter (\<lambda>r. cr_created r < t) (T ch))))"
    and "chain_page E ch t True False n = Some (map (listed E) (take (nat (min 10 n)) (filter (\<lambda>r. t < cr_created r) (T ch))))"
  using pages_of_rows [OF assms] by (cases "0 < n"; simp add: chain_page_def newest_def)+

subsection \<open>The invariant of the rows\<close>

definition messages_ok :: "message_table \<Rightarrow> bool" where
  "messages_ok T \<longleftrightarrow> (\<forall>ch. in_order (T ch) \<and> has_ids (T ch))"

lemma put_row_ids: "has_ids rs \<Longrightarrow> (\<And>r. cr_message_id r \<noteq> None \<Longrightarrow> cr_message_id (f r) \<noteq> None) \<Longrightarrow> has_ids (put_row t f rs)"
  by (induction t f rs rule: put_row.induct) (auto simp: has_ids_def null_row_def)

lemma messages_ok_apply:
  assumes "messages_ok T" and "apply_message parse cmd T = Some T'"
  shows "messages_ok T'"
  using assms by (cases cmd) (auto simp: messages_ok_def put_row_in_order put_row_ids split: option.splits)

interpretation messages: command_store "apply_message parse" messages_ok for parse
  by unfold_locales (rule messages_ok_apply)

text \<open>A put on the row of a moment changes that row only, and is in its place when it is new.\<close>

lemma put_row_present:
  "in_order rs \<Longrightarrow> t \<in> cr_created ` set rs \<Longrightarrow> put_row t f rs = map (\<lambda>r. if cr_created r = t then f r else r) rs"
proof (induction rs)
  case (Cons r rs)
  have later: "\<forall>x\<in>set rs. cr_created r < cr_created x" using Cons.prems(1) by (simp add: in_order_def)
  then have "map (\<lambda>r. if cr_created r = t then f r else r) rs = rs" if "cr_created r = t" using that by (intro map_idI) auto
  then show ?case using Cons later by (auto simp: in_order_def)
qed simp

lemma put_row_absent:
  "in_order rs \<Longrightarrow> t \<notin> cr_created ` set rs \<Longrightarrow>
     put_row t f rs = filter (\<lambda>r. cr_created r < t) rs @ f (null_row t) # filter (\<lambda>r. t < cr_created r) rs"
  by (simp add: put_row_split row_at_new)

text \<open>Two messages of one chain in the same millisecond have one row: the second takes the place of the
  first and inherits its \<open>seen\<close>.\<close>

lemma simultaneous_upload_replaces:
  assumes "messages_ok T" and "r \<in> set (T ch)" and "cr_created r = t" and "parse uid = Some u"
    and "apply_message parse (InsertMessage ch t m uid expires typ display duration) T = Some T'"
  shows "r\<lparr>cr_message_id := Some m, cr_user_id := u, cr_expires := expires, cr_type := typ, cr_display := display,
      cr_duration := duration\<rparr> \<in> set (T' ch) \<and> length (T' ch) = length (T ch)"
proof -
  have "in_order (T ch)" "t \<in> cr_created ` set (T ch)" using assms(1-3) by (auto simp: messages_ok_def)
  from put_row_present [OF this] show ?thesis using assms(2-5) by auto
qed

subsection \<open>Properties\<close>

lemma upload_applied:
  assumes "parse uid = Some u" and "run_all (apply_message parse) (upload_commands ch uid other m t display duration expires) T = Some T'"
  shows "T' = T(ch := put_row t (\<lambda>r. r\<lparr>cr_message_id := Some m, cr_user_id := u, cr_expires := expires,
          cr_type := 0, cr_display := display, cr_duration := duration\<rparr>) (T ch))"
  using assms by (simp add: upload_commands_def)

lemma filter_up_to:
  assumes "\<And>r. r \<in> set xs \<Longrightarrow> cr_created r < t" and "\<And>r. r \<in> set ys \<Longrightarrow> t < cr_created r" and "cr_created y = t" and "t \<le> t2"
  shows "filter (\<lambda>r. cr_created r \<le> t2) (xs @ y # ys) = xs @ y # filter (\<lambda>r. cr_created r \<le> t2) ys"
  using assms by (auto simp: filter_id_conv) (meson order.trans order_less_imp_le)

text \<open>C22: a page is the stretch of the timeline around the requested moment. Whatever uploads and reads made the
  rows of a chain, from an empty table, \<open>GetChain\<close> answers with exactly these rows, each as its columns
  say, in strictly ascending order of their time: without a direction the newest ten up to the moment;
  with "desc" the newest ten before it and with "asc" the oldest ten after it, with both the ones before
  the others, so that never a row at the moment itself; fewer than ten when the limit is smaller, none
  for a limit of zero or less. That holds of the rows reading has made without a message as well.\<close>

theorem chain_page_is_a_timeline:
  assumes "run_all (apply_message parse) cmds (\<lambda>_. []) = Some T" and "services_work E" and "reads_messages E T"
    and "locals c ''chainid'' = Some ch" and "parse_int (query_arg req ''requestTime'') = Some t"
    and "parse_int (if query_arg req ''limit'' = [] then ''50'' else query_arg req ''limit'') = Some n"
  shows "\<exists>rows. GetChain E req c = Done (None, c\<lparr>body := Some (MessagesBody (map (listed E) rows))\<rparr>)
    \<and> sorted_wrt (\<lambda>a b. cr_created a < cr_created b) rows
    \<and> rows = (let k = nat (min 10 n); asc = (query_arg req ''asc'' = ''true''); desc = (query_arg req ''desc'' = ''true'')
        in if \<not> asc \<and> \<not> desc then newest k (filter (\<lambda>r. cr_created r \<le> t) (T ch))
           else (if desc then newest k (filter (\<lambda>r. cr_created r < t) (T ch)) else [])
              @ (if asc then take k (filter (\<lambda>r. t < cr_created r) (T ch)) else []))"
proof -
  have "messages_ok T" using messages.kept_by_all [OF _ assms(1)] by (simp add: messages_ok_def in_order_def has_ids_def)
  then have order: "in_order (T ch)" and ids: "has_ids (T ch)" by (simp_all add: messages_ok_def)
  note pages = any_page_of_rows [OF assms(3) ids, of t n]
  have cut: "sorted_wrt (\<lambda>a b. cr_created a < cr_created b) (newest k (filter P (T ch)))"
    "sorted_wrt (\<lambda>a b. cr_created a < cr_created b) (take k (filter P (T ch)))" for k P
    using order by (simp_all add: in_order_def newest_def sorted_wrt_drop sorted_wrt_take sorted_wrt_filter)
  have sides: "cr_created a < cr_created b" if "a \<in> set (newest k (filter (\<lambda>r. cr_created r < t) (T ch)))"
    "b \<in> set (take j (filter (\<lambda>r. t < cr_created r) (T ch)))" for a b k j
    using that by (auto simp: newest_def dest!: in_set_dropD in_set_takeD)
  show ?thesis
    using assms(2,4-6) cut sides by (auto simp: GetChain_def local_string_def json_works Let_def pages sorted_wrt_append)
qed

text \<open>C14: an uploaded message is listed. When an upload into a chain was accepted and its commands carried out, at
  a moment at which the chain had no row, a request for the chain's messages up to any later moment lists
  it, as long as fewer messages than fit on a page are newer: with the text, length and expiry of the
  form, the uploader, unseen, after the messages before it and before the newer ones, all of them as they
  were.\<close>

theorem uploaded_message_is_listed:
  assumes "messages_ok T" and "t \<notin> cr_created ` set (T ch)" and "parse uid = Some u"
    and "AddAudioMessage E form c = Done (err, c')" and "body c = None" and "body c' = Some (MessageBody m t)" and "commands c = []"
    and "signed_in uid name sid c" and "locals c ''chainid'' = Some ch" and "run_all (apply_message parse) (commands c') T = Some T'"
    and "services_work E2" and "reads_messages E2 T'" and "locals c2 ''chainid'' = Some ch"
    and "parse_int (query_arg req ''requestTime'') = Some t2" and "t \<le> t2"
    and "parse_int (if query_arg req ''limit'' = [] then ''50'' else query_arg req ''limit'') = Some n"
    and "query_arg req ''asc'' \<noteq> ''true''" and "query_arg req ''desc'' \<noteq> ''true''"
    and "newer = filter (\<lambda>r. t < cr_created r \<and> cr_created r \<le> t2) (T ch)" and "int (length newer) < min 10 n"
  shows "\<exists>display duration expires. form_says E form display duration expires \<and> messages_ok T'
    \<and> GetChain E2 req c2 = Done (None, c2\<lparr>body := Some (MessagesBody
        (map (listed E2) (newest (nat (min 10 n) - 1 - length newer) (filter (\<lambda>r. cr_created r < t) (T ch)))
         @ \<lparr>ms_MessageID = m, ms_UserID = u, ms_Created = uuid_ms E2 m, ms_Expires = expires, ms_Type = 0, ms_Seen = False,
             ms_Display = display, ms_Duration = duration\<rparr> # map (listed E2) newer))\<rparr>)"
proof -
  obtain other display duration expires where form: "form_says E form display duration expires"
    and cmds: "commands c' = upload_commands ch uid other m t display duration expires"
    by (rule accepted_upload [OF assms(4-6,8,9)]) (simp add: assms(7))
  let ?r = "(null_row t)\<lparr>cr_message_id := Some m, cr_user_id := u, cr_expires := expires, cr_type := 0, cr_display := display,
    cr_duration := duration\<rparr>"
  let ?before = "filter (\<lambda>r. cr_created r < t) (T ch)" and ?after = "filter (\<lambda>r. t < cr_created r) (T ch)"
  have "in_order (T ch)" using assms(1) by (simp add: messages_ok_def)
  then have T': "T' ch = ?before @ ?r # ?after"
    using upload_applied [OF assms(3,10) [unfolded cmds]] assms(2) by (simp add: put_row_absent)
  have ok: "messages_ok T'" using messages.kept_by_all assms(1,10) .
  have "filter (\<lambda>r. cr_created r \<le> t2) (T' ch) = ?before @ ?r # filter (\<lambda>r. cr_created r \<le> t2) ?after"
    unfolding T' by (rule filter_up_to) (use assms(15) in \<open>auto simp: null_row_def\<close>)
  also have "filter (\<lambda>r. cr_created r \<le> t2) ?after = newer" by (simp add: assms(19) conj_commute)
  finally have rows: "filter (\<lambda>r. cr_created r \<le> t2) (T' ch) = ?before @ ?r # newer" .
  have k: "length newer < nat (min 10 n)" and n: "0 < n" using assms(20) by auto
  have "has_ids (T' ch)" using ok by (simp add: messages_ok_def)
  from pages_of_rows(1) [OF assms(12) this n, of t2]
  have page: "chain_page E2 ch t2 False True n = Some (map (listed E2) (newest (nat (min 10 n) - 1 - length newer) ?before)
      @ listed E2 ?r # map (listed E2) newer)" unfolding rows newest_around [OF k] by simp
  have "listed E2 ?r = \<lparr>ms_MessageID = m, ms_UserID = u, ms_Created = uuid_ms E2 m, ms_Expires = expires, ms_Type = 0, ms_Seen = False,
      ms_Display = display, ms_Duration = duration\<rparr>" by (simp add: listed_def message_of_def null_row_def)
  with page have "GetChain E2 req c2 = Done (None, c2\<lparr>body := Some (MessagesBody
      (map (listed E2) (newest (nat (min 10 n) - 1 - length newer) ?before)
         @ \<lparr>ms_MessageID = m, ms_UserID = u, ms_Created = uuid_ms E2 m, ms_Expires = expires, ms_Type = 0, ms_Seen = False,
             ms_Display = display, ms_Duration = duration\<rparr> # map (listed E2) newer))\<rparr>)"
    using assms(11,13,14,16-18) by (simp add: GetChain_def local_string_def json_works Let_def)
  with form ok show ?thesis by blast
qed

text \<open>C37: what reading marks. A request for a message's audio that says it is unseen marks the row of the
  message's moment as seen, in the chain of the request, and changes no other row. The id is not looked
  up: when the chain has no row at its moment, the request makes one, with the nil id, no user and no
  text, which the chain's pages then list.\<close>

theorem reading_marks_a_row:
  assumes "messages_ok T" and "GetAudioMessage E req c = Done (err, c')" and "commands c = []" and "locals c ''userid'' = Some uid"
    and "locals c ''chainid'' = Some ch" and "parse_uuid E (path_param req ''messageID'') = Some m" and "query_arg req ''seen'' = ''false''"
    and "object_found E (ch @ ''_'' @ m)" and "parse ch = Some ch" and "run_all (apply_message parse) (commands c') T = Some T'"
  shows "messages_ok T' \<and> (\<forall>other. other \<noteq> ch \<longrightarrow> T' other = T other)
    \<and> T' ch = (if uuid_ms E m \<in> cr_created ` set (T ch)
        then map (\<lambda>r. if cr_created r = uuid_ms E m then r\<lparr>cr_seen := True\<rparr> else r) (T ch)
        else filter (\<lambda>r. cr_created r < uuid_ms E m) (T ch) @ (null_row (uuid_ms E m))\<lparr>cr_seen := True\<rparr>
          # filter (\<lambda>r. uuid_ms E m < cr_created r) (T ch))"
proof -
  let ?t = "uuid_ms E m"
  have "commands c' = [SetSeen ch ?t] \<or> commands c' = [SetSeen ch ?t, UpdateLastSeenIf uid ch ?t]"
    using assms(2-8) by (auto simp: GetAudioMessage_def local_string_def ParseParamMessageUUID_def mark_seen_def exec_def
        HandleComplexError_def Let_def split: if_splits)
  then have T': "T' = T(ch := put_row ?t (\<lambda>r. r\<lparr>cr_seen := True\<rparr>) (T ch))" using assms(9,10) by auto
  have "in_order (T ch)" using assms(1) by (simp add: messages_ok_def)
  then show ?thesis using messages.kept_by_all [OF assms(1,10)] by (simp add: T' put_row_present put_row_absent)
qed

subsection \<open>Witnesses\<close>

definition demo_form :: audio_form where
  "demo_form = \<lparr>form_display = [''hi''], form_duration = [''50''], form_expireDays = [''5''], form_audio = [(1000, True)]\<rparr>"

text \<open>A chain with an older and a newer message; the upload is at moment 7.\<close>

definition two_messages :: message_table where
  "two_messages = (\<lambda>_. [])(''ch'' := [(null_row 3)\<lparr>cr_message_id := Some ''m3''\<rparr>, (null_row 9)\<lparr>cr_message_id := Some ''m9''\<rparr>])"

definition reading_chain :: "message_table \<Rightarrow> chain_env" where
  "reading_chain T = demo_chain\<lparr>query_chain := select_rows T\<rparr>"

definition late_request :: request where
  "late_request = (relation_request '''')\<lparr>query_arg := (\<lambda>k. if k = ''requestTime'' then ''50'' else '''')\<rparr>"

lemma two_messages_ok: "messages_ok two_messages"
  by (simp add: messages_ok_def two_messages_def in_order_def has_ids_def null_row_def)

text \<open>An upload, a read of a message that is not there, and another upload.\<close>

definition demo_writes :: "command list" where
  "demo_writes = [InsertMessage ''ch'' 3 ''m3'' ''a'' 100 0 ''hi'' 50, SetSeen ''ch'' 7, InsertMessage ''ch'' 9 ''m9'' ''b'' 100 0 ''ho'' 60,
     InsertMessage ''ch'' 60 ''m60'' ''b'' 100 0 ''late'' 60]"

theorem chain_page_is_a_timeline_witness:
  "\<exists>T ms. run_all (apply_message Some) demo_writes (\<lambda>_. []) = Some T
     \<and> GetChain (reading_chain T) late_request chain_user = Done (None, chain_user\<lparr>body := Some (MessagesBody ms)\<rparr>)
     \<and> map ms_MessageID ms = [''m3'', nil_uuid, ''m9''] \<and> map ms_Seen ms = [False, True, False]"
proof -
  obtain T where T: "run_all (apply_message Some) demo_writes (\<lambda>_. []) = Some T"
    and rows: "filter (\<lambda>r. cr_created r \<le> 50) (T ''ch'') = [(null_row 3)\<lparr>cr_message_id := Some ''m3'', cr_user_id := ''a'', cr_expires := 100,
      cr_display := ''hi'', cr_duration := 50\<rparr>, (null_row 7)\<lparr>cr_seen := True\<rparr>, (null_row 9)\<lparr>cr_message_id := Some ''m9'', cr_user_id := ''b'',
      cr_expires := 100, cr_display := ''ho'', cr_duration := 60\<rparr>]"
    by (simp add: demo_writes_def null_row_def)
  have works: "services_work (reading_chain T)" using demo_chain_works by (simp add: reading_chain_def services_work_def)
  have reads: "reads_messages (reading_chain T) T" by (simp add: reads_messages_def reading_chain_def)
  have chain: "locals chain_user ''chainid'' = Some ''ch''" by (simp add: chain_user_def)
  have query: "parse_int (query_arg late_request ''requestTime'') = Some 50" "query_arg late_request ''asc'' \<noteq> ''true''"
    "query_arg late_request ''desc'' \<noteq> ''true''"
    "parse_int (if query_arg late_request ''limit'' = [] then ''50'' else query_arg late_request ''limit'') = Some 50"
    by (simp_all add: late_request_def relation_request_def parse_small)
  from chain_page_is_a_timeline [OF T works reads chain query(1,4)]
  have "GetChain (reading_chain T) late_request chain_user = Done (None, chain_user\<lparr>body := Some (MessagesBody (map (listed (reading_chain T))
      (newest 10 (filter (\<lambda>r. cr_created r \<le> 50) (T ''ch'')))))\<rparr>)"
    using query(2,3) by simp
  then show ?thesis using T unfolding rows by (auto simp: newest_def listed_def message_of_def null_row_def)
qed

theorem uploaded_message_is_listed_witness:
  "\<exists>c' T' ms. AddAudioMessage demo_chain (Some demo_form) chain_user = Done (None, c') \<and> run_all (apply_message Some) (commands c') two_messages = Some T'
     \<and> GetChain (reading_chain T') late_request chain_user = Done (None, chain_user\<lparr>body := Some (MessagesBody ms)\<rparr>)
     \<and> map ms_MessageID ms = [''m3'', ''t1'', ''m9''] \<and> map ms_Display ms = ['''', ''hi'', '''']"
proof -
  have user: "signed_in ''a'' ''ann'' ''s'' chain_user" "locals chain_user ''chainid'' = Some ''ch''" "body chain_user = None"
    "commands chain_user = []" "locals chain_user ''requestid'' = Some ''b''" "locals chain_user ''userid'' = Some ''a''"
    by (simp_all add: chain_user_def demo_user_def new_srv_def signed_in_def)
  note [simp] = user parse_small
  have ids: "time_uuid demo_chain = ''t1''" "uuid_ms demo_chain x = 7" for x
    by (simp_all add: demo_chain_def server_env.extend_def demo_server_def)
  have works: "services_work demo_chain" "services_work (reading_chain T)" for T
    using demo_chain_works by (simp_all add: reading_chain_def services_work_def)
  have "\<exists>c'. AddAudioMessage demo_chain (Some demo_form) chain_user = Done (None, c') \<and> body c' = Some (MessageBody ''t1'' 7)"
    by (simp add: AddAudioMessage_def demo_form_def first_value_def signed_in_locals [OF user(1)] local_string_def store_audio_def
        exec_works [OF works(1)] json_works [OF works(1)] SendMessage_def send_payload_works [OF works(1), of "''a''" "''ann''" "''s''"]
        Let_def ids)
  then obtain c' where c': "AddAudioMessage demo_chain (Some demo_form) chain_user = Done (None, c')" "body c' = Some (MessageBody ''t1'' 7)"
    by blast
  obtain other display duration expires where "commands c' = upload_commands ''ch'' ''a'' other ''t1'' 7 display duration expires"
    by (rule accepted_upload [OF c'(1) user(3) c'(2) user(1,2)]) simp
  then obtain T' where T': "run_all (apply_message Some) (commands c') two_messages = Some T'" by (simp add: upload_commands_def)
  have query: "parse_int (query_arg late_request ''requestTime'') = Some 50" "query_arg late_request ''asc'' \<noteq> ''true''"
    "query_arg late_request ''desc'' \<noteq> ''true''"
    "parse_int (if query_arg late_request ''limit'' = [] then ''50'' else query_arg late_request ''limit'') = Some 50"
    by (simp_all add: late_request_def relation_request_def)
  have rows: "7 \<notin> cr_created ` set (two_messages ''ch'')" "filter (\<lambda>r. 7 < cr_created r \<and> cr_created r \<le> 50) (two_messages ''ch'')
      = [(null_row 9)\<lparr>cr_message_id := Some ''m9''\<rparr>]" "filter (\<lambda>r. cr_created r < 7) (two_messages ''ch'')
      = [(null_row 3)\<lparr>cr_message_id := Some ''m3''\<rparr>]"
    by (simp_all add: two_messages_def null_row_def)
  have reads: "reads_messages (reading_chain T') T'" by (simp add: reads_messages_def reading_chain_def)
  from uploaded_message_is_listed [OF two_messages_ok rows(1) refl c'(1) user(3) c'(2) user(4) user(1) user(2) T' works(2) reads user(2)
      query(1) _ query(4,2,3) rows(2) [symmetric]]
  obtain display duration expires where says: "form_says demo_chain (Some demo_form) display duration expires"
    and listed: "GetChain (reading_chain T') late_request chain_user = Done (None, chain_user\<lparr>body := Some (MessagesBody
        (map (listed (reading_chain T')) (newest 8 [(null_row 3)\<lparr>cr_message_id := Some ''m3''\<rparr>])
         @ \<lparr>ms_MessageID = ''t1'', ms_UserID = ''a'', ms_Created = uuid_ms (reading_chain T') ''t1'', ms_Expires = expires, ms_Type = 0,
             ms_Seen = False, ms_Display = display, ms_Duration = duration\<rparr>
           # map (listed (reading_chain T')) [(null_row 9)\<lparr>cr_message_id := Some ''m9''\<rparr>]))\<rparr>)"
    unfolding rows(3) by auto
  have "display = ''hi''" using says by (auto simp: form_says_def demo_form_def first_value_def)
  with c' T' listed show ?thesis by (auto simp: newest_def listed_def message_of_def null_row_def)
qed

theorem reading_marks_a_row_witness:
  "\<exists>c' T'. GetAudioMessage demo_chain
      ((relation_request ''m9'')\<lparr>query_arg := (\<lambda>k. if k = ''seen'' then ''false'' else '''')\<rparr>) chain_user = Done (None, c')
     \<and> run_all (apply_message Some) (commands c') two_messages = Some T'
     \<and> map (\<lambda>r. (cr_created r, cr_message_id r, cr_seen r)) (T' ''ch'')
        = [(3, Some ''m3'', False), (7, Some nil_uuid, True), (9, Some ''m9'', False)]"
proof -
  let ?req = "(relation_request ''m9'')\<lparr>query_arg := (\<lambda>k. if k = ''seen'' then ''false'' else '''')\<rparr>"
  have facts: "parse_uuid demo_chain (path_param ?req ''messageID'') = Some ''m9''" "query_arg ?req ''seen'' = ''false''"
    "object_found demo_chain x" "exec_ok demo_chain n" "locals chain_user ''userid'' = Some ''a''" "locals chain_user ''chainid'' = Some ''ch''"
    "commands chain_user = []" "uuid_ms demo_chain y = 7" for x n y
    by (simp_all add: demo_chain_def server_env.extend_def demo_server_def relation_request_def chain_user_def demo_user_def new_srv_def)
  have "\<exists>c'. GetAudioMessage demo_chain ?req chain_user = Done (None, c') \<and> (\<exists>T'. run_all (apply_message Some) (commands c') two_messages = Some T')"
    using facts by (simp add: GetAudioMessage_def local_string_def ParseParamMessageUUID_def mark_seen_def exec_def Let_def)
  then obtain c' T' where run: "GetAudioMessage demo_chain ?req chain_user = Done (None, c')"
    "run_all (apply_message Some) (commands c') two_messages = Some T'" by blast
  have "T' ''ch'' = filter (\<lambda>r. cr_created r < 7) (two_messages ''ch'') @ (null_row 7)\<lparr>cr_seen := True\<rparr>
      # filter (\<lambda>r. 7 < cr_created r) (two_messages ''ch'')"
    using reading_marks_a_row [OF two_messages_ok run(1) facts(7,5,6,1,2) _ refl run(2)] facts(3,8)
    by (simp add: two_messages_def null_row_def)
  with run show ?thesis by (simp add: two_messages_def null_row_def)
qed

end
