(* ===== verification/Friends.thy ===== *)
theory Friends imports Chain_Messages begin

text \<open>
  What the two rows of a relation stand for: one tie between two users, and the four things that can happen
  to it. The handlers, each of which writes two rows, implement these on the ties.
\<close>

subsection \<open>Ties\<close>

text \<open>The tie of a pair: the chain they were given, whether they are friends, who asked last, and whether the
  tie shows in their lists.\<close>

record tie =
  t_chain :: "uuid option"
  t_friends :: bool
  t_asker :: "uuid option"
  t_visible :: bool

type_synonym ties = "uuid \<Rightarrow> uuid \<Rightarrow> tie"

definition no_ties :: ties where
  "no_ties = (\<lambda>_ _. \<lparr>t_chain = None, t_friends = False, t_asker = None, t_visible = False\<rparr>)"

definition on_pair :: "uuid \<Rightarrow> uuid \<Rightarrow> (tie \<Rightarrow> tie) \<Rightarrow> ties \<Rightarrow> ties" where
  "on_pair a b f S = (\<lambda>x y. if (x, y) = (a, b) \<or> (x, y) = (b, a) then f (S x y) else S x y)"

definition ask :: "uuid \<Rightarrow> uuid \<Rightarrow> ties \<Rightarrow> ties" where
  "ask a b = on_pair a b (\<lambda>t. t\<lparr>t_asker := Some a, t_visible := True\<rparr>)"

text \<open>An acceptance keeps the chain of the pair, and takes the new one only when it has none.\<close>

definition befriend :: "uuid \<Rightarrow> uuid \<Rightarrow> uuid \<Rightarrow> ties \<Rightarrow> ties" where
  "befriend new a b = on_pair a b (\<lambda>t. t\<lparr>t_chain := Some (case t_chain t of None \<Rightarrow> new | Some ch \<Rightarrow> ch), t_friends := True\<rparr>)"

definition part :: "uuid \<Rightarrow> uuid \<Rightarrow> ties \<Rightarrow> ties" where
  "part a b = on_pair a b (\<lambda>t. t\<lparr>t_friends := False, t_asker := None, t_visible := False\<rparr>)"

text \<open>What the rows stand for.\<close>

definition ties_of :: "relation_table \<Rightarrow> ties" where
  "ties_of T = (\<lambda>a b. \<lparr>t_chain = r_chain_id (T (a, b)), t_friends = (r_friend (T (a, b)) = Some True),
     t_asker = (if r_requested (T (a, b)) = Some True then Some a else if r_requested (T (b, a)) = Some True then Some b else None),
     t_visible = (r_active (T (a, b)) = Some True)\<rparr>)"

text \<open>The query for the chain of a relation reads the table.\<close>

definition reads_relation :: "'e server_env_scheme \<Rightarrow> relation_table \<Rightarrow> uuid \<Rightarrow> uuid \<Rightarrow> bool" where
  "reads_relation E T a b \<longleftrightarrow> (case r_chain_id (T (a, b)) of
       Some ch \<Rightarrow> chain_of E a b = Row ch \<and> \<not> uuid_zero_time E ch
     | None \<Rightarrow> chain_of E a b = NotFound \<or> (\<exists>z. chain_of E a b = Row z \<and> uuid_zero_time E z))"

subsection \<open>What the updates do to a tie\<close>

definition both_rows :: "relation_update \<Rightarrow> relation_update \<Rightarrow> uuid \<Rightarrow> uuid \<Rightarrow> relation_table \<Rightarrow> relation_table" where
  "both_rows u v a b T = fold run_command [UpdateRelation u a b, UpdateRelation v b a] T"

lemma pair_rows:
  assumes "a \<noteq> b"
  shows "both_rows u v a b T (a, b) = update_relation u (T (a, b))"
    "both_rows u v a b T (b, a) = update_relation v (T (b, a))"
    "(x, y) \<noteq> (a, b) \<Longrightarrow> (x, y) \<noteq> (b, a) \<Longrightarrow> both_rows u v a b T (x, y) = T (x, y)"
  using assms by (simp_all add: both_rows_def) (auto)

text \<open>An operation on a pair is given by the two ties it makes.\<close>

lemma ties_of_pair:
  assumes "a \<noteq> b"
    and "ties_of (both_rows u v a b T) a b = f (ties_of T a b)"
    and "ties_of (both_rows u v a b T) b a = f (ties_of T b a)"
  shows "ties_of (both_rows u v a b T) = on_pair a b f (ties_of T)"
proof (intro ext)
  fix x y
  show "ties_of (both_rows u v a b T) x y = on_pair a b f (ties_of T) x y"
  proof (cases "(x, y) = (a, b) \<or> (x, y) = (b, a)")
    case True
    then show ?thesis using assms(2,3) by (auto simp: on_pair_def)
  next
    case False
    then have other: "(x, y) \<noteq> (a, b)" "(x, y) \<noteq> (b, a)" "(y, x) \<noteq> (a, b)" "(y, x) \<noteq> (b, a)" by auto
    from pair_rows(3) [OF assms(1) this(1,2)] pair_rows(3) [OF assms(1) this(3,4)]
    have "ties_of (both_rows u v a b T) x y = ties_of T x y" unfolding ties_of_def by (simp only:)
    then show ?thesis using False unfolding on_pair_def by (simp only: if_False)
  qed
qed

lemma asked_pair:
  assumes "a \<noteq> b"
  shows "ties_of (both_rows (request_update t n True) (request_update t m False) a b T)
    = ask a b (ties_of T)"
  unfolding ask_def by (rule ties_of_pair [OF assms])
    (simp_all add: ties_of_def pair_rows [OF assms] request_update_def)

lemma accepted_pair:
  assumes "mirrored T" and "a \<noteq> b" and "ch = (case r_chain_id (T (a, b)) of None \<Rightarrow> new | Some ch \<Rightarrow> ch)"
  shows "ties_of (both_rows (accept_update ch t) (accept_update ch t) a b T)
    = befriend new a b (ties_of T)"
  unfolding befriend_def by (rule ties_of_pair [OF assms(2)])
    (use mirroredD(2) [OF assms(1), of a b] in \<open>simp_all add: ties_of_def pair_rows [OF assms(2)] accept_update_def no_update_def assms(3)
     \<close>)

lemma parted_pair:
  assumes "a \<noteq> b"
  shows "ties_of (both_rows remove_update remove_update a b T) = part a b (ties_of T)"
  unfolding part_def by (rule ties_of_pair [OF assms])
    (simp_all add: ties_of_def pair_rows [OF assms] remove_update_def no_update_def)

lemma uploaded_pair:
  assumes "a \<noteq> b"
  shows "ties_of (both_rows (no_update\<lparr>u_last_recv := Col t\<rparr>) (no_update\<lparr>u_last_seen := Col t\<rparr>) b a T) = ties_of T"
proof -
  have "on_pair b a (\<lambda>t. t) S = S" for S by (simp add: on_pair_def fun_eq_iff)
  moreover have "ties_of (both_rows (no_update\<lparr>u_last_recv := Col t\<rparr>) (no_update\<lparr>u_last_seen := Col t\<rparr>) b a T) = on_pair b a (\<lambda>t. t) (ties_of T)"
    by (rule ties_of_pair) (use assms in \<open>simp_all add: ties_of_def pair_rows no_update_def\<close>)
  ultimately show ?thesis by simp
qed

subsection \<open>The handlers\<close>

lemma signed_in_locals_eq: "locals c1 = locals c \<Longrightarrow> signed_in uid name sid c1 = signed_in uid name sid c"
  by (simp add: signed_in_def)

lemma rows_written: "commands c = [UpdateRelation u a b, UpdateRelation v b a] \<Longrightarrow> relation_table c T = both_rows u v a b T"
  by (simp only: relation_table_def both_rows_def)

lemma request_runs:
  assumes "services_work E" and "signed_in a na sa c" and "commands c = []" and "path_param req ''relationID'' = b"
  shows "\<exists>c' n. RequestRelation E req c = Done (None, c')
    \<and> relation_table c' T = both_rows (request_update (now_ms E) n True) (request_update (now_ms E) na False) a b T"
proof -
  have enc: "encodes E r" for r using assms(1) by (simp add: services_work_def)
  have got: "snd (fst (GetUsernameByID E b c)) = None \<and> locals (snd (GetUsernameByID E b c)) = locals c
      \<and> commands (snd (GetUsernameByID E b c)) = commands c"
    by (cases "username_by_id E b") (simp_all add: GetUsernameByID_def http_helpers enc)
  obtain n e c1 where g: "GetUsernameByID E b c = ((n, e), c1)" by (metis prod.collapse)
  with got have g: "GetUsernameByID E b c = ((n, None), c1)" "locals c1 = locals c" "commands c1 = commands c" by simp_all
  have "signed_in a na sa c1" using assms(2) unfolding signed_in_locals_eq [OF g(2)] .
  note run = request_works [OF assms(1,2) g(1) this assms(4) [symmetric]]
  show ?thesis by (rule exI, rule exI [of _ n], rule conjI [OF run], rule rows_written) (simp add: g(3) assms(3))
qed

lemma accept_runs:
  assumes "services_work E" and "signed_in a na sa c" and "commands c = []" and "path_param req ''relationID'' = b"
    and "reads_relation E T a b" and "ch = (case r_chain_id (T (a, b)) of None \<Rightarrow> time_uuid E | Some ch \<Rightarrow> ch)"
  shows "\<exists>c'. AcceptRelation E req c = Done (None, c')
    \<and> relation_table c' T = both_rows (accept_update ch (now_ms E)) (accept_update ch (now_ms E)) a b T"
proof (cases "r_chain_id (T (a, b))")
  case None
  then have chk: "CheckExistingRelationChain E a b c = ((nil_uuid, False, None), c)"
    using assms(5) by (auto simp: reads_relation_def CheckExistingRelationChain_def)
  note run = accept_new_chain [OF assms(1,2) assms(4) [symmetric] chk assms(2)]
  show ?thesis by (rule exI, rule conjI [OF run]) (simp add: relation_table_def both_rows_def assms(3,6) None)
next
  case (Some k)
  then have chk: "CheckExistingRelationChain E a b c = ((k, True, None), c)"
    using assms(5) by (auto simp: reads_relation_def CheckExistingRelationChain_def)
  have "AcceptRelation E req c = accept_with_chain E k a b c"
    using assms(2,4) chk by (simp add: AcceptRelation_def signed_in_locals)
  then have run: "AcceptRelation E req c = Done (None, c\<lparr>
    commands := commands c @ [UpdateRelation (accept_update k (now_ms E)) a b, UpdateRelation (accept_update k (now_ms E)) b a],
    outbox := outbox c @ [sends E 201 a sa b (FriendAcceptData k (now_ms E))], body := Some (AcceptedBody k (now_ms E))\<rparr>)"
    using accept_works [OF assms(1,2)] by simp
  show ?thesis by (rule exI, rule conjI [OF run], rule rows_written) (simp add: assms(3,6) Some)
qed

lemma remove_runs:
  assumes "services_work E" and "signed_in a na sa c" and "commands c = []" and "path_param req ''relationID'' = b"
  shows "\<exists>c'. RemoveRelation E req c = Done (None, c') \<and> relation_table c' T = both_rows remove_update remove_update a b T"
  by (rule exI, rule conjI [OF remove_works [OF assms(1,2) assms(4) [symmetric]]], rule rows_written) (simp add: assms(3))

lemma upload_keeps_ties:
  assumes "signed_in a na sa c" and "commands c = []" and "locals c ''requestid'' = Some b" and "a \<noteq> b" and "body c = None"
    and "AddAudioMessage E form c = Done (err, c')" and "body c' = Some (MessageBody m t)" and "locals c ''chainid'' = Some ch"
  shows "ties_of (relation_table c' T) = ties_of T"
proof (rule accepted_upload [OF assms(6,5,7,1,8)])
  fix other display duration expires
  assume "locals c ''requestid'' = Some other" "commands c' = commands c @ upload_commands ch a other m t display duration expires"
  then have "relation_table c' T = both_rows (no_update\<lparr>u_last_recv := Col t\<rparr>) (no_update\<lparr>u_last_seen := Col t\<rparr>) b a T"
    using assms(2,3) by (simp add: relation_table_def both_rows_def upload_commands_def)
  then show ?thesis by (simp only: uploaded_pair [OF assms(4)])
qed

lemma mirrored_ties: "mirrored T \<Longrightarrow> ties_of T a b = ties_of T b a"
  using mirroredD(1-3) [of T a b] mirroredD(6) [of T a b] by (cases "a = b") (simp_all add: ties_of_def)

subsection \<open>Properties\<close>

text \<open>C24: the rows of relations implement ties between pairs of users. At first there are none, and both users of
  a pair see the same tie. From any table that requests can have left, on working services and for two
  different users: a request shows the tie and names the asker, an acceptance makes friends in the chain
  the pair has, or in a new one when it has none, a removal ends the friendship, hides the tie and
  forgets the asker but not the chain, and no other pair's tie changes; an accepted upload changes no
  tie. Each of them leaves a table that requests can leave.\<close>

theorem relations_implement_ties:
  fixes E :: server_env and F :: chain_env
  assumes "relations_run T" and "services_work E" and "signed_in a na sa c" and "commands c = []"
    and "path_param req ''relationID'' = b" and "a \<noteq> b"
  shows "ties_of empty_relations = no_ties \<and> (\<forall>x y. ties_of T x y = ties_of T y x)
    \<and> (\<exists>c'. RequestRelation E req c = Done (None, c') \<and> relations_run (relation_table c' T)
          \<and> ties_of (relation_table c' T) = ask a b (ties_of T))
    \<and> (reads_relation E T a b \<longrightarrow> (\<exists>c'. AcceptRelation E req c = Done (None, c') \<and> relations_run (relation_table c' T)
          \<and> ties_of (relation_table c' T) = befriend (time_uuid E) a b (ties_of T)))
    \<and> (\<exists>c'. RemoveRelation E req c = Done (None, c') \<and> relations_run (relation_table c' T)
          \<and> ties_of (relation_table c' T) = part a b (ties_of T))
    \<and> (\<forall>form err c' m t ch. services_work F \<and> locals c ''requestid'' = Some b \<and> locals c ''chainid'' = Some ch \<and> body c = None
          \<and> AddAudioMessage F form c = Done (err, c') \<and> body c' = Some (MessageBody m t)
          \<longrightarrow> relations_run (relation_table c' T) \<and> ties_of (relation_table c' T) = ties_of T)"
    (is "?first \<and> ?sym \<and> ?request \<and> ?accept \<and> ?remove \<and> ?upload")
proof (intro conjI)
  have T: "mirrored T" using assms(1) by (rule relations_run_mirrored)
  have ok: "exec_ok E n" for n using assms(2) by (simp add: services_work_def)
  show ?first by (simp add: ties_of_def empty_relations_def no_ties_def fun_eq_iff)
  show ?sym using mirrored_ties [OF T] by blast
  show ?request
    using request_runs [OF assms(2-5), of T] asked_pair [OF assms(6)] relations_run.requested [OF assms(1) ok assms(4)] by metis
  show ?accept
  proof
    assume "reads_relation E T a b"
    from accept_runs [OF assms(2-5) this refl] accepted_pair [OF T assms(6) refl] relations_run.accepted [OF assms(1) ok assms(4)]
    show "\<exists>c'. AcceptRelation E req c = Done (None, c') \<and> relations_run (relation_table c' T)
          \<and> ties_of (relation_table c' T) = befriend (time_uuid E) a b (ties_of T)" by metis
  qed
  show ?remove
    using remove_runs [OF assms(2-5), of T] parted_pair [OF assms(6)] relations_run.removed [OF assms(1) ok assms(4)] by metis
  show ?upload
  proof (intro allI impI)
    fix form err c' m t ch
    assume up: "services_work F \<and> locals c ''requestid'' = Some b \<and> locals c ''chainid'' = Some ch \<and> body c = None
          \<and> AddAudioMessage F form c = Done (err, c') \<and> body c' = Some (MessageBody m t)"
    then have "exec_ok F n" for n by (simp add: services_work_def)
    from relations_run.uploaded [OF assms(1) this assms(4)] up upload_keeps_ties [OF assms(3,4) _ assms(6)]
    show "relations_run (relation_table c' T) \<and> ties_of (relation_table c' T) = ties_of T" by blast
  qed
qed

theorem relations_implement_ties_witness:
  "\<exists>c'. AcceptRelation demo_server (relation_request ''b'') (demo_user ''a'' ''ann'') = Done (None, c')
     \<and> ties_of (relation_table c' empty_relations) ''b'' ''a''
        = \<lparr>t_chain = Some ''t1'', t_friends = True, t_asker = None, t_visible = False\<rparr>
     \<and> ties_of (relation_table c' empty_relations) ''b'' ''c'' = no_ties ''b'' ''c''"
proof -
  have facts: "reads_relation demo_server empty_relations ''a'' ''b''" "path_param (relation_request ''b'') ''relationID'' = ''b''"
    "time_uuid demo_server = ''t1''" "ties_of empty_relations = no_ties"
    by (simp_all add: reads_relation_def empty_relations_def demo_server_def relation_request_def ties_of_def no_ties_def fun_eq_iff)
  have "signed_in ''a'' ''ann'' ''s'' (demo_user ''a'' ''ann'')" "commands (demo_user ''a'' ''ann'') = []" by simp_all
  from relations_implement_ties [OF relations_run.no_relations demo_server_works this facts(2), of demo_chain] facts(1)
  obtain c' where "AcceptRelation demo_server (relation_request ''b'') (demo_user ''a'' ''ann'') = Done (None, c')"
    "ties_of (relation_table c' empty_relations) = befriend ''t1'' ''a'' ''b'' no_ties" unfolding facts(3,4) by auto
  then show ?thesis by (auto simp: befriend_def on_pair_def no_ties_def)
qed

end
