(* ===== verification/Switchboard.thy ===== *)
theory Switchboard imports Registry begin

text \<open>
  What the connection table promises, without shards and locks: one map from ids to channels, and the
  channels. \<open>switch_step\<close> is the contract, \<open>reg_exec\<close> the operations of \<open>socket/socket.go\<close>, and every
  sequence of operations the contract covers has the same answers and the same effect.
\<close>

subsection \<open>Sequences of operations\<close>

text \<open>An operation answers and changes the state, blocks or panics; \<open>None\<close> when it is not covered.\<close>

fun run_steps :: "('o \<Rightarrow> 's \<Rightarrow> ('x \<times> 's) outcome option) \<Rightarrow> 'o list \<Rightarrow> 's \<Rightarrow> ('x list \<times> 's) outcome option" where
  "run_steps step [] s = Some (Done ([], s))"
| "run_steps step (op # ops) s =
     (case step op s of
        Some (Done (x, s')) \<Rightarrow> map_option (\<lambda>r. and_then r (\<lambda>(xs, s''). Done (x # xs, s''))) (run_steps step ops s')
      | Some Blocked \<Rightarrow> Some Blocked
      | Some (Panicked p) \<Rightarrow> Some (Panicked p)
      | None \<Rightarrow> None)"

text \<open>A concrete step implements an abstract one: where the abstract step answers, the concrete one gives the
  same answer and the abstraction of its state, and where it blocks, the concrete one blocks.\<close>

locale implements =
  fixes abs :: "'c \<Rightarrow> 'a"
    and inv :: "'c \<Rightarrow> bool"
    and conc :: "'o \<Rightarrow> 'c \<Rightarrow> ('x \<times> 'c) outcome option"
    and spec :: "'o \<Rightarrow> 'a \<Rightarrow> ('x \<times> 'a) outcome option"
  assumes answers: "inv c \<Longrightarrow> spec op (abs c) = Some (Done (x, a)) \<Longrightarrow>
      \<exists>c'. conc op c = Some (Done (x, c')) \<and> inv c' \<and> abs c' = a"
    and blocks: "inv c \<Longrightarrow> spec op (abs c) = Some Blocked \<Longrightarrow> conc op c = Some Blocked"
    and no_panic: "spec op b \<noteq> Some (Panicked p)"
begin

lemma runs:
  assumes "inv c" and "run_steps spec ops (abs c) = Some res"
  shows "case res of
      Done (xs, a) \<Rightarrow> \<exists>c'. run_steps conc ops c = Some (Done (xs, c')) \<and> inv c' \<and> abs c' = a
    | Blocked \<Rightarrow> run_steps conc ops c = Some Blocked
    | Panicked p \<Rightarrow> False"
  using assms
proof (induction ops arbitrary: c res)
  case (Cons op ops)
  show ?case
  proof (cases "spec op (abs c)")
    case (Some r)
    show ?thesis
    proof (cases r)
      case (Done y)
      obtain x a where "y = (x, a)" by (cases y)
      then obtain c' where c': "conc op c = Some (Done (x, c'))" "inv c'" "abs c' = a"
        using answers [OF Cons.prems(1)] Some Done by blast
      from Cons.prems(2) Some Done \<open>y = (x, a)\<close> obtain rest where rest: "run_steps spec ops (abs c') = Some rest"
        and res: "res = and_then rest (\<lambda>(xs, s). Done (x # xs, s))" by (auto simp: c'(3))
      from Cons.IH [OF c'(2) rest] res c'(1) show ?thesis by (cases rest) (auto split: prod.splits)
    next
      case Blocked
      then show ?thesis using blocks [OF Cons.prems(1)] Some Cons.prems(2) by auto
    next
      case (Panicked p)
      then show ?thesis using no_panic Some by blast
    qed
  qed (use Cons.prems(2) in simp)
qed auto

end

subsection \<open>The contract\<close>

datatype reg_op = Create string "string option list" | Delete string | Deliver string bytes | Receive chan_id

datatype reg_reply = Opened string "chan_id option" | Deleted | Delivered bool | Received "bytes option"

record switchboard =
  line :: "string \<rightharpoonup> chan_id"
  boxes :: "channel list"

text \<open>A creation whose first id is taken is not covered, nor is a channel that was never made.\<close>

fun switch_step :: "reg_op \<Rightarrow> switchboard \<Rightarrow> (reg_reply \<times> switchboard) outcome option" where
  "switch_step (Create w gens) s =
     (if line s w \<noteq> None then None
      else Some (Done (Opened w (Some (length (boxes s))),
        s\<lparr>line := (line s)(w \<mapsto> length (boxes s)), boxes := boxes s @ [\<lparr>buf = [], closed = False\<rparr>]\<rparr>)))"
| "switch_step (Delete w) s =
     Some (Done (Deleted, case line s w of
        None \<Rightarrow> s
      | Some c \<Rightarrow> s\<lparr>line := (line s)(w := None), boxes := (boxes s)[c := (boxes s ! c)\<lparr>closed := True\<rparr>]\<rparr>))"
| "switch_step (Deliver w p) s =
     Some (case line s w of
        None \<Rightarrow> Done (Delivered False, s)
      | Some c \<Rightarrow>
          if length (buf (boxes s ! c)) < CHAN_SIZE
          then Done (Delivered True, s\<lparr>boxes := (boxes s)[c := (boxes s ! c)\<lparr>buf := buf (boxes s ! c) @ [p]\<rparr>]\<rparr>)
          else Blocked)"
| "switch_step (Receive c) s =
     (if length (boxes s) \<le> c then None
      else Some (case buf (boxes s ! c) of
        v # vs \<Rightarrow> Done (Received (Some v), s\<lparr>boxes := (boxes s)[c := (boxes s ! c)\<lparr>buf := vs\<rparr>]\<rparr>)
      | [] \<Rightarrow> if closed (boxes s ! c) then Done (Received None, s) else Blocked))"

subsection \<open>The code's operations\<close>

fun reg_exec :: "(string \<Rightarrow> u32) \<Rightarrow> reg_op \<Rightarrow> registry \<Rightarrow> (reg_reply \<times> registry) outcome option" where
  "reg_exec h (Create w gens) r =
     map_option (\<lambda>res. and_then res (\<lambda>((WSID, ch), r'). Done (Opened WSID ch, r'))) (create_connection h (Some w # gens) r)"
| "reg_exec h (Delete w) r = Some (and_then (delete_connection h w r) (\<lambda>r'. Done (Deleted, r')))"
| "reg_exec h (Deliver w p) r = Some (and_then (deliver h w p r) (\<lambda>(found, r'). Done (Delivered found, r')))"
| "reg_exec h (Receive c) r = Some (and_then (chan_recv c r) (\<lambda>(v, r'). Done (Received v, r')))"

definition switchboard_of :: "(string \<Rightarrow> u32) \<Rightarrow> registry \<Rightarrow> switchboard" where
  "switchboard_of h r = \<lparr>line = table_lookup h r, boxes = channels r\<rparr>"

lemma reg_ok_buf: "reg_ok h r \<Longrightarrow> reg_ok h (r\<lparr>channels := (channels r)[c := (channels r ! c)\<lparr>buf := b\<rparr>]\<rparr>)"
proof -
  have "closed ((channels r)[c := (channels r ! c)\<lparr>buf := b\<rparr>] ! d) = closed (channels r ! d)" for d
    by (cases "c < length (channels r)") (simp_all add: nth_list_update list_update_beyond)
  then show "reg_ok h r \<Longrightarrow> ?thesis" unfolding reg_ok_def by simp
qed

lemma create_switches:
  assumes "reg_ok h r" and "table_lookup h r w = None"
  shows "\<exists>r'. create_connection h (Some w # gens) r = Some (Done ((w, Some (length (channels r))), r')) \<and> reg_ok h r'
    \<and> switchboard_of h r' = \<lparr>line = (table_lookup h r)(w \<mapsto> length (channels r)), boxes = channels r @ [\<lparr>buf = [], closed = False\<rparr>]\<rparr>"
  using create_first_try [OF reg_ok_unlocked [OF assms(1)] assms(2)] reg_ok_insert [OF assms(1)] reg_ok_all_shards [OF assms(1)]
  by (auto simp: switchboard_of_def lookup_put_entry)

lemma delete_switches:
  assumes "reg_ok h r"
  shows "\<exists>r'. delete_connection h w r = Done r' \<and> reg_ok h r' \<and> switchboard_of h r' =
    (case table_lookup h r w of None \<Rightarrow> switchboard_of h r
     | Some c \<Rightarrow> \<lparr>line = (table_lookup h r)(w := None), boxes = (channels r)[c := (channels r ! c)\<lparr>closed := True\<rparr>]\<rparr>)"
proof (cases "table_lookup h r w")
  case None
  have "reg_ok h (put_entry (get_shard h w) w None r)"
    using reg_ok_remove [OF assms, of w "channels r"] by (simp add: put_entry_def set_shard_def)
  moreover have "table_lookup h (put_entry (get_shard h w) w None r) = table_lookup h r"
    using None by (auto simp: lookup_put_entry reg_ok_all_shards [OF assms])
  ultimately show ?thesis
    using None delete_unlocked [OF reg_ok_unlocked [OF assms], of w] by (simp add: switchboard_of_def)
next
  case (Some c)
  have "reg_ok h ((put_entry (get_shard h w) w None r)\<lparr>channels := (channels r)[c := (channels r ! c)\<lparr>closed := True\<rparr>]\<rparr>)"
    using Some by (intro reg_ok_remove [OF assms]) (auto simp: nth_list_update)
  then show ?thesis
    using Some reg_ok_delete [OF assms Some] by (simp add: switchboard_of_def lookup_put_entry reg_ok_all_shards [OF assms])
qed

lemma deliver_switches:
  assumes "reg_ok h r"
  shows "deliver h w p r = (case table_lookup h r w of None \<Rightarrow> Done (False, r)
    | Some c \<Rightarrow> if length (buf (channels r ! c)) < CHAN_SIZE
        then Done (True, r\<lparr>channels := (channels r)[c := (channels r ! c)\<lparr>buf := buf (channels r ! c) @ [p]\<rparr>]\<rparr>) else Blocked)"
  using reg_ok_unlocked [OF assms, of w] reg_ok_open [OF assms, of w]
  by (auto simp: deliver_def chan_send_def table_lookup_def Let_def split: option.splits)

interpretation switching: implements "switchboard_of h" "reg_ok h" "reg_exec h" switch_step for h
proof unfold_locales
  fix r op x a
  assume ok: "reg_ok h r" and spec: "switch_step op (switchboard_of h r) = Some (Done (x, a))"
  show "\<exists>r'. reg_exec h op r = Some (Done (x, r')) \<and> reg_ok h r' \<and> switchboard_of h r' = a"
  proof (cases op)
    case (Create w gens)
    then show ?thesis
      using spec create_switches [OF ok, of w gens] by (auto simp: switchboard_of_def split: if_splits)
  next
    case (Delete w)
    then show ?thesis
      using spec delete_switches [OF ok, of w] by (auto simp: switchboard_of_def split: option.splits)
  next
    case (Deliver w p)
    then show ?thesis
      using spec reg_ok_buf [OF ok] ok
      by (auto simp: deliver_switches [OF ok] switchboard_of_def split: option.splits if_splits)
  next
    case (Receive c)
    then show ?thesis
      using spec reg_ok_buf [OF ok] ok
      by (auto simp: chan_recv_def Let_def switchboard_of_def split: list.splits if_splits)
  qed
next
  fix r op
  assume ok: "reg_ok h r" and spec: "switch_step op (switchboard_of h r) = Some Blocked"
  show "reg_exec h op r = Some Blocked"
    using spec
    by (cases op) (auto simp: deliver_switches [OF ok] chan_recv_def Let_def switchboard_of_def
        split: option.splits list.splits if_splits)
next
  fix op s p
  show "switch_step op s \<noteq> Some (Panicked p)"
    by (cases op) (auto split: option.splits list.splits)
qed

subsection \<open>The property\<close>

text \<open>C25: the 32 locked tables behave as one. Take any sequence of creations, deletions, deliveries and receives in
  which no creation draws an id that is taken. What the contract answers, \<open>create_connection\<close>,
  \<open>delete_connection\<close>, the delivery of \<open>socket_op\<close> and the channel answer, whatever the hash: the ids and
  the fresh open channels, whether an id was found, the payloads in their order, the end of a channel once
  its connection is deleted and its rest received; they leave that table and those channels and no lock;
  and where a delivery to a full channel or a receive from an empty one waits, so do they.\<close>

theorem registry_implements_switchboard:
  assumes "reg_ok h r" and "run_steps switch_step ops (switchboard_of h r) = Some res"
  shows "case res of
      Done (replies, s) \<Rightarrow> \<exists>r'. run_steps (reg_exec h) ops r = Some (Done (replies, r')) \<and> reg_ok h r' \<and> switchboard_of h r' = s
    | Blocked \<Rightarrow> run_steps (reg_exec h) ops r = Some Blocked
    | Panicked p \<Rightarrow> False"
  using assms by (rule switching.runs)

text \<open>Two connections in different shards; the first is deleted with a payload unread.\<close>

theorem registry_implements_switchboard_witness:
  "\<exists>r'. run_steps (reg_exec split_hash)
      [Create ''WS1'' [], Create ''WS2'' [], Deliver ''WS1'' [1], Deliver ''WS2'' [2], Delete ''WS1'', Deliver ''WS1'' [3],
       Receive 1, Receive 0, Receive 0] ws_id_chan_table
    = Some (Done ([Opened ''WS1'' (Some 0), Opened ''WS2'' (Some 1), Delivered True, Delivered True, Deleted, Delivered False,
       Received (Some [2]), Received (Some [1]), Received None], r'))"
proof -
  have empty: "switchboard_of split_hash ws_id_chan_table = \<lparr>line = Map.empty, boxes = []\<rparr>"
    by (simp add: switchboard_of_def table_lookup_def ws_id_chan_table_def fun_eq_iff)
  have "\<exists>s. run_steps switch_step
      [Create ''WS1'' [], Create ''WS2'' [], Deliver ''WS1'' [1], Deliver ''WS2'' [2], Delete ''WS1'', Deliver ''WS1'' [3],
       Receive 1, Receive 0, Receive 0] (switchboard_of split_hash ws_id_chan_table)
    = Some (Done ([Opened ''WS1'' (Some 0), Opened ''WS2'' (Some 1), Delivered True, Delivered True, Deleted, Delivered False,
       Received (Some [2]), Received (Some [1]), Received None], s))"
    by (simp add: empty CHAN_SIZE_def)
  then show ?thesis
    using registry_implements_switchboard [OF reg_ok_init, where h = split_hash] by fastforce
qed

end
