(* ===== verification/Delivery.thy ===== *)
theory Delivery imports Api_Link Link_Props Switchboard Relations_Props Session_Props begin

text \<open>
  A message's two stretches of road in this repository. The first: a handler of the API server hands it to
  \<open>SendMessage\<close>, and the API link puts it on the wire. The second: bytes from the router are read by
  the socket server's \<open>read_tcp\<close>, enter the channels of the connections, and the connection goroutines
  write them to their websockets. Between them is the router, which is not in the repository: nothing
  is said of it, and the second stretch starts from the bytes it sends.
\<close>

lemma read_written: "list_all fits_u32 (op_bodies ops) \<Longrightarrow> read_ops (write_ops ops) = (op_bodies ops, [])"
  using router_frames.drain_concat [OF _ le_refl] by (simp add: read_ops_def write_ops_frames)

subsection \<open>From a handler to the wire\<close>

text \<open>An audio message a handler sends: its environment, the signed-in user, and what is sent to whom.\<close>

record audio_send =
  as_env :: server_env
  as_user :: uuid
  as_session :: string
  as_target :: uuid
  as_chain :: uuid
  as_message :: uuid
  as_created :: int
  as_expires :: int
  as_type :: int
  as_display :: string
  as_duration :: int

definition send :: "audio_send \<Rightarrow> srv \<Rightarrow> (err \<times> srv) outcome" where
  "send s c = SendMessage (as_env s) (as_target s) (as_chain s) (as_message s) (as_created s) (as_expires s) (as_type s)
     (as_display s) (as_duration s) c"

text \<open>The text of its message, and its entry for the router link: operation 100 with the text as payload and
  the names of the sending session, the sender and the target as parameters.\<close>

definition text_of :: "audio_send \<Rightarrow> bytes" where
  "text_of s = message_text (as_env s) 300 (as_user s) (as_target s) True
     (AudioMessageData (as_chain s) (as_message s) (as_created s) (as_expires s) (as_type s) False (as_display s) (as_duration s))"

definition outbox_entry :: "audio_send \<Rightarrow> byte \<times> byte slice \<times> string list" where
  "outbox_entry s = (100, Some (text_of s), [as_session s, as_user s, as_target s])"

text \<open>Names without the delimiter, and a text that fits an operation.\<close>

definition sendable :: "audio_send \<Rightarrow> bool" where
  "sendable s \<longleftrightarrow> services_work (as_env s) \<and> delim_free (as_session s) \<and> delim_free (as_user s) \<and> delim_free (as_target s)
     \<and> fits_u32 (100, op_body (Some [as_session s, as_user s, as_target s]) (Some (text_of s)))"

text \<open>The entries go to the link one by one, each after some temporary failures of \<open>Write\<close>.\<close>

fun write_outbox :: "(nat \<times> byte \<times> byte slice \<times> string list) list \<Rightarrow> router_conn_obj \<Rightarrow> link \<Rightarrow> link" where
  "write_outbox [] writer lk = lk"
| "write_outbox ((k, op, payload, params) # es) writer lk = write_outbox es writer
     (snd (api_write_message op payload (Some params) writer (replicate k (WriteFails 0 True) @ [Written]) lk))"

text \<open>What was written on a connection.\<close>

definition on_conn :: "nat \<Rightarrow> link \<Rightarrow> bytes" where
  "on_conn cn lk = concat (map snd (filter (\<lambda>x. fst x = cn) (sent lk)))"

lemma send_works:
  assumes "services_work (as_env s)" and "signed_in (as_user s) name (as_session s) c"
  shows "send s c = Done (None, c\<lparr>outbox := outbox c @ [outbox_entry s]\<rparr>)"
  unfolding send_def SendMessage_def send_payload_works [OF assms] by (simp add: outbox_entry_def text_of_def)

definition sent_op :: "audio_send \<Rightarrow> byte \<times> string slice \<times> byte slice" where
  "sent_op s = (100, Some [as_session s, as_user s, as_target s], Some (text_of s))"

lemma write_outbox_sent:
  assumes "conn writer = Some cn"
  shows "\<forall>x\<in>set ss. fst x < 3 \<Longrightarrow> on_conn cn (write_outbox (map (\<lambda>(k, s). (k, outbox_entry s)) ss) writer lk)
    = on_conn cn lk @ write_ops (map (sent_op \<circ> snd) ss)"
proof (induction ss arbitrary: lk)
  case Nil
  then show ?case by (simp add: write_ops_def)
next
  case (Cons x ss)
  obtain k s where x: "x = (k, s)" by (cases x)
  have "k < MAX_RETRIES" using Cons.prems by (simp add: x MAX_RETRIES_def)
  from write_retries_clean [OF this, of _ "[]"]
  have "on_conn cn (snd (api_write_message op payload params writer (replicate k (WriteFails 0 True) @ [Written]) lk))
      = on_conn cn lk @ package_op op params payload" for op payload params
    by (simp add: api_write_message_eq socket_write_def assms on_conn_def)
  then show ?case using Cons by (simp add: x write_ops_def outbox_entry_def sent_op_def)
qed

lemma parse_sent:
  assumes "sendable s"
  shows "map (\<lambda>(op, b). (op, byte_to_params_and_payload b 3 True)) (op_bodies [sent_op s])
    = [(100, ([as_session s, as_user s, as_target s], text_of s, None))]"
proof -
  let ?params = "[as_session s, as_user s, as_target s]"
  have three: "unat (3 :: byte) = length ?params" by simp
  have "byte_to_params_and_payload (op_body (Some ?params) (Some (text_of s))) 3 True = (?params, text_of s, None)"
    using parse_body [of "op_body (Some ?params) (Some (text_of s))" 3 True] parse_op_body_payload [of ?params "text_of s"] assms
    unfolding three sendable_def by simp
  then show ?thesis by (simp add: sent_op_def op_bodies_def)
qed

lemma sent_bodies:
  "list_all sendable ss \<Longrightarrow> list_all fits_u32 (op_bodies (map sent_op ss)) \<and>
     map (\<lambda>(op, b). (op, byte_to_params_and_payload b 3 True)) (op_bodies (map sent_op ss))
       = map (\<lambda>s. (100, ([as_session s, as_user s, as_target s], text_of s, None))) ss"
proof (induction ss)
  case Nil
  then show ?case by (simp add: op_bodies_def)
next
  case (Cons s ss)
  have "op_bodies (map sent_op (s # ss)) = op_bodies [sent_op s] @ op_bodies (map sent_op ss)" by (simp add: op_bodies_def)
  moreover have "list_all fits_u32 (op_bodies [sent_op s])" using Cons.prems by (simp add: op_bodies_def sent_op_def sendable_def)
  ultimately show ?case using Cons parse_sent [of s] by simp
qed

text \<open>C33: what the handlers send is what the wire carries. A handler that sends an audio message for a
  signed-in user hands exactly one operation to the router link. When the link has written these entries,
  each within its three attempts, the bytes on the connection are those before and a stream that is read
  back without rest: one operation 100 for each message, in the order sent, whose body the program's own
  parser splits into the sending session, the sender, the target, and the text of the message, unchanged
  whatever its bytes.\<close>

theorem audio_messages_on_the_wire:
  assumes "\<forall>x\<in>set ss. fst x < 3 \<and> sendable (snd x)" and "conn writer = Some cn"
  shows "(\<forall>x\<in>set ss. \<forall>c name. signed_in (as_user (snd x)) name (as_session (snd x)) c \<longrightarrow>
        send (snd x) c = Done (None, c\<lparr>outbox := outbox c @ [outbox_entry (snd x)]\<rparr>))
    \<and> (\<exists>out. on_conn cn (write_outbox (map (\<lambda>(k, s). (k, outbox_entry s)) ss) writer lk) = on_conn cn lk @ out
        \<and> map (\<lambda>(op, b). (op, byte_to_params_and_payload b 3 True)) (fst (read_ops out))
          = map (\<lambda>(k, s). (100, ([as_session s, as_user s, as_target s], text_of s, None))) ss
        \<and> snd (read_ops out) = [])"
proof (intro conjI)
  show "\<forall>x\<in>set ss. \<forall>c name. signed_in (as_user (snd x)) name (as_session (snd x)) c \<longrightarrow>
      send (snd x) c = Done (None, c\<lparr>outbox := outbox c @ [outbox_entry (snd x)]\<rparr>)"
    using assms(1) send_works by (auto simp: sendable_def)
  have "list_all sendable (map snd ss)" using assms(1) by (simp add: list_all_iff)
  note bodies = sent_bodies [OF this]
  let ?out = "write_ops (map sent_op (map snd ss))"
  have "on_conn cn (write_outbox (map (\<lambda>(k, s). (k, outbox_entry s)) ss) writer lk) = on_conn cn lk @ ?out"
    using write_outbox_sent [OF assms(2), of ss lk] assms(1) by simp
  moreover have "read_ops ?out = (op_bodies (map sent_op (map snd ss)), [])" by (rule read_written) (use bodies in simp)
  ultimately show "\<exists>out. on_conn cn (write_outbox (map (\<lambda>(k, s). (k, outbox_entry s)) ss) writer lk) = on_conn cn lk @ out
        \<and> map (\<lambda>(op, b). (op, byte_to_params_and_payload b 3 True)) (fst (read_ops out))
          = map (\<lambda>(k, s). (100, ([as_session s, as_user s, as_target s], text_of s, None))) ss
        \<and> snd (read_ops out) = []"
    using bodies by (intro exI [of _ ?out]) (simp add: split_def comp_def)
qed

definition demo_send :: "string \<Rightarrow> audio_send" where
  "demo_send display = \<lparr>as_env = demo_server\<lparr>marshal_message := (\<lambda>m. Some [7, if am_Atomic m then 1 else 0, 58, 65])\<rparr>,
     as_user = ''a'', as_session = ''s'', as_target = ''b'', as_chain = ''c'', as_message = ''m'', as_created = 7, as_expires = 9,
     as_type = 0, as_display = display, as_duration = 5\<rparr>"

text \<open>The second message needs a second attempt; both texts hold the delimiter.\<close>

theorem audio_messages_on_the_wire_witness:
  "map (\<lambda>(op, b). (op, byte_to_params_and_payload b 3 True)) (fst (read_ops (on_conn 0
      (write_outbox [(0, outbox_entry (demo_send ''x'')), (1, outbox_entry (demo_send ''y''))]
        \<lparr>raddr = (''r'', 1), conn = Some 0, recovering = False\<rparr> no_link))))
    = [(100, ([''s'', ''a'', ''b''], [7, 1, 58, 65], None)), (100, ([''s'', ''a'', ''b''], [7, 1, 58, 65], None))]"
proof -
  let ?ss = "[(0 :: nat, demo_send ''x''), (1, demo_send ''y'')]" and ?w = "\<lparr>raddr = (''r'', 1), conn = Some 0, recovering = False\<rparr>"
  have msg: "text_of (demo_send x) = [7, 1, 58, 65]" for x
    by (simp add: text_of_def message_text_def demo_send_def api_construct_ws_message_def)
  have names: "as_session (demo_send x) = ''s''" "as_user (demo_send x) = ''a''" "as_target (demo_send x) = ''b''" for x
    by (simp_all add: demo_send_def)
  have "services_work (as_env (demo_send x))" for x by (simp add: services_work_def demo_send_def demo_server_def)
  then have "sendable (demo_send x)" for x
    by (simp add: sendable_def msg names) (simp add: delim_free_def fits_u32_def op_body_def DEFAULT_SPLIT_CHAR_def)
  then have ok: "\<forall>x\<in>set ?ss. fst x < 3 \<and> sendable (snd x)" by simp
  have fresh: "on_conn 0 no_link = []" by (simp add: on_conn_def no_link_def)
  have cn: "conn ?w = Some 0" by simp
  from audio_messages_on_the_wire [OF ok cn, of no_link] show ?thesis by (auto simp: fresh msg names)
qed


subsection \<open>What the router sends\<close>


















subsection \<open>The connection goroutine at its channel\<close>



subsection \<open>From the router's bytes to the screens\<close>




end
