(* ===== verification/Spec2Isabelle.thy ===== *)
theory Spec2Isabelle imports Heartbeat Dispatch Registry_Steps Session_Steps Link_Steps Api_Link Auth_Props Relations_System Account_Life Routes_Props Startup_Props Database_Chains Friends Switchboard Delivery begin

text \<open>
  PROJECT_H_SERVER, the Go server of a messenger for chains of audio messages between two friends.

  The program. One process runs two servers, each with its own TCP link to a router process that is not
  in the repository. The HTTP server (\<open>routes\<close>, \<open>middlewares\<close>, \<open>services\<close>, \<open>helpers\<close>) keeps accounts,
  relations and chains in ScyllaDB, sessions and pending registrations in Redis and audio in MinIO, and
  sends messages to users over its link (\<open>messages\<close>). The socket server (\<open>socket\<close>) keeps the websockets of
  the users: it registers each connection in a sharded table, takes messages for it from its link, queues
  them until the client acknowledges them and writes them to the websocket.

  How the model is laid out. Every theory translates one part of the code; a theory named \<open>X_Props\<close> or
  \<open>X_Steps\<close> holds the facts about \<open>X\<close> and the interleaved systems built of its steps.

  Prelude: bytes, strings, the parts of Go's standard library the code calls, and \<open>outcome\<close>, the three ways a
  statement can end: it completes, it blocks for good, it panics.

  Wire, Stream (\<open>socket/conn_helpers.go\<close>, \<open>messages/conn_helpers.go\<close>, the loops of \<open>read_tcp\<close>): an operation is
  a byte, a 32-bit size and a body of parameters separated by a colon and a payload. Shown: the parser is
  total and exact, parameters and payload are read back, the stream reader recovers what was written
  however the stream breaks (locale \<open>framing\<close>, interpreted on the frames of the code).

  Registry, Registry_Steps, Switchboard (\<open>socket/socket.go\<close>): 32 shards of a table from ids to channels, with
  their locks; hash and id generator are parameters. Shown: creation and deletion do what they should on every
  branch, no interleaving sends on a closed channel, what goes wrong when an id is taken, and that as long as
  none is, creations, deletions, deliveries and receives implement a table without shards and locks (locale
  \<open>implements\<close>, interpreted on the operations of the code).

  Dispatch, Reader (\<open>socket/socket_op.go\<close>, both \<open>read_tcp\<close>): the bytes of the router end, in order and
  unchanged, in the channel of the connection they name; the API server takes heartbeats and logs the rest.

  Heartbeat (\<open>heartbeat_worker\<close>, \<open>heartbeat_check\<close> of both servers): no false alarm, and a missing answer is
  detected, across the wrap of the version byte (locale \<open>beat_checker\<close>, interpreted on both checkers).

  Link, Link_Props, Link_Steps, Api_Link (\<open>socket/socket_client.go\<close>, \<open>messages/api_client.go\<close>): connection
  objects in a heap, because the code shares them through pointers and copies one when it writes; the
  goroutines as stacks of suspended calls, because dialling, recovering and reading call each other and
  return only when a connection is over. Shown: writing with retries; that a call of the recovery makes at
  most three attempts in every run, while calls can nest without bound when the router refuses them all; who
  starts a recovery; and in every interleaving a writer finds no object or one with a real connection.

  Session, Client, Session_Props, Client_Props, Session_Steps (\<open>socket/websocket.go\<close>): the goroutine that
  takes from the channel (\<open>msg_chan_recv\<close>: gate, queue, flush, acknowledgements, handing a session over), the
  one that reads the websocket (authentication, handshake with the router, loop), and both in any
  interleaving with the router. Shown: nothing received behind a closed gate is lost, what is written and
  what is not, that a session survives a reconnection, and that neither goroutine invents a text.

  Http, Store (\<open>errors\<close>, \<open>schemas\<close>, \<open>helpers/response.helpers.go\<close>, \<open>helpers/general.helpers.go\<close>): the context of
  a request. A handler's effects are the statements, Redis commands, objects, mails and router messages
  it issues, in their order; whether each succeeds, and what queries find, are parameters. What a command makes
  of the state of a service is an instance of the locale \<open>command_store\<close>, interpreted on the tables of members
  and of messages.

  Auth, Messaging, Relations, Chains, Accounts, with their \<open>_Props\<close> (the helpers, middlewares and services of the
  same names): one definition per handler. Shown: who is let through and what is not checked, that a session
  is given only for the right password, that a registration can be verified, what makes and ends a
  friendship, which lists a user sees, which uploads are stored.

  Session_Tokens: what a login answers in its headers is what the middleware lets through afterwards, with Redis
  as the login left it and the access token expired or not.

  Schema (\<open>server.go\<close>, the CQL of \<open>services\<close> and \<open>helpers\<close>): the tables, every statement with the Go values bound to
  it, and when a statement fits a table. Route_Commands: which commands a request can issue, through every
  route, and that their statements fit the tables, but for the update of \<open>last_seen\<close> behind a read message.

  Startup, Startup_Props (\<open>server.go\<close>, \<open>config\<close>, \<open>global\<close>): \<open>init\<close> from the logs to the tables and \<open>main\<close> up to the
  listening server. Shown: what a start that gets through has set up, which errors it lets pass, and that the
  commands of all requests to the started process and its queries fit what it created or found from earlier
  starts.

  Database, Database_Steps, Database_Chains: the tables of accounts, relations and chain members as a state, on
  which the commands of any requests are carried out in any interleaving, failing or not. Shown: names and
  ids of accounts correspond one to one; the chain of a relation has exactly its two users as members, as
  long as no batch of members fails, and what is lost when one does.

  Chain_Messages: the rows of the messages as a state. Shown: a page is exactly the rows next to the requested
  moment, on every table that uploads and reads can make; an accepted upload is listed in its place and as its
  form said; what reading marks; and that a row is found by its millisecond.

  Account_Life: registration, verification, login and the requests of the session, through the tables and Redis.

  Relations_System: the rows that the relation handlers write agree for both users after any sequence of
  requests, and need not when two requests overlap.

  Friends: one tie per pair of users, with a chain, a friendship, an asker and whether it shows, as the abstract
  state that the two rows of every relation implement: each handler that writes rows is one operation on ties.

  Routes, Routes_Props (\<open>routes\<close>, \<open>socket/websocket_initialize.go\<close>): the table of routes in the order of its
  registration and the walk of a request through it. Shown: nothing under the user routes without a valid
  token, nothing of a chain but for its two users (locale \<open>guard\<close>, interpreted on the two middlewares and on
  the upgrade of websockets).

  Delivery: a message's two stretches of road. What handlers send is on the wire, operation by operation, and can
  be read from it; and any stream of heartbeats and messages that comes from the router is read to its end,
  each message in the channel of its connection, from which the connection goroutine writes it to the
  websocket, all and in order. Nothing is said of the router between them.

  Bounds and fuel. Bytes, sizes and times on the wire are words of 8, 32 and 64 bits; channels hold 4 and 3
  elements. The stream readers take the length of the stream as fuel, and each operation consumes at
  least five bytes; the splitting of texts takes their length, and each cut consumes the separator; the
  parsing and swapping loops and the search for a free id terminate by a measure or along a given list.

  What is a parameter, with what is assumed of it stated where it is used: JSON, JWT, RSA, AES-GCM, bcrypt,
  base64, randomness, clocks, the network, the order Go's sort leaves among equal keys, the answers of
  ScyllaDB, Redis, MinIO and SMTP, the body parser and the validator, Fiber's matching of paths.

  Not modelled, and why. \<open>DEPRACATED.stream.go\<close> is commented out as a whole. The router's own side (sessions,
  who is told what) is not in the repository, and nothing is assumed of it. Compaction options of tables, cors
  and caches, printing, and the contents of the log files beyond their problem are left out, and so are the
  requests with HEAD that Fiber answers from the handlers of GET. Waiting times are inputs, not durations, and
  goroutines take turns without fairness, so that liveness is stated for runs that are given. A request reads
  the clock once where the code reads it several times; letters are lowered as ASCII, where Go lowers
  Unicode. Session_Steps follows one session that was set up, to which the router sends no operation of code
  0, the code of the commands between the two goroutines; a session that was refused is in Client_Props.
\<close>

end
